(* ===== verification/Prelude.thy ===== *)
theory Prelude
  imports Main "HOL-Library.Word" "HOL-Library.Multiset"
begin

text \<open>
  Shared vocabulary of the development: the machine integers of the Rust sources, the
  collections of facts the component theories extend, and the generic facts on lists, maps
  and multisets that more than one component uses.
\<close>

section \<open>Collections of facts\<close>

named_theorems quad_simps \<open>how the operations of the quad act on its observable parts\<close>
named_theorems float_unit \<open>operations that stay inside the unit interval\<close>
named_theorems wf_intros \<open>operations that keep the quad well formed\<close>

section \<open>Machine integers\<close>

text \<open>\<open>u64\<close> is a 64-bit word: \<open>+\<close> wraps as it does in a release build.\<close>

type_synonym u64 = "64 word"
type_synonym u32 = "32 word"
type_synonym u8 = "8 word"

definition saturating_sub :: "'a::len word \<Rightarrow> 'a word \<Rightarrow> 'a word" where
  "saturating_sub a b = (if b \<le> a then a - b else 0)"

lemma saturating_sub_self [simp]: "saturating_sub a a = 0"
  by (simp add: saturating_sub_def)

lemma unat_saturating_sub: "unat (saturating_sub a b) = unat a - unat b"
  by (auto simp: saturating_sub_def unat_sub word_le_nat_alt)

lemma unat_Suc_version: "unat (v :: u64) < 2 ^ 64 - 1 \<Longrightarrow> unat (v + 1) = Suc (unat v)"
  by (simp add: unat_word_ariths)

text \<open>The bytes of a word, least significant first, and their number.\<close>

definition le_bytes :: "nat \<Rightarrow> 'a::len word \<Rightarrow> u8 list" where
  "le_bytes n w = map (\<lambda>i. ucast (drop_bit (8 * i) w)) [0..<n]"

definition of_le_bytes :: "u8 list \<Rightarrow> nat" where
  "of_le_bytes bs = horner_sum unat 256 bs"

lemma le_bytes_Suc: "le_bytes (Suc n) w = ucast w # le_bytes n (drop_bit 8 w)"
  by (simp add: le_bytes_def map_upt_Suc drop_bit_drop_bit add.commute del: upt_Suc)

lemma length_le_bytes [simp]: "length (le_bytes n w) = n"
  by (simp add: le_bytes_def)

lemma of_le_bytes_mod: "of_le_bytes (le_bytes n w) = unat w mod 256 ^ n"
proof (induction n arbitrary: w)
  case (Suc n)
  have "unat (ucast w :: u8) = unat w mod 256" by (simp add: unsigned_ucast_eq take_bit_eq_mod)
  moreover have "unat (drop_bit 8 w) = unat w div 256"
  proof -
    have "unat (drop_bit 8 w) = drop_bit 8 (unat w)" by (simp only: unsigned_drop_bit_eq) (simp add: take_bit_nat_eq_self)
    also have "\<dots> = unat w div 256" by (simp add: drop_bit_eq_div)
    finally show ?thesis .
  qed
  ultimately show ?case using Suc by (simp add: of_le_bytes_def le_bytes_Suc mod_mult2_eq)
qed (simp add: of_le_bytes_def le_bytes_def)

lemma of_le_bytes_inverse:
  assumes "LENGTH('a::len) \<le> 8 * n"
  shows "of_le_bytes (le_bytes n (w :: 'a word)) = unat w"
proof -
  have "unat w < 2 ^ LENGTH('a)" by (rule unsigned_less)
  also have "\<dots> \<le> 2 ^ (8 * n)" using assms by (intro power_increasing) simp_all
  also have "\<dots> = 256 ^ n" by (simp add: power_mult)
  finally show ?thesis by (simp add: of_le_bytes_mod)
qed

lemma le_bytes_inject:
  "le_bytes n w = le_bytes n (v :: 'a::len word) \<Longrightarrow> LENGTH('a) \<le> 8 * n \<Longrightarrow> w = v"
  by (metis of_le_bytes_inverse word_unat_eq_iff)

section \<open>Lists\<close>

text \<open>Rust's \<open>filter_map\<close>.\<close>

primrec filter_map :: "('a \<Rightarrow> 'b option) \<Rightarrow> 'a list \<Rightarrow> 'b list" where
  "filter_map f [] = []"
| "filter_map f (x # xs) = (case f x of None \<Rightarrow> filter_map f xs | Some y \<Rightarrow> y # filter_map f xs)"

lemma set_filter_map: "set (filter_map f xs) = {y. \<exists>x \<in> set xs. f x = Some y}"
  by (induction xs) (auto split: option.splits)

lemma filter_map_append [simp]: "filter_map f (xs @ ys) = filter_map f xs @ filter_map f ys"
  by (induction xs) (auto split: option.splits)

lemma length_filter_map_le: "length (filter_map f xs) \<le> length xs"
  by (induction xs) (auto split: option.splits)

lemma find_Some_set: "List.find P xs = Some x \<Longrightarrow> x \<in> set xs \<and> P x"
  by (induction xs) (auto split: if_splits)

lemma find_None_set: "List.find P xs = None \<longleftrightarrow> (\<forall>x \<in> set xs. \<not> P x)"
  by (induction xs) auto

lemma fold_invariant:
  "I s \<Longrightarrow> (\<And>x s. x \<in> set xs \<Longrightarrow> I s \<Longrightarrow> I (f x s)) \<Longrightarrow> I (fold f xs s)"
  by (induction xs arbitrary: s) auto

section \<open>Text\<close>

text \<open>Rust's \<open>str::strip_prefix\<close> and \<open>split\<close> at a character.\<close>

definition strip_prefix :: "string \<Rightarrow> string \<Rightarrow> string option" where
  "strip_prefix p s = (if take (length p) s = p then Some (drop (length p) s) else None)"

lemma strip_prefix_Some: "strip_prefix p s = Some r \<longleftrightarrow> s = p @ r"
  unfolding strip_prefix_def by (metis append_eq_conv_conj append_take_drop_id option.inject option.simps(3))

fun split_on :: "char \<Rightarrow> string \<Rightarrow> string list" where
  "split_on c [] = [[]]"
| "split_on c (x # xs) =
     (if x = c then [] # split_on c xs
      else (case split_on c xs of [] \<Rightarrow> [[x]] | p # ps \<Rightarrow> (x # p) # ps))"

lemma split_on_append: "c \<notin> set w \<Longrightarrow> split_on c (w @ c # xs) = w # split_on c xs"
  by (induction w) auto

section \<open>Maps\<close>

lemma map_of_SomeI: "distinct (map fst xs) \<Longrightarrow> (k, v) \<in> set xs \<Longrightarrow> map_of xs k = Some v"
  by simp

lemma set_of_map_of:
  "distinct (map fst xs) \<Longrightarrow> set xs = {(k, v). map_of xs k = Some v}"
  by (auto simp: map_of_eq_Some_iff)

lemma finite_dom_map_of_eq: "m = map_of xs \<Longrightarrow> finite (dom m)"
  by (simp add: finite_dom_map_of)

end
