(* ===== verification/Slot_Map.thy ===== *)
theory Slot_Map
  imports Prelude
begin

text \<open>
  The interface of the \<open>slotmap\<close> crate as \<open>epica-core\<close> uses it: \<open>SlotMap<BeliefId, V>\<close>.
  The crate is not part of the repository, so its operations are a parameter, a record of
  functions over an unknown state type; the locale \<open>slot_map\<close> states its documented
  behaviour. A list of slots with a free list is a reference implementation that meets it.
\<close>

section \<open>Keys\<close>

text \<open>
  \<open>BeliefId\<close> is a \<open>new_key_type!\<close>: a slot index and a version, or the null key that
  \<open>Default\<close> gives.
\<close>

datatype belief_id = NullKey | Key nat nat

instantiation belief_id :: linorder
begin

fun less_eq_belief_id :: "belief_id \<Rightarrow> belief_id \<Rightarrow> bool" where
  "less_eq_belief_id NullKey y = True"
| "less_eq_belief_id (Key i v) NullKey = False"
| "less_eq_belief_id (Key i v) (Key j w) = (i < j \<or> (i = j \<and> v \<le> w))"

definition less_belief_id :: "belief_id \<Rightarrow> belief_id \<Rightarrow> bool" where
  "less_belief_id x y \<longleftrightarrow> x \<le> y \<and> \<not> (y :: belief_id) \<le> x"

instance
proof
  fix x y z :: belief_id
  show "(x < y) = (x \<le> y \<and> \<not> y \<le> x)" by (rule less_belief_id_def)
  show "x \<le> x" by (cases x) auto
  show "x \<le> y \<Longrightarrow> y \<le> z \<Longrightarrow> x \<le> z" by (cases x; cases y; cases z; simp; linarith)
  show "x \<le> y \<Longrightarrow> y \<le> x \<Longrightarrow> x = y" by (cases x; cases y; simp; linarith)
  show "x \<le> y \<or> y \<le> x" by (cases x; cases y; simp; linarith)
qed

end

section \<open>The interface\<close>

text \<open>
  \<open>sm_write\<close> is a write through the reference \<open>get_mut\<close> returned; \<open>sm_valid\<close> holds of the
  states the crate's operations produce. Inserting into a full map panics in the crate: a run
  of the model inserts fewer than \<open>2 ^ 32 - 2\<close> beliefs.
\<close>

record ('s, 'v) slot_map_ops =
  sm_new :: "'s"
  sm_insert_with_key :: "'s \<Rightarrow> (belief_id \<Rightarrow> 'v) \<Rightarrow> belief_id \<times> 's"
  sm_get :: "'s \<Rightarrow> belief_id \<Rightarrow> 'v option"
  sm_write :: "'s \<Rightarrow> belief_id \<Rightarrow> 'v \<Rightarrow> 's"
  sm_remove :: "'s \<Rightarrow> belief_id \<Rightarrow> 'v option \<times> 's"
  sm_iter :: "'s \<Rightarrow> (belief_id \<times> 'v) list"
  sm_len :: "'s \<Rightarrow> nat"
  sm_valid :: "'s \<Rightarrow> bool"

locale slot_map =
  fixes M :: "('s, 'v) slot_map_ops"
  assumes new_valid: "sm_valid M (sm_new M)"
    and new_iter: "sm_iter M (sm_new M) = []"
    and iter_distinct: "sm_valid M s \<Longrightarrow> distinct (map fst (sm_iter M s))"
    and get_iter: "sm_valid M s \<Longrightarrow> sm_get M s = map_of (sm_iter M s)"
    and len_iter: "sm_valid M s \<Longrightarrow> sm_len M s = length (sm_iter M s)"
    and insert_fresh: "sm_valid M s \<Longrightarrow> sm_insert_with_key M s f = (k, s') \<Longrightarrow>
          k \<noteq> NullKey \<and> sm_get M s k = None"
    and insert_valid: "sm_valid M s \<Longrightarrow> sm_insert_with_key M s f = (k, s') \<Longrightarrow> sm_valid M s'"
    and insert_get: "sm_valid M s \<Longrightarrow> sm_insert_with_key M s f = (k, s') \<Longrightarrow>
          sm_get M s' = (sm_get M s)(k \<mapsto> f k)"
    and null_absent: "sm_valid M s \<Longrightarrow> sm_get M s NullKey = None"
    and write_valid: "sm_valid M s \<Longrightarrow> sm_get M s k = Some v \<Longrightarrow> sm_valid M (sm_write M s k w)"
    and write_get: "sm_valid M s \<Longrightarrow> sm_get M s k = Some v \<Longrightarrow>
          sm_get M (sm_write M s k w) = (sm_get M s)(k \<mapsto> w)"
    and remove_valid: "sm_valid M s \<Longrightarrow> sm_remove M s k = (r, s') \<Longrightarrow> sm_valid M s'"
    and remove_result: "sm_valid M s \<Longrightarrow> sm_remove M s k = (r, s') \<Longrightarrow> r = sm_get M s k"
    and remove_get: "sm_valid M s \<Longrightarrow> sm_remove M s k = (r, s') \<Longrightarrow>
          sm_get M s' = (sm_get M s)(k := None)"
begin

lemma new_get: "sm_get M (sm_new M) = Map.empty"
  by (simp add: get_iter new_valid new_iter)

lemma finite_dom: "sm_valid M s \<Longrightarrow> finite (dom (sm_get M s))"
  by (simp add: get_iter finite_dom_map_of)

lemma iter_set: "sm_valid M s \<Longrightarrow> set (sm_iter M s) = {(k, v). sm_get M s k = Some v}"
  using set_of_map_of [OF iter_distinct, of s] by (simp only: get_iter)

lemma iter_keys: "sm_valid M s \<Longrightarrow> set (map fst (sm_iter M s)) = dom (sm_get M s)"
  by (auto simp: iter_set image_iff)

lemma iter_mem: "sm_valid M s \<Longrightarrow> (k, v) \<in> set (sm_iter M s) \<longleftrightarrow> sm_get M s k = Some v"
  by (simp add: iter_set)

lemma len_card: "sm_valid M s \<Longrightarrow> sm_len M s = card (dom (sm_get M s))"
  using iter_distinct [of s] distinct_card [of "map fst (sm_iter M s)"]
  by (simp add: len_iter iter_keys [symmetric])

lemma insert_key_fresh: "sm_valid M s \<Longrightarrow> sm_insert_with_key M s f = (k, s') \<Longrightarrow> k \<notin> dom (sm_get M s)"
  by (auto dest: insert_fresh)

end

section \<open>A reference implementation\<close>

text \<open>
  Each slot holds the version of its latest key and, while occupied, a value; a removed slot
  goes to the front of the free list and its next key has a larger version.
\<close>

record 'v slots =
  sl_slots :: "(nat \<times> 'v option) list"
  sl_free :: "nat list"

definition slots_new :: "'v slots" where
  "slots_new = \<lparr>sl_slots = [], sl_free = []\<rparr>"

definition slots_insert :: "'v slots \<Rightarrow> (belief_id \<Rightarrow> 'v) \<Rightarrow> belief_id \<times> 'v slots" where
  "slots_insert s f =
     (case sl_free s of
        [] \<Rightarrow> let k = Key (length (sl_slots s)) 1 in (k, s\<lparr>sl_slots := sl_slots s @ [(1, Some (f k))]\<rparr>)
      | i # fs \<Rightarrow> let v = fst (sl_slots s ! i) + 1; k = Key i v
                  in (k, s\<lparr>sl_slots := (sl_slots s)[i := (v, Some (f k))], sl_free := fs\<rparr>))"

fun slots_get :: "'v slots \<Rightarrow> belief_id \<Rightarrow> 'v option" where
  "slots_get s NullKey = None"
| "slots_get s (Key i v) =
     (if i < length (sl_slots s) \<and> fst (sl_slots s ! i) = v then snd (sl_slots s ! i) else None)"

fun slots_write :: "'v slots \<Rightarrow> belief_id \<Rightarrow> 'v \<Rightarrow> 'v slots" where
  "slots_write s NullKey w = s"
| "slots_write s (Key i v) w = s\<lparr>sl_slots := (sl_slots s)[i := (v, Some w)]\<rparr>"

fun slots_remove :: "'v slots \<Rightarrow> belief_id \<Rightarrow> 'v option \<times> 'v slots" where
  "slots_remove s NullKey = (None, s)"
| "slots_remove s (Key i v) =
     (case slots_get s (Key i v) of
        None \<Rightarrow> (None, s)
      | Some w \<Rightarrow> (Some w, s\<lparr>sl_slots := (sl_slots s)[i := (v, None)], sl_free := i # sl_free s\<rparr>))"

fun slots_list :: "nat \<Rightarrow> (nat \<times> 'v option) list \<Rightarrow> (belief_id \<times> 'v) list" where
  "slots_list i [] = []"
| "slots_list i ((v, None) # xs) = slots_list (Suc i) xs"
| "slots_list i ((v, Some w) # xs) = (Key i v, w) # slots_list (Suc i) xs"

definition slots_iter :: "'v slots \<Rightarrow> (belief_id \<times> 'v) list" where
  "slots_iter s = slots_list 0 (sl_slots s)"

definition slots_len :: "'v slots \<Rightarrow> nat" where
  "slots_len s = length (slots_iter s)"

definition slots_valid :: "'v slots \<Rightarrow> bool" where
  "slots_valid s \<longleftrightarrow>
     (\<forall>i \<in> set (sl_free s). i < length (sl_slots s) \<and> snd (sl_slots s ! i) = None) \<and>
     distinct (sl_free s)"

definition slots_ops :: "('v slots, 'v) slot_map_ops" where
  "slots_ops =
     \<lparr>sm_new = slots_new, sm_insert_with_key = slots_insert, sm_get = slots_get,
      sm_write = slots_write, sm_remove = slots_remove, sm_iter = slots_iter,
      sm_len = slots_len, sm_valid = slots_valid\<rparr>"

lemma ex_nat_split: "(\<exists>i. P i) \<longleftrightarrow> P 0 \<or> (\<exists>i. P (Suc i))"
  by (metis nat.exhaust)

lemma slots_list_keys:
  "(k, w) \<in> set (slots_list n xs) \<longleftrightarrow> (\<exists>i v. k = Key (n + i) v \<and> i < length xs \<and> xs ! i = (v, Some w))"
proof (induction n xs rule: slots_list.induct)
  case (2 i v xs)
  show ?case by (subst ex_nat_split) (simp add: 2)
next
  case (3 i v w' xs)
  show ?case by (subst ex_nat_split) (auto simp: 3)
qed simp

lemma slots_list_distinct: "distinct (map fst (slots_list n xs))"
  by (induction n xs rule: slots_list.induct) (auto simp: slots_list_keys)

lemma slots_get_iter: "slots_get s = map_of (slots_iter s)"
proof
  fix k
  have "slots_get s k = Some w \<longleftrightarrow> map_of (slots_iter s) k = Some w" for w
    by (cases k) (auto simp: slots_iter_def slots_list_distinct slots_list_keys prod_eq_iff)
  then show "slots_get s k = map_of (slots_iter s) k"
    by (metis not_Some_eq)
qed

lemma slots_iter_null: "map_of (slots_iter s) NullKey = None"
  by (simp add: slots_get_iter [symmetric])

lemma slots_get_update:
  "i < length (sl_slots s) \<Longrightarrow>
   slots_get (s\<lparr>sl_slots := (sl_slots s)[i := (v, w)], sl_free := fs\<rparr>) (Key j u) =
     (if j = i then if u = v then w else None else slots_get s (Key j u))"
  by simp

lemma slots_get_write:
  "i < length (sl_slots s) \<Longrightarrow>
   slots_get (s\<lparr>sl_slots := (sl_slots s)[i := (v, w)]\<rparr>) (Key j u) =
     (if j = i then if u = v then w else None else slots_get s (Key j u))"
  by simp

lemma slots_get_append:
  "slots_get (s\<lparr>sl_slots := sl_slots s @ [(v, w)]\<rparr>) (Key j u) =
     (if j = length (sl_slots s) then if u = v then w else None else slots_get s (Key j u))"
  by (simp add: nth_append)

lemma slots_get_Some: "slots_get s (Key i v) = Some w \<Longrightarrow> i < length (sl_slots s) \<and> sl_slots s ! i = (v, Some w)"
  by (auto simp: prod_eq_iff split: if_splits)

lemma slots_get_other: "slots_get s (Key i v) = Some w \<Longrightarrow> u \<noteq> v \<Longrightarrow> slots_get s (Key i u) = None"
  by (auto split: if_splits)

lemma slots_get_vacant: "snd (sl_slots s ! i) = None \<Longrightarrow> slots_get s (Key i u) = None"
  by simp

lemma slots_insert_get:
  assumes "slots_valid s" "slots_insert s f = (k, s')"
  shows "slots_get s' = (slots_get s)(k \<mapsto> f k)"
proof (rule ext)
  fix x
  show "slots_get s' x = ((slots_get s)(k \<mapsto> f k)) x"
  proof (cases x)
    case NullKey
    then show ?thesis using assms by (auto simp: slots_insert_def Let_def split: list.splits)
  next
    case x: (Key j u)
    show ?thesis
    proof (cases "sl_free s")
      case Nil
      have "slots_get s (Key (length (sl_slots s)) u) = None" by simp
      then show ?thesis
        using assms Nil x
        by (cases "j = length (sl_slots s)")
          (auto simp: slots_insert_def Let_def slots_get_append simp del: slots_get.simps
            split: if_splits)
    next
      case (Cons i fs)
      then have i: "i < length (sl_slots s)" "snd (sl_slots s ! i) = None"
        using assms(1) by (auto simp: slots_valid_def)
      show ?thesis
        using assms Cons x i slots_get_vacant [OF i(2), of u]
        by (auto simp: slots_insert_def Let_def slots_get_update simp del: slots_get.simps
            split: if_splits)
    qed
  qed
qed

lemma slots_write_get:
  assumes "slots_get s k = Some v"
  shows "slots_get (slots_write s k w) = (slots_get s)(k \<mapsto> w)"
proof (rule ext)
  fix x
  obtain i u where k: "k = Key i u" using assms by (cases k) auto
  show "slots_get (slots_write s k w) x = ((slots_get s)(k \<mapsto> w)) x"
    using assms slots_get_Some [of s i u v] slots_get_other [of s i u v] unfolding k
    by (cases x) (auto simp: slots_get_write simp del: slots_get.simps(2))
qed

lemma slots_remove_get:
  assumes "slots_remove s k = (r, s')"
  shows "slots_get s' = (slots_get s)(k := None)"
proof (cases "slots_get s k")
  case None
  then have "s' = s" using assms by (cases k) (auto simp del: slots_get.simps(2))
  with None show ?thesis by (auto simp: fun_eq_iff)
next
  case (Some v)
  then obtain i u where k: "k = Key i u" by (cases k) auto
  show ?thesis
  proof (rule ext)
    fix x
    show "slots_get s' x = ((slots_get s)(k := None)) x"
      using assms Some slots_get_Some [of s i u v] slots_get_other [of s i u v] unfolding k
      by (cases x) (auto simp: slots_get_update simp del: slots_get.simps(2))
  qed
qed

interpretation slots_sm: slot_map "slots_ops :: ('v slots, 'v) slot_map_ops"
proof (unfold_locales, goal_cases)
  case (6 s f k s')
  then show ?case
    by (auto simp: slots_ops_def slots_valid_def slots_insert_def Let_def split: list.splits)
next
  case (7 s f k s')
  then show ?case
    by (auto simp: slots_ops_def slots_valid_def slots_insert_def Let_def nth_append nth_list_update
        split: list.splits)
next
  case (8 s f k s')
  then show ?case using slots_insert_get [of s f k s'] by (simp add: slots_ops_def)
next
  case (10 s k v w)
  then show ?case
    by (cases k) (auto simp: slots_ops_def slots_valid_def nth_list_update split: if_splits)
next
  case (11 s k v w)
  then show ?case using slots_write_get [of s k v w] by (simp add: slots_ops_def)
next
  case (12 s k r s')
  then show ?case
    by (cases k) (auto simp: slots_ops_def slots_valid_def nth_list_update
        split: if_splits option.splits)
next
  case (13 s k r s')
  then show ?case
    by (cases k) (auto simp: slots_ops_def split: if_splits option.splits)
next
  case (14 s k r s')
  then show ?case using slots_remove_get [of s k r s'] by (simp add: slots_ops_def)
next
  case (9 s)
  show ?case by (simp add: slots_ops_def)
next
  case (3 s)
  show ?case by (simp add: slots_ops_def slots_iter_def slots_list_distinct)
next
  case (4 s)
  show ?case by (simp add: slots_ops_def slots_get_iter)
qed (simp_all add: slots_ops_def slots_new_def slots_valid_def slots_iter_def slots_len_def)

end
