(* ===== verification/Stable_Graph.thy ===== *)
theory Stable_Graph
  imports Slot_Map
begin

text \<open>
  The interface of \<open>petgraph::stable_graph::StableDiGraph<BeliefId, E>\<close>, as far as the four
  projections of the quad use it. The crate is not part of the repository: its operations are
  a parameter and \<open>stable_digraph\<close> states their documented behaviour. Parallel edges and
  self loops are allowed, node indices survive the removal of other nodes, removing a node
  removes its edges, the order in which edges are iterated is not specified, and a depth-first
  search visits the nodes reachable from its start, each once and the start first.
\<close>

section \<open>The interface\<close>

text \<open>
  \<open>gr_out\<close> lists target and weight of the outgoing edges, \<open>gr_in\<close> source and weight of the
  incoming ones. \<open>gr_dfs\<close> is the order in which \<open>Dfs\<close> yields the nodes from a start,
  \<open>gr_dfs_rev\<close> the same on the reversed graph; \<open>gr_valid\<close> holds of the graphs the crate's
  operations produce.
\<close>

record ('g, 'w) digraph_ops =
  gr_new :: "'g"
  gr_add_node :: "'g \<Rightarrow> belief_id \<Rightarrow> nat \<times> 'g"
  gr_remove_node :: "'g \<Rightarrow> nat \<Rightarrow> 'g"
  gr_add_edge :: "'g \<Rightarrow> nat \<Rightarrow> nat \<Rightarrow> 'w \<Rightarrow> 'g"
  gr_weight :: "'g \<Rightarrow> nat \<Rightarrow> belief_id option"
  gr_edges :: "'g \<Rightarrow> (nat \<times> nat \<times> 'w) list"
  gr_out :: "'g \<Rightarrow> nat \<Rightarrow> (nat \<times> 'w) list"
  gr_in :: "'g \<Rightarrow> nat \<Rightarrow> (nat \<times> 'w) list"
  gr_dfs :: "'g \<Rightarrow> nat \<Rightarrow> nat list"
  gr_dfs_rev :: "'g \<Rightarrow> nat \<Rightarrow> nat list"
  gr_valid :: "'g \<Rightarrow> bool"

text \<open>The edge relation between node indices.\<close>

definition gr_rel :: "('g, 'w) digraph_ops \<Rightarrow> 'g \<Rightarrow> (nat \<times> nat) set" where
  "gr_rel G g = (\<lambda>(s, t, w). (s, t)) ` set (gr_edges G g)"

definition touches :: "nat \<Rightarrow> nat \<times> nat \<times> 'w \<Rightarrow> bool" where
  "touches i e \<longleftrightarrow> fst e = i \<or> fst (snd e) = i"

locale stable_digraph =
  fixes G :: "('g, 'w) digraph_ops"
  assumes new_valid: "gr_valid G (gr_new G)"
    and new_weight: "gr_weight G (gr_new G) = Map.empty"
    and new_edges: "gr_edges G (gr_new G) = []"
    and finite_weight: "gr_valid G g \<Longrightarrow> finite (dom (gr_weight G g))"
    and edge_ends: "gr_valid G g \<Longrightarrow> (s, t, w) \<in> set (gr_edges G g) \<Longrightarrow>
          s \<in> dom (gr_weight G g) \<and> t \<in> dom (gr_weight G g)"
    and add_node: "gr_valid G g \<Longrightarrow> gr_add_node G g b = (i, g') \<Longrightarrow>
          gr_valid G g' \<and> gr_weight G g i = None \<and> gr_weight G g' = (gr_weight G g)(i \<mapsto> b) \<and>
          mset (gr_edges G g') = mset (gr_edges G g)"
    and remove_node: "gr_valid G g \<Longrightarrow> i \<in> dom (gr_weight G g) \<Longrightarrow>
          gr_valid G (gr_remove_node G g i) \<and>
          gr_weight G (gr_remove_node G g i) = (gr_weight G g)(i := None) \<and>
          mset (gr_edges G (gr_remove_node G g i)) = filter_mset (\<lambda>e. \<not> touches i e) (mset (gr_edges G g))"
    and add_edge: "gr_valid G g \<Longrightarrow> i \<in> dom (gr_weight G g) \<Longrightarrow> j \<in> dom (gr_weight G g) \<Longrightarrow>
          gr_valid G (gr_add_edge G g i j w) \<and>
          gr_weight G (gr_add_edge G g i j w) = gr_weight G g \<and>
          mset (gr_edges G (gr_add_edge G g i j w)) = add_mset (i, j, w) (mset (gr_edges G g))"
    and out_edges: "gr_valid G g \<Longrightarrow>
          mset (gr_out G g i) = image_mset snd (filter_mset (\<lambda>e. fst e = i) (mset (gr_edges G g)))"
    and in_edges: "gr_valid G g \<Longrightarrow>
          mset (gr_in G g i) =
            image_mset (\<lambda>(s, t, w). (s, w)) (filter_mset (\<lambda>e. fst (snd e) = i) (mset (gr_edges G g)))"
    and dfs: "gr_valid G g \<Longrightarrow> i \<in> dom (gr_weight G g) \<Longrightarrow>
          (\<exists>r. gr_dfs G g i = i # r) \<and> distinct (gr_dfs G g i) \<and>
          set (gr_dfs G g i) = (gr_rel G g)\<^sup>* `` {i}"
    and dfs_rev: "gr_valid G g \<Longrightarrow> i \<in> dom (gr_weight G g) \<Longrightarrow>
          (\<exists>r. gr_dfs_rev G g i = i # r) \<and> distinct (gr_dfs_rev G g i) \<and>
          set (gr_dfs_rev G g i) = ((gr_rel G g)\<inverse>)\<^sup>* `` {i}"
begin

lemma set_gr_out: "gr_valid G g \<Longrightarrow> set (gr_out G g i) = {(t, w). (i, t, w) \<in> set (gr_edges G g)}"
  using arg_cong [OF out_edges, of g set_mset i] by force

lemma set_gr_in: "gr_valid G g \<Longrightarrow> set (gr_in G g i) = {(s, w). (s, i, w) \<in> set (gr_edges G g)}"
  using arg_cong [OF in_edges, of g set_mset i] by force

lemma gr_rel_ends: "gr_valid G g \<Longrightarrow> (s, t) \<in> gr_rel G g \<Longrightarrow>
    s \<in> dom (gr_weight G g) \<and> t \<in> dom (gr_weight G g)"
  by (auto simp: gr_rel_def dest: edge_ends)

lemma reach_dom: "gr_valid G g \<Longrightarrow> i \<in> dom (gr_weight G g) \<Longrightarrow> (i, j) \<in> (gr_rel G g)\<^sup>* \<Longrightarrow>
    j \<in> dom (gr_weight G g)"
  by (erule rtrancl_induct) (auto dest: gr_rel_ends)

lemma reach_rev_dom: "gr_valid G g \<Longrightarrow> i \<in> dom (gr_weight G g) \<Longrightarrow> (i, j) \<in> ((gr_rel G g)\<inverse>)\<^sup>* \<Longrightarrow>
    j \<in> dom (gr_weight G g)"
  by (erule rtrancl_induct) (auto dest: gr_rel_ends)

lemma set_edges_add_node: "gr_valid G g \<Longrightarrow> gr_add_node G g b = (i, g') \<Longrightarrow>
    set (gr_edges G g') = set (gr_edges G g)"
  by (metis add_node set_mset_mset)

lemma set_edges_remove_node: "gr_valid G g \<Longrightarrow> i \<in> dom (gr_weight G g) \<Longrightarrow>
    set (gr_edges G (gr_remove_node G g i)) = {e \<in> set (gr_edges G g). \<not> touches i e}"
  by (metis remove_node set_mset_mset set_mset_filter)

lemma set_edges_add_edge: "gr_valid G g \<Longrightarrow> i \<in> dom (gr_weight G g) \<Longrightarrow> j \<in> dom (gr_weight G g) \<Longrightarrow>
    set (gr_edges G (gr_add_edge G g i j w)) = insert (i, j, w) (set (gr_edges G g))"
  by (metis add_edge set_mset_add_mset_insert set_mset_mset)

end

section \<open>A reference implementation\<close>

text \<open>Depth-first search over a list of edges, with a stack and the visited nodes in order.\<close>

definition succs :: "(nat \<times> nat) list \<Rightarrow> nat \<Rightarrow> nat list" where
  "succs es x = map snd (filter (\<lambda>e. fst e = x) es)"

lemma set_succs: "set (succs es x) = {y. (x, y) \<in> set es}"
  by (force simp: succs_def)

function dfs_from :: "(nat \<times> nat) list \<Rightarrow> nat list \<Rightarrow> nat list \<Rightarrow> nat list" where
  "dfs_from es [] vs = vs"
| "dfs_from es (x # xs) vs =
     (if x \<in> set vs then dfs_from es xs vs else dfs_from es (succs es x @ xs) (vs @ [x]))"
  by pat_completeness auto
termination
proof (relation "measures [\<lambda>(es, xs, vs). card ((snd ` set es \<union> set xs) - set vs), \<lambda>(es, xs, vs). length xs]",
    goal_cases)
  case (2 es x xs vs)
  then have "(snd ` set es \<union> set (x # xs)) - set vs = (snd ` set es \<union> set xs) - set vs" by auto
  then show ?case by simp
next
  case (3 es x xs vs)
  have "(snd ` set es \<union> set (succs es x @ xs)) - set (vs @ [x]) \<subset> (snd ` set es \<union> set (x # xs)) - set vs"
    using 3 by (force simp: set_succs)
  then show ?case by (simp add: psubset_card_mono)
qed simp

lemma dfs_from_distinct: "distinct vs \<Longrightarrow> distinct (dfs_from es xs vs)"
  by (induction es xs vs rule: dfs_from.induct) auto

lemma dfs_from_prefix: "\<exists>r. dfs_from es xs vs = vs @ r"
  by (induction es xs vs rule: dfs_from.induct) auto

lemma dfs_from_sound: "set (dfs_from es xs vs) \<subseteq> set vs \<union> (set es)\<^sup>* `` set xs"
proof (induction es xs vs rule: dfs_from.induct)
  case (2 es x xs vs)
  then show ?case
    by (auto simp: set_succs dest!: subsetD intro: converse_rtrancl_into_rtrancl)
qed simp

lemma dfs_from_complete:
  "(\<forall>v \<in> set vs. set (succs es v) \<subseteq> set vs \<union> set xs) \<Longrightarrow>
   set vs \<union> set xs \<subseteq> set (dfs_from es xs vs) \<and>
   (\<forall>v \<in> set (dfs_from es xs vs). set (succs es v) \<subseteq> set (dfs_from es xs vs))"
proof (induction es xs vs rule: dfs_from.induct)
  case (2 es x xs vs)
  show ?case
  proof (cases "x \<in> set vs")
    case True
    with 2 show ?thesis by (auto simp: insert_absorb)
  next
    case False
    have "\<forall>v \<in> set (vs @ [x]). set (succs es v) \<subseteq> set (vs @ [x]) \<union> set (succs es x @ xs)"
      using 2(3) by auto
    from 2(2) [OF False this] False show ?thesis by simp
  qed
qed simp

lemma closed_rtrancl: "(\<forall>v \<in> A. R `` {v} \<subseteq> A) \<Longrightarrow> x \<in> A \<Longrightarrow> (x, y) \<in> R\<^sup>* \<Longrightarrow> y \<in> A"
  by (erule rtrancl_induct) auto

lemma dfs_from_reach: "set (dfs_from es [x] []) = (set es)\<^sup>* `` {x}"
proof
  show "set (dfs_from es [x] []) \<subseteq> (set es)\<^sup>* `` {x}"
    using dfs_from_sound [of es "[x]" "[]"] by simp
  have c: "set (succs es v) \<subseteq> set (dfs_from es [x] [])" if "v \<in> set (dfs_from es [x] [])" for v
    using dfs_from_complete [of "[]" es "[x]"] that by simp
  have "x \<in> set (dfs_from es [x] [])"
    using dfs_from_complete [of "[]" es "[x]"] by simp
  moreover have "\<forall>v \<in> set (dfs_from es [x] []). set es `` {v} \<subseteq> set (dfs_from es [x] [])"
    using c by (simp add: set_succs Image_singleton del: dfs_from.simps)
  ultimately show "(set es)\<^sup>* `` {x} \<subseteq> set (dfs_from es [x] [])"
    by (meson Image_singleton_iff closed_rtrancl subsetI)
qed

lemma dfs_from_start: "\<exists>r. dfs_from es [x] [] = x # r"
  using dfs_from_prefix [of es "succs es x" "[x]"] by auto

text \<open>Nodes by index, the next unused index, and the edges, latest first.\<close>

record 'w edge_list =
  el_nodes :: "(nat \<times> belief_id) list"
  el_next :: nat
  el_edges :: "(nat \<times> nat \<times> 'w) list"

definition el_pairs :: "'w edge_list \<Rightarrow> (nat \<times> nat) list" where
  "el_pairs g = map (\<lambda>(s, t, w). (s, t)) (el_edges g)"

definition el_valid :: "'w edge_list \<Rightarrow> bool" where
  "el_valid g \<longleftrightarrow> (\<forall>i \<in> fst ` set (el_nodes g). i < el_next g) \<and>
     (\<forall>e \<in> set (el_edges g). fst e \<in> fst ` set (el_nodes g) \<and> fst (snd e) \<in> fst ` set (el_nodes g))"

definition el_new :: "'w edge_list" where
  "el_new = \<lparr>el_nodes = [], el_next = 0, el_edges = []\<rparr>"

definition el_add_node :: "'w edge_list \<Rightarrow> belief_id \<Rightarrow> nat \<times> 'w edge_list" where
  "el_add_node g b = (el_next g, g\<lparr>el_nodes := (el_next g, b) # el_nodes g, el_next := Suc (el_next g)\<rparr>)"

definition el_remove_node :: "'w edge_list \<Rightarrow> nat \<Rightarrow> 'w edge_list" where
  "el_remove_node g i = g\<lparr>el_nodes := filter (\<lambda>n. fst n \<noteq> i) (el_nodes g),
                          el_edges := filter (\<lambda>e. \<not> touches i e) (el_edges g)\<rparr>"

definition el_add_edge :: "'w edge_list \<Rightarrow> nat \<Rightarrow> nat \<Rightarrow> 'w \<Rightarrow> 'w edge_list" where
  "el_add_edge g i j w = g\<lparr>el_edges := (i, j, w) # el_edges g\<rparr>"

definition el_weight :: "'w edge_list \<Rightarrow> nat \<Rightarrow> belief_id option" where
  "el_weight g = map_of (el_nodes g)"

definition el_out :: "'w edge_list \<Rightarrow> nat \<Rightarrow> (nat \<times> 'w) list" where
  "el_out g i = map snd (filter (\<lambda>e. fst e = i) (el_edges g))"

definition el_in :: "'w edge_list \<Rightarrow> nat \<Rightarrow> (nat \<times> 'w) list" where
  "el_in g i = map (\<lambda>(s, t, w). (s, w)) (filter (\<lambda>e. fst (snd e) = i) (el_edges g))"

definition el_dfs :: "'w edge_list \<Rightarrow> nat \<Rightarrow> nat list" where
  "el_dfs g i = dfs_from (el_pairs g) [i] []"

definition el_dfs_rev :: "'w edge_list \<Rightarrow> nat \<Rightarrow> nat list" where
  "el_dfs_rev g i = dfs_from (map prod.swap (el_pairs g)) [i] []"

lemmas el_defs = el_new_def el_add_node_def el_remove_node_def el_add_edge_def el_weight_def el_out_def
  el_in_def el_dfs_def el_dfs_rev_def

definition edge_list_ops :: "('w edge_list, 'w) digraph_ops" where
  "edge_list_ops =
     \<lparr>gr_new = el_new, gr_add_node = el_add_node, gr_remove_node = el_remove_node,
      gr_add_edge = el_add_edge, gr_weight = el_weight, gr_edges = el_edges, gr_out = el_out,
      gr_in = el_in, gr_dfs = el_dfs, gr_dfs_rev = el_dfs_rev, gr_valid = el_valid\<rparr>"

lemma map_of_filter_neq: "map_of (filter (\<lambda>n. fst n \<noteq> i) xs) = (map_of xs)(i := None)"
  by (induction xs) auto

lemma image_Collect_mem: "a \<in> fst ` {x \<in> A. fst x \<noteq> i} \<longleftrightarrow> a \<in> fst ` A \<and> a \<noteq> i"
  by auto

lemma el_rel: "gr_rel edge_list_ops g = set (el_pairs g)"
  by (simp add: gr_rel_def el_pairs_def edge_list_ops_def el_defs)

lemma el_rel_conv: "(gr_rel edge_list_ops g)\<inverse> = set (map prod.swap (el_pairs g))"
  by (force simp: el_rel image_iff)

interpretation edge_list_gr: stable_digraph "edge_list_ops :: ('w edge_list, 'w) digraph_ops"
proof (unfold_locales, goal_cases)
  case (11 g i)
  show ?case unfolding el_rel using dfs_from_start [of "el_pairs g" i]
    by (simp add: dfs_from_reach dfs_from_distinct edge_list_ops_def el_defs del: dfs_from.simps)
next
  case (12 g i)
  show ?case unfolding el_rel_conv using dfs_from_start [of "map prod.swap (el_pairs g)" i]
    by (simp add: dfs_from_reach dfs_from_distinct edge_list_ops_def el_defs
        del: dfs_from.simps set_map)
next
  case (6 g b i g')
  then have "i = el_next g" "g' = g\<lparr>el_nodes := (el_next g, b) # el_nodes g, el_next := Suc (el_next g)\<rparr>"
    "el_valid g" by (auto simp: edge_list_ops_def el_defs)
  then show ?case
    by (auto simp: edge_list_ops_def el_defs el_valid_def map_of_eq_None_iff less_Suc_eq fun_eq_iff)
next
  case (7 g i)
  then show ?case
    by (auto simp: edge_list_ops_def el_defs el_valid_def map_of_filter_neq touches_def image_Collect_mem)
next
  case (8 g i j w)
  then show ?case
    by (auto simp: edge_list_ops_def el_defs el_valid_def dom_map_of_conv_image_fst)
next
  case (5 g s t w)
  then show ?case
    by (force simp: edge_list_ops_def el_defs el_valid_def dom_map_of_conv_image_fst)
qed (simp_all add: edge_list_ops_def el_defs el_valid_def finite_dom_map_of mset_filter)

end
