(* ===== verification/Projection.thy ===== *)
theory Projection
  imports Stable_Graph
begin

text \<open>
  The structure the four graphs of the quad share: a stable graph of belief ids and a map from
  ids to node indices. \<open>proj_wf\<close> says that the two agree on a given set of beliefs, and
  \<open>proj_edges\<close> is the abstract view, the labelled edges between beliefs. Every operation of the
  graphs is characterised on that view, for any graph library that meets \<open>stable_digraph\<close>.
\<close>

section \<open>State and operations\<close>

record 'g projection =
  graph :: 'g
  indices :: "belief_id \<rightharpoonup> nat"

definition proj_new :: "('g, 'w) digraph_ops \<Rightarrow> 'g projection" where
  "proj_new G = \<lparr>graph = gr_new G, indices = Map.empty\<rparr>"

definition proj_add_node :: "('g, 'w) digraph_ops \<Rightarrow> 'g projection \<Rightarrow> belief_id \<Rightarrow> nat \<times> 'g projection" where
  "proj_add_node G p b =
     (case gr_add_node G (graph p) b of
        (idx, g) \<Rightarrow> (idx, p\<lparr>graph := g, indices := (indices p)(b \<mapsto> idx)\<rparr>))"

definition proj_remove_node :: "('g, 'w) digraph_ops \<Rightarrow> 'g projection \<Rightarrow> belief_id \<Rightarrow> 'g projection" where
  "proj_remove_node G p b =
     (case indices p b of
        None \<Rightarrow> p
      | Some idx \<Rightarrow> p\<lparr>indices := (indices p)(b := None), graph := gr_remove_node G (graph p) idx\<rparr>)"

definition proj_add_edge ::
  "('g, 'w) digraph_ops \<Rightarrow> 'g projection \<Rightarrow> belief_id \<Rightarrow> belief_id \<Rightarrow> 'w \<Rightarrow> 'g projection" where
  "proj_add_edge G p from to e =
     (case indices p from of
        None \<Rightarrow> p
      | Some fi \<Rightarrow> (case indices p to of
          None \<Rightarrow> p
        | Some ti \<Rightarrow> p\<lparr>graph := gr_add_edge G (graph p) fi ti e\<rparr>))"

text \<open>
  \<open>self.graph[idx]\<close>, which panics on a vacant index; \<open>edge_ends\<close> and \<open>dfs\<close> of the library
  give that it is never applied to one, so the value chosen there is not used.
\<close>

definition node_at :: "('g, 'w) digraph_ops \<Rightarrow> 'g \<Rightarrow> nat \<Rightarrow> belief_id" where
  "node_at G g i = (case gr_weight G g i of Some b \<Rightarrow> b | None \<Rightarrow> NullKey)"

definition proj_edges :: "('g, 'w) digraph_ops \<Rightarrow> 'g projection \<Rightarrow> (belief_id \<times> belief_id \<times> 'w) list" where
  "proj_edges G p = map (\<lambda>(s, t, w). (node_at G (graph p) s, node_at G (graph p) t, w)) (gr_edges G (graph p))"

definition proj_out :: "('g, 'w) digraph_ops \<Rightarrow> 'g projection \<Rightarrow> belief_id \<Rightarrow> (belief_id \<times> 'w) list" where
  "proj_out G p b =
     (case indices p b of
        None \<Rightarrow> []
      | Some idx \<Rightarrow> map (\<lambda>(t, w). (node_at G (graph p) t, w)) (gr_out G (graph p) idx))"

definition proj_in :: "('g, 'w) digraph_ops \<Rightarrow> 'g projection \<Rightarrow> belief_id \<Rightarrow> (belief_id \<times> 'w) list" where
  "proj_in G p b =
     (case indices p b of
        None \<Rightarrow> []
      | Some idx \<Rightarrow> map (\<lambda>(s, w). (node_at G (graph p) s, w)) (gr_in G (graph p) idx))"

definition proj_wf :: "('g, 'w) digraph_ops \<Rightarrow> 'g projection \<Rightarrow> belief_id set \<Rightarrow> bool" where
  "proj_wf G p S \<longleftrightarrow> gr_valid G (graph p) \<and> dom (indices p) = S \<and>
     (\<forall>b i. indices p b = Some i \<longleftrightarrow> gr_weight G (graph p) i = Some b)"

definition proj_rel :: "('g, 'w) digraph_ops \<Rightarrow> 'g projection \<Rightarrow> (belief_id \<times> belief_id) set" where
  "proj_rel G p = {(a, b). \<exists>w. (a, b, w) \<in> set (proj_edges G p)}"

definition incident :: "belief_id \<Rightarrow> belief_id \<times> belief_id \<times> 'w \<Rightarrow> bool" where
  "incident b e \<longleftrightarrow> fst e = b \<or> fst (snd e) = b"

section \<open>Laws\<close>

lemma proj_wf_dom: "proj_wf G p S \<Longrightarrow> dom (indices p) = S"
  by (simp add: proj_wf_def)

lemma proj_wf_valid: "proj_wf G p S \<Longrightarrow> gr_valid G (graph p)"
  by (simp add: proj_wf_def)

lemma proj_wf_index: "proj_wf G p S \<Longrightarrow> indices p b = Some i \<longleftrightarrow> gr_weight G (graph p) i = Some b"
  by (simp add: proj_wf_def)

lemma proj_wf_member: "proj_wf G p S \<Longrightarrow> b \<in> S \<longleftrightarrow> (\<exists>i. indices p b = Some i)"
  by (auto simp: proj_wf_def)

lemma node_at_index: "proj_wf G p S \<Longrightarrow> indices p b = Some i \<Longrightarrow> node_at G (graph p) i = b"
  by (simp add: node_at_def proj_wf_index)

lemma node_at_iff:
  "proj_wf G p S \<Longrightarrow> i \<in> dom (gr_weight G (graph p)) \<Longrightarrow> node_at G (graph p) i = b \<longleftrightarrow> indices p b = Some i"
  by (auto simp: node_at_def proj_wf_index)

lemma node_at_mem: "proj_wf G p S \<Longrightarrow> i \<in> dom (gr_weight G (graph p)) \<Longrightarrow> node_at G (graph p) i \<in> S"
  using node_at_iff [of G p S i] proj_wf_member by metis

lemma proj_out_absent [simp]: "indices p b = None \<Longrightarrow> proj_out G p b = []"
  by (simp add: proj_out_def)

lemma proj_in_absent [simp]: "indices p b = None \<Longrightarrow> proj_in G p b = []"
  by (simp add: proj_in_def)

context stable_digraph
begin

lemma proj_new_wf: "proj_wf G (proj_new G) {} \<and> proj_edges G (proj_new G) = []"
  by (simp add: proj_wf_def proj_new_def proj_edges_def new_valid new_weight new_edges)

lemma map_edges_cong:
  assumes "\<And>i. i \<in> dom (gr_weight G g) \<Longrightarrow> f i = h i" "gr_valid G g" "M \<subseteq># mset (gr_edges G g)"
  shows "image_mset (\<lambda>(s, t, w). (f s, f t, w)) M = image_mset (\<lambda>(s, t, w). (h s, h t, w)) M"
proof (rule image_mset_cong)
  fix e assume e: "e \<in># M"
  obtain s t w where stw: "e = (s, t, w)" by (cases e)
  then have "(s, t, w) \<in> set (gr_edges G g)" using e assms(3) by (metis mset_subset_eqD set_mset_mset)
  then have "f s = h s \<and> f t = h t" using edge_ends [OF assms(2)] assms(1) by blast
  then show "(case e of (s, t, w) \<Rightarrow> (f s, f t, w)) = (case e of (s, t, w) \<Rightarrow> (h s, h t, w))"
    by (simp add: stw)
qed

lemma proj_add_node_wf:
  assumes "proj_wf G p S" "b \<notin> S"
  shows "proj_wf G (snd (proj_add_node G p b)) (insert b S)"
    and "mset (proj_edges G (snd (proj_add_node G p b))) = mset (proj_edges G p)"
proof -
  obtain i g where g: "gr_add_node G (graph p) b = (i, g)" by (cases "gr_add_node G (graph p) b")
  have v: "gr_valid G (graph p)" using assms(1) by (rule proj_wf_valid)
  note a = add_node [OF v g]
  have wi: "gr_weight G (graph p) i = None" and w: "gr_weight G g = (gr_weight G (graph p))(i \<mapsto> b)"
    using a by blast+
  have ib: "indices p b = None" using assms by (auto simp: proj_wf_def)
  then have nb: "gr_weight G (graph p) j \<noteq> Some b" for j
    using proj_wf_index [OF assms(1)] by (metis option.distinct(1))
  have ni: "indices p c \<noteq> Some i" for c
    using proj_wf_index [OF assms(1)] wi by (metis option.distinct(1))
  show "proj_wf G (snd (proj_add_node G p b)) (insert b S)"
    using assms a g nb ni by (auto simp: proj_add_node_def proj_wf_def w)
  have "image_mset (\<lambda>(s, t, w). (node_at G g s, node_at G g t, w)) (mset (gr_edges G (graph p))) =
      image_mset (\<lambda>(s, t, w). (node_at G (graph p) s, node_at G (graph p) t, w)) (mset (gr_edges G (graph p)))"
    using wi by (intro map_edges_cong [OF _ v]) (auto simp: node_at_def w)
  then show "mset (proj_edges G (snd (proj_add_node G p b))) = mset (proj_edges G p)"
    using a g by (simp add: proj_add_node_def proj_edges_def)
qed

lemma proj_remove_node_wf:
  assumes "proj_wf G p S"
  shows "proj_wf G (proj_remove_node G p b) (S - {b})"
    and "mset (proj_edges G (proj_remove_node G p b)) =
      filter_mset (\<lambda>e. \<not> incident b e) (mset (proj_edges G p))"
proof -
  have v: "gr_valid G (graph p)" using assms by (rule proj_wf_valid)
  have "proj_wf G (proj_remove_node G p b) (S - {b}) \<and>
    mset (proj_edges G (proj_remove_node G p b)) = filter_mset (\<lambda>e. \<not> incident b e) (mset (proj_edges G p))"
  proof (cases "indices p b")
    case None
    then have "b \<notin> S" using assms by (auto simp: proj_wf_def)
    have "\<not> incident b e" if "e \<in> set (proj_edges G p)" for e
      using that edge_ends [OF v] node_at_mem [OF assms] \<open>b \<notin> S\<close>
      by (auto simp: proj_edges_def incident_def)
    then have "filter_mset (\<lambda>e. \<not> incident b e) (mset (proj_edges G p)) = mset (proj_edges G p)"
      by (simp add: filter_mset_eq_conv)
    with None assms \<open>b \<notin> S\<close> show ?thesis by (simp add: proj_remove_node_def)
  next
    case (Some i)
    then have bi: "gr_weight G (graph p) i = Some b" using assms by (simp add: proj_wf_index)
    then have i: "i \<in> dom (gr_weight G (graph p))" by auto
    note r = remove_node [OF v i]
    have inj: "indices p c = Some i \<Longrightarrow> c = b" for c
      using bi proj_wf_index [OF assms, of c i] by simp
    let ?g = "gr_remove_node G (graph p) i"
    have rm: "proj_remove_node G p b = p\<lparr>indices := (indices p)(b := None), graph := ?g\<rparr>"
      using Some by (simp add: proj_remove_node_def)
    have ix: "((indices p)(b := None)) c = Some j \<longleftrightarrow> ((gr_weight G (graph p))(i := None)) j = Some c" for c j
      unfolding fun_upd_apply using proj_wf_index [OF assms] inj Some
      by (metis option.distinct(1) option.inject)
    have one: "proj_wf G (proj_remove_node G p b) (S - {b})"
      unfolding rm proj_wf_def using r ix proj_wf_dom [OF assms] by simp
    have at: "node_at G (graph p) s = b \<longleftrightarrow> s = i" if "s \<in> dom (gr_weight G (graph p))" for s
      using node_at_iff [OF assms that] Some by auto
    have ends: "touches i (s, t, w) \<longleftrightarrow> incident b (node_at G (graph p) s, node_at G (graph p) t, w)"
      if "(s, t, w) \<in> set (gr_edges G (graph p))" for s t w
      using edge_ends [OF v that] at by (simp add: touches_def incident_def)
    have "image_mset (\<lambda>(s, t, w). (node_at G ?g s, node_at G ?g t, w))
        (filter_mset (\<lambda>e. \<not> touches i e) (mset (gr_edges G (graph p)))) =
      image_mset (\<lambda>(s, t, w). (node_at G (graph p) s, node_at G (graph p) t, w))
        (filter_mset (\<lambda>e. \<not> touches i e) (mset (gr_edges G (graph p))))"
      using r by (intro image_mset_cong) (auto simp: node_at_def touches_def)
    also have "\<dots> = filter_mset (\<lambda>e. \<not> incident b e) (mset (proj_edges G p))"
      unfolding proj_edges_def mset_map filter_mset_image_mset
      by (rule arg_cong [where f = "image_mset _"], rule filter_mset_cong) (auto simp: ends)
    finally show ?thesis using one r unfolding rm by (simp add: proj_edges_def)
  qed
  then show "proj_wf G (proj_remove_node G p b) (S - {b})"
    and "mset (proj_edges G (proj_remove_node G p b)) =
      filter_mset (\<lambda>e. \<not> incident b e) (mset (proj_edges G p))" by blast+
qed

lemma proj_add_edge_wf:
  assumes "proj_wf G p S"
  shows "proj_wf G (proj_add_edge G p a b w) S"
    and "mset (proj_edges G (proj_add_edge G p a b w)) =
      (if a \<in> S \<and> b \<in> S then add_mset (a, b, w) (mset (proj_edges G p)) else mset (proj_edges G p))"
    and "indices (proj_add_edge G p a b w) = indices p"
proof -
  have v: "gr_valid G (graph p)" using assms by (rule proj_wf_valid)
  have "proj_wf G (proj_add_edge G p a b w) S \<and>
     mset (proj_edges G (proj_add_edge G p a b w)) =
      (if a \<in> S \<and> b \<in> S then add_mset (a, b, w) (mset (proj_edges G p)) else mset (proj_edges G p)) \<and>
     indices (proj_add_edge G p a b w) = indices p"
  proof (cases "a \<in> S \<and> b \<in> S")
    case False
    then have "indices p a = None \<or> indices p b = None" using assms by (auto simp: proj_wf_def)
    then have "proj_add_edge G p a b w = p" by (auto simp: proj_add_edge_def split: option.splits)
    with False assms show ?thesis by auto
  next
    case True
    then obtain i j where ij: "indices p a = Some i" "indices p b = Some j"
      using assms by (auto simp: proj_wf_def)
    then have d: "i \<in> dom (gr_weight G (graph p))" "j \<in> dom (gr_weight G (graph p))"
      using assms by (auto simp: proj_wf_index)
    note e = add_edge [OF v d, of w]
    have n: "node_at G (gr_add_edge G (graph p) i j w) = node_at G (graph p)"
      using e by (simp add: node_at_def fun_eq_iff)
    have "node_at G (graph p) i = a" "node_at G (graph p) j = b"
      using ij node_at_index [OF assms] by auto
    moreover have "proj_add_edge G p a b w = p\<lparr>graph := gr_add_edge G (graph p) i j w\<rparr>"
      using ij by (simp add: proj_add_edge_def)
    ultimately show ?thesis using True assms e n by (simp add: proj_wf_def proj_edges_def)
  qed
  then show "proj_wf G (proj_add_edge G p a b w) S"
    and "mset (proj_edges G (proj_add_edge G p a b w)) =
      (if a \<in> S \<and> b \<in> S then add_mset (a, b, w) (mset (proj_edges G p)) else mset (proj_edges G p))"
    and "indices (proj_add_edge G p a b w) = indices p" by blast+
qed

lemma proj_edges_ends:
  "proj_wf G p S \<Longrightarrow> (a, b, w) \<in> set (proj_edges G p) \<Longrightarrow> a \<in> S \<and> b \<in> S"
  using edge_ends [OF proj_wf_valid, of p S] node_at_mem [of G p S]
  by (auto simp: proj_edges_def)

lemma proj_out_set:
  assumes "proj_wf G p S"
  shows "set (proj_out G p a) = {(b, w). (a, b, w) \<in> set (proj_edges G p)}"
proof (cases "indices p a")
  case None
  then have "a \<notin> S" using assms by (auto simp: proj_wf_def)
  with None show ?thesis using proj_edges_ends [OF assms] by (auto simp: proj_out_def)
next
  case (Some i)
  have v: "gr_valid G (graph p)" using assms by (rule proj_wf_valid)
  have "(a, b, w) \<in> set (proj_edges G p) \<longleftrightarrow>
      (\<exists>t. (i, t, w) \<in> set (gr_edges G (graph p)) \<and> node_at G (graph p) t = b)" for b w
  proof
    assume "(a, b, w) \<in> set (proj_edges G p)"
    then obtain s t where st: "(s, t, w) \<in> set (gr_edges G (graph p))"
      "node_at G (graph p) s = a" "node_at G (graph p) t = b" by (auto simp: proj_edges_def)
    then have "indices p a = Some s" using edge_ends [OF v st(1)] node_at_iff [OF assms] by blast
    then show "\<exists>t. (i, t, w) \<in> set (gr_edges G (graph p)) \<and> node_at G (graph p) t = b"
      using st Some by auto
  next
    assume "\<exists>t. (i, t, w) \<in> set (gr_edges G (graph p)) \<and> node_at G (graph p) t = b"
    then show "(a, b, w) \<in> set (proj_edges G p)"
      using node_at_index [OF assms Some] by (force simp: proj_edges_def)
  qed
  with Some show ?thesis using set_gr_out [OF v, of i]
    by (auto simp: proj_out_def image_iff)
qed

lemma proj_in_mset:
  assumes "proj_wf G p S"
  shows "mset (proj_in G p b) =
    image_mset (\<lambda>(a, _, w). (a, w)) (filter_mset (\<lambda>e. fst (snd e) = b) (mset (proj_edges G p)))"
proof (cases "indices p b")
  case None
  then have "b \<notin> S" using assms by (auto simp: proj_wf_def)
  then have "filter_mset (\<lambda>e. fst (snd e) = b) (mset (proj_edges G p)) = {#}"
    using proj_edges_ends [OF assms] by (auto simp: filter_mset_eq_conv)
  with None show ?thesis by simp
next
  case (Some i)
  have v: "gr_valid G (graph p)" using assms by (rule proj_wf_valid)
  have "filter_mset (\<lambda>e. fst (snd e) = i) (mset (gr_edges G (graph p))) =
      filter_mset (\<lambda>e. node_at G (graph p) (fst (snd e)) = b) (mset (gr_edges G (graph p)))"
    using edge_ends [OF v] node_at_iff [OF assms, of _ b] Some
    by (intro filter_mset_cong) (auto, blast)
  moreover have "(\<lambda>e. fst (snd e) = b) \<circ> (\<lambda>(s, t, w). (node_at G (graph p) s, node_at G (graph p) t, w)) =
      (\<lambda>e. node_at G (graph p) (fst (snd e)) = b)" by auto
  ultimately show ?thesis using Some
    by (simp add: proj_in_def in_edges [OF v] proj_edges_def filter_mset_image_mset
        multiset.map_comp comp_def case_prod_beta)
qed

lemma proj_in_set:
  "proj_wf G p S \<Longrightarrow> set (proj_in G p b) = {(a, w). (a, b, w) \<in> set (proj_edges G p)}"
  using arg_cong [OF proj_in_mset, of p S set_mset b] by force

lemma reach_image:
  assumes "proj_wf G p S" "indices p a = Some i"
  shows "node_at G (graph p) ` ((gr_rel G (graph p))\<^sup>* `` {i}) = (proj_rel G p)\<^sup>* `` {a}" (is ?fwd)
    and "node_at G (graph p) ` (((gr_rel G (graph p))\<inverse>)\<^sup>* `` {i}) = ((proj_rel G p)\<inverse>)\<^sup>* `` {a}" (is ?bwd)
proof -
  let ?n = "node_at G (graph p)"
  let ?D = "dom (gr_weight G (graph p))"
  have v: "gr_valid G (graph p)" using assms(1) by (rule proj_wf_valid)
  have na: "?n i = a" using node_at_index [OF assms] .
  have iD: "i \<in> ?D" using assms by (auto simp: proj_wf_index)
  have rel: "(x, y) \<in> proj_rel G p \<longleftrightarrow> (\<exists>s t. (s, t) \<in> gr_rel G (graph p) \<and> ?n s = x \<and> ?n t = y)" for x y
    by (force simp: proj_rel_def proj_edges_def gr_rel_def image_iff)
  have inj: "s \<in> ?D \<Longrightarrow> t \<in> ?D \<Longrightarrow> ?n s = ?n t \<Longrightarrow> s = t" for s t
    using node_at_iff [OF assms(1)] by (metis option.inject)
  have key: "?n ` (R\<^sup>* `` {i}) = Q\<^sup>* `` {a}"
    if R: "\<And>s t. (s, t) \<in> R \<Longrightarrow> s \<in> ?D \<and> t \<in> ?D"
      and Q: "\<And>x y. (x, y) \<in> Q \<longleftrightarrow> (\<exists>s t. (s, t) \<in> R \<and> ?n s = x \<and> ?n t = y)" for R Q
  proof (intro equalityI subsetI)
    fix x assume "x \<in> ?n ` (R\<^sup>* `` {i})"
    then obtain j where j: "(i, j) \<in> R\<^sup>*" "x = ?n j" by auto
    from j(1) have "(a, ?n j) \<in> Q\<^sup>*"
    proof (induction rule: rtrancl_induct)
      case base
      show ?case by (simp add: na)
    next
      case (step y z)
      then have "(?n y, ?n z) \<in> Q" using Q by blast
      with step show ?case by (meson rtrancl.rtrancl_into_rtrancl)
    qed
    with j show "x \<in> Q\<^sup>* `` {a}" by simp
  next
    fix x assume "x \<in> Q\<^sup>* `` {a}"
    then have "(a, x) \<in> Q\<^sup>*" by simp
    then have "\<exists>j \<in> ?D. (i, j) \<in> R\<^sup>* \<and> ?n j = x"
    proof (induction rule: rtrancl_induct)
      case base
      show ?case using na iD by blast
    next
      case (step y z)
      then obtain j s t where "j \<in> ?D" "(i, j) \<in> R\<^sup>*" "?n j = y" "(s, t) \<in> R" "?n s = y" "?n t = z"
        using Q by blast
      note f = this
      have "s = j" using inj R f by blast
      then have "(i, t) \<in> R\<^sup>*" using f(2,4) by (simp add: rtrancl.rtrancl_into_rtrancl)
      then show ?case using R f(4,6) by blast
    qed
    then show "x \<in> ?n ` (R\<^sup>* `` {i})" by blast
  qed
  show ?fwd using gr_rel_ends [OF v] rel by (intro key) blast+
  show ?bwd using gr_rel_ends [OF v] rel by (intro key) blast+
qed

lemma dfs_tail:
  assumes "proj_wf G p S" "indices p a = Some i"
  shows "node_at G (graph p) ` set (tl (gr_dfs G (graph p) i)) = (proj_rel G p)\<^sup>* `` {a} - {a}"
    and "node_at G (graph p) ` set (tl (gr_dfs_rev G (graph p) i)) = ((proj_rel G p)\<inverse>)\<^sup>* `` {a} - {a}"
proof -
  let ?n = "node_at G (graph p)"
  have v: "gr_valid G (graph p)" using assms(1) by (rule proj_wf_valid)
  have iD: "i \<in> dom (gr_weight G (graph p))" using assms by (auto simp: proj_wf_index)
  have na: "?n i = a" using node_at_index [OF assms] .
  have other: "?n j \<noteq> a" if "j \<in> dom (gr_weight G (graph p))" "j \<noteq> i" for j
    using that node_at_iff [OF assms(1), of j a] assms(2) by auto
  have key: "?n ` set (tl xs) = ?n ` A - {a}"
    if "\<exists>r. xs = i # r" "distinct xs" "set xs = A" "A \<subseteq> dom (gr_weight G (graph p))" for xs A
  proof -
    have "set (tl xs) = A - {i}" using that(1-3) by auto
    then show ?thesis using that(4) other na by auto
  qed
  show "?n ` set (tl (gr_dfs G (graph p) i)) = (proj_rel G p)\<^sup>* `` {a} - {a}"
    using key [of "gr_dfs G (graph p) i"] dfs [OF v iD] reach_dom [OF v iD] reach_image(1) [OF assms]
    by (metis (no_types, lifting) Image_singleton_iff subsetI)
  show "?n ` set (tl (gr_dfs_rev G (graph p) i)) = ((proj_rel G p)\<inverse>)\<^sup>* `` {a} - {a}"
    using key [of "gr_dfs_rev G (graph p) i"] dfs_rev [OF v iD] reach_rev_dom [OF v iD] reach_image(2) [OF assms]
    by (metis (no_types, lifting) Image_singleton_iff subsetI)
qed

end

end
