(* ===== verification/Binary_Float.thy ===== *)
theory Binary_Float
  imports Complex_Main Prelude
begin

text \<open>
  IEEE-754 binary floating point as Rust's \<open>f32\<close> and \<open>f64\<close> compute it: every operation is the
  exact rational result rounded to the nearest representable number, ties to even, with
  gradual underflow and overflow to infinity. Values are NaN, the two infinities and the
  finite numbers; the two zeros are identified, since no code modelled here tells them apart
  (they compare equal, and every division is guarded against a zero divisor or has a positive
  one). All definitions compute.
\<close>

section \<open>Formats and values\<close>

datatype float_format = F32 | F64

fun fprec :: "float_format \<Rightarrow> int" where
  "fprec F32 = 24"
| "fprec F64 = 53"

text \<open>Exponent of the least subnormal.\<close>

fun fmin_exp :: "float_format \<Rightarrow> int" where
  "fmin_exp F32 = - 149"
| "fmin_exp F64 = - 1074"

text \<open>The first power of two that overflows.\<close>

fun fmax_exp :: "float_format \<Rightarrow> nat" where
  "fmax_exp F32 = 128"
| "fmax_exp F64 = 1024"

datatype fl = NaN | Inf bool | Fin rat

type_synonym f32 = fl
type_synonym f64 = fl

section \<open>Rounding\<close>

definition pow2 :: "int \<Rightarrow> rat" where
  "pow2 e = (if 0 \<le> e then 2 ^ nat e else 1 / 2 ^ nat (- e))"

text \<open>Powers of two by repeated squaring, for evaluation.\<close>

function zpow2 :: "int \<Rightarrow> int" where
  "zpow2 n =
     (if n \<le> 0 then 1
      else if n mod 2 = 0 then (let h = zpow2 (n div 2) in h * h) else 2 * zpow2 (n - 1))"
  by pat_completeness auto
termination
  by (relation "measure nat") auto

declare zpow2.simps [simp del]

lemma zpow2_eq: "0 \<le> n \<Longrightarrow> zpow2 n = 2 ^ nat n"
proof (induction n rule: zpow2.induct)
  case (1 n)
  show ?case
  proof (cases "n = 0")
    case True
    then show ?thesis by (simp add: zpow2.simps)
  next
    case False
    show ?thesis
    proof (cases "n mod 2 = 0")
      case True
      then have "n div 2 + n div 2 = n" by presburger
      then have "nat n = nat (n div 2) + nat (n div 2)"
        using nat_add_distrib [of "n div 2" "n div 2"] 1(3) by simp
      then show ?thesis using 1(1) 1(3) False True by (subst zpow2.simps) (simp add: Let_def power_add)
    next
      case odd: False
      then have "nat n = Suc (nat (n - 1))" using 1(3) False by linarith
      then show ?thesis using 1(2) 1(3) False odd by (subst zpow2.simps) simp
    qed
  qed
qed

lemma pow2_code [code]: "pow2 e = (if 0 \<le> e then of_int (zpow2 e) else 1 / of_int (zpow2 (- e)))"
  by (simp add: pow2_def zpow2_eq)

function zlog2 :: "int \<Rightarrow> int" where
  "zlog2 n = (if n \<le> 1 then 0 else 1 + zlog2 (n div 2))"
  by pat_completeness auto
termination
  by (relation "measure nat") auto

declare zlog2.simps [simp del]

text \<open>The exponent of a positive rational: \<open>pow2 (ilog2 x) \<le> x < pow2 (ilog2 x + 1)\<close>.\<close>

definition ilog2 :: "rat \<Rightarrow> int" where
  "ilog2 x =
     (if 1 \<le> x then zlog2 \<lfloor>x\<rfloor>
      else (let m = \<lceil>1 / x\<rceil> in if m \<le> 1 then 0 else - (1 + zlog2 (m - 1))))"

text \<open>Round to the nearest integer, ties to even.\<close>

definition rne :: "rat \<Rightarrow> int" where
  "rne x = (let f = \<lfloor>x\<rfloor>; d = x - of_int f
            in if d < 1 / 2 then f else if 1 / 2 < d then f + 1 else if even f then f else f + 1)"

definition fexp :: "float_format \<Rightarrow> rat \<Rightarrow> int" where
  "fexp t x = max (ilog2 x - (fprec t - 1)) (fmin_exp t)"

definition round_pos :: "float_format \<Rightarrow> rat \<Rightarrow> rat" where
  "round_pos t x = (let u = pow2 (fexp t x) in of_int (rne (x / u)) * u)"

definition round_rat :: "float_format \<Rightarrow> rat \<Rightarrow> rat" where
  "round_rat t x = (if x = 0 then 0 else if 0 < x then round_pos t x else - round_pos t (- x))"

definition fround :: "float_format \<Rightarrow> rat \<Rightarrow> fl" where
  "fround t x = (let r = round_rat t x in if 2 ^ fmax_exp t \<le> \<bar>r\<bar> then Inf (r < 0) else Fin r)"

text \<open>The overflow threshold as a numeral, for evaluation.\<close>

fun f_limit :: "float_format \<Rightarrow> rat" where
  "f_limit F32 = 340282366920938463463374607431768211456"
| "f_limit F64 = 179769313486231590772930519078902473361797697894230657273430081157732675805500963132708477322407536021120113879871393357658789768814416622492847430639474124377767893424865485276302219601246094119453082952085005768838150682342462881473913110540827237163350510684586298239947245938479716304835356329624224137216"

lemma f_limit_eq: "f_limit t = 2 ^ fmax_exp t"
  by (cases t) simp_all

lemma fround_code [code]:
  "fround t x = (let r = round_rat t x in if f_limit t \<le> \<bar>r\<bar> then Inf (r < 0) else Fin r)"
  by (simp add: fround_def f_limit_eq)

section \<open>Arithmetic\<close>

fun fneg :: "fl \<Rightarrow> fl" where
  "fneg NaN = NaN"
| "fneg (Inf s) = Inf (\<not> s)"
| "fneg (Fin x) = Fin (- x)"

fun fabs :: "fl \<Rightarrow> fl" where
  "fabs NaN = NaN"
| "fabs (Inf s) = Inf False"
| "fabs (Fin x) = Fin \<bar>x\<bar>"

fun fadd :: "float_format \<Rightarrow> fl \<Rightarrow> fl \<Rightarrow> fl" where
  "fadd t NaN y = NaN"
| "fadd t x NaN = NaN"
| "fadd t (Inf s) (Inf s') = (if s = s' then Inf s else NaN)"
| "fadd t (Inf s) (Fin y) = Inf s"
| "fadd t (Fin x) (Inf s) = Inf s"
| "fadd t (Fin x) (Fin y) = fround t (x + y)"

definition fsub :: "float_format \<Rightarrow> fl \<Rightarrow> fl \<Rightarrow> fl" where
  "fsub t x y = fadd t x (fneg y)"

fun fmul :: "float_format \<Rightarrow> fl \<Rightarrow> fl \<Rightarrow> fl" where
  "fmul t NaN y = NaN"
| "fmul t x NaN = NaN"
| "fmul t (Inf s) (Inf s') = Inf (s \<noteq> s')"
| "fmul t (Inf s) (Fin y) = (if y = 0 then NaN else Inf (s \<noteq> (y < 0)))"
| "fmul t (Fin x) (Inf s) = (if x = 0 then NaN else Inf (s \<noteq> (x < 0)))"
| "fmul t (Fin x) (Fin y) = fround t (x * y)"

fun fdiv :: "float_format \<Rightarrow> fl \<Rightarrow> fl \<Rightarrow> fl" where
  "fdiv t NaN y = NaN"
| "fdiv t x NaN = NaN"
| "fdiv t (Inf s) (Inf s') = NaN"
| "fdiv t (Inf s) (Fin y) = Inf (s \<noteq> (y < 0))"
| "fdiv t (Fin x) (Inf s) = Fin 0"
| "fdiv t (Fin x) (Fin y) =
     (if y = 0 then (if x = 0 then NaN else Inf (x < 0)) else fround t (x / y))"

text \<open>
  Square root is correctly rounded. The integer square root of \<open>x\<close> scaled by \<open>4 ^ k\<close> keeps
  more bits than either format; an inexact root is moved half a unit up, between the two
  neighbours, which rounds as the real root does.
\<close>

function isqrt :: "int \<Rightarrow> int" where
  "isqrt n = (if n \<le> 0 then 0
              else (let r = 2 * isqrt (n div 4) in if (r + 1) * (r + 1) \<le> n then r + 1 else r))"
  by pat_completeness auto
termination
  by (relation "measure nat") auto

declare isqrt.simps [simp del]

fun sqrt_scale :: "float_format \<Rightarrow> nat" where
  "sqrt_scale F32 = 110"
| "sqrt_scale F64 = 600"

definition sqrt_rat :: "float_format \<Rightarrow> rat \<Rightarrow> rat" where
  "sqrt_rat t x =
     (let k = sqrt_scale t; y = x * 4 ^ k; s = isqrt \<lfloor>y\<rfloor>
      in if of_int s * of_int s = y then of_int s / 2 ^ k else (of_int s + 1 / 2) / 2 ^ k)"

fun fsqrt :: "float_format \<Rightarrow> fl \<Rightarrow> fl" where
  "fsqrt t NaN = NaN"
| "fsqrt t (Inf s) = (if s then NaN else Inf False)"
| "fsqrt t (Fin x) = (if x < 0 then NaN else fround t (sqrt_rat t x))"

section \<open>Comparison\<close>

text \<open>The comparisons of Rust's \<open>PartialOrd\<close>: false as soon as NaN is involved.\<close>

fun fle :: "fl \<Rightarrow> fl \<Rightarrow> bool" where
  "fle NaN y = False"
| "fle x NaN = False"
| "fle (Inf s) (Inf s') = (s \<or> \<not> s')"
| "fle (Inf s) (Fin y) = s"
| "fle (Fin x) (Inf s) = (\<not> s)"
| "fle (Fin x) (Fin y) = (x \<le> y)"

fun flt :: "fl \<Rightarrow> fl \<Rightarrow> bool" where
  "flt NaN y = False"
| "flt x NaN = False"
| "flt (Inf s) (Inf s') = (s \<and> \<not> s')"
| "flt (Inf s) (Fin y) = s"
| "flt (Fin x) (Inf s) = (\<not> s)"
| "flt (Fin x) (Fin y) = (x < y)"

definition feq :: "fl \<Rightarrow> fl \<Rightarrow> bool" where
  "feq x y \<longleftrightarrow> x \<noteq> NaN \<and> x = y"

text \<open>\<open>f32::max\<close> and \<open>f32::min\<close> return the other operand when one is NaN.\<close>

definition fmax :: "fl \<Rightarrow> fl \<Rightarrow> fl" where
  "fmax x y = (if x = NaN then y else if y = NaN then x else if flt x y then y else x)"

definition fmin :: "fl \<Rightarrow> fl \<Rightarrow> fl" where
  "fmin x y = (if x = NaN then y else if y = NaN then x else if flt y x then y else x)"

text \<open>\<open>clamp\<close> lets NaN through.\<close>

definition fclamp :: "fl \<Rightarrow> fl \<Rightarrow> fl \<Rightarrow> fl" where
  "fclamp x lo hi = (if flt x lo then lo else if flt hi x then hi else x)"

section \<open>Conversions\<close>

definition f_of_nat :: "float_format \<Rightarrow> nat \<Rightarrow> fl" where
  "f_of_nat t n = fround t (of_nat n)"

text \<open>A decimal literal of the source.\<close>

definition f_lit :: "float_format \<Rightarrow> rat \<Rightarrow> fl" where
  "f_lit t x = fround t x"

text \<open>\<open>as f64\<close> of an \<open>f32\<close> is exact, \<open>as f32\<close> of an \<open>f64\<close> rounds.\<close>

fun f_cast :: "float_format \<Rightarrow> fl \<Rightarrow> fl" where
  "f_cast t NaN = NaN"
| "f_cast t (Inf s) = Inf s"
| "f_cast t (Fin x) = fround t x"

text \<open>\<open>as u32\<close>: truncation, saturating, with NaN to zero.\<close>

fun f_to_nat_sat :: "nat \<Rightarrow> fl \<Rightarrow> nat" where
  "f_to_nat_sat m NaN = 0"
| "f_to_nat_sat m (Inf s) = (if s then 0 else m)"
| "f_to_nat_sat m (Fin x) = min m (nat \<lfloor>x\<rfloor>)"

definition f_sum :: "float_format \<Rightarrow> fl list \<Rightarrow> fl" where
  "f_sum t xs = foldl (fadd t) (Fin 0) xs"

definition f_product :: "float_format \<Rightarrow> fl list \<Rightarrow> fl" where
  "f_product t xs = foldl (fmul t) (Fin 1) xs"


section \<open>Laws of rounding\<close>


lemma pow2_powi: "pow2 e = 2 powi e"
  by (auto simp: pow2_def power_int_def field_simps)

lemma pow2_pos [simp]: "0 < pow2 e"
  by (simp add: pow2_powi)

lemma pow2_nz [simp]: "pow2 e \<noteq> 0"
  by (simp add: pow2_powi)

lemma pow2_0 [simp]: "pow2 0 = 1"
  by (simp add: pow2_def)

lemma pow2_add: "pow2 (a + b) = pow2 a * pow2 b"
  by (simp add: pow2_powi power_int_add)

lemma pow2_diff: "pow2 (a - b) = pow2 a / pow2 b"
  by (simp add: pow2_powi power_int_diff)

lemma pow2_of_nat: "0 \<le> e \<Longrightarrow> pow2 e = of_int (2 ^ nat e)"
  by (simp add: pow2_def)

lemma pow2_nonneg [simp]: "0 \<le> pow2 e"
  by (simp add: less_imp_le)

lemma pow2_less: "a < b \<Longrightarrow> pow2 a < pow2 b"
  unfolding pow2_powi by (rule power_int_strict_increasing) auto

lemma pow2_less_iff [simp]: "pow2 a < pow2 b \<longleftrightarrow> a < b"
  using pow2_less [of a b] pow2_less [of b a] by (cases a b rule: linorder_cases) auto

lemma pow2_le_iff [simp]: "pow2 a \<le> pow2 b \<longleftrightarrow> a \<le> b"
  using pow2_less_iff [of b a] by (simp only: not_less [symmetric])

lemma zlog2_bounds: "1 \<le> n \<Longrightarrow> 0 \<le> zlog2 n \<and> 2 ^ nat (zlog2 n) \<le> n \<and> n < 2 ^ (nat (zlog2 n) + 1)"
proof (induction n rule: zlog2.induct)
  case (1 n)
  show ?case
  proof (cases "n \<le> 1")
    case True
    with 1 show ?thesis by (simp add: zlog2.simps)
  next
    case False
    let ?z = "zlog2 (n div 2)"
    have ih: "0 \<le> ?z" "2 ^ nat ?z \<le> n div 2" "n div 2 < 2 ^ (nat ?z + 1)"
      using 1 False by auto
    have z: "zlog2 n = 1 + ?z" using False by (subst zlog2.simps) simp
    have "nat (1 + ?z) = Suc (nat ?z)" using ih(1) by simp
    then show ?thesis using ih unfolding z by (auto simp: nat_add_distrib)
  qed
qed

lemma ilog2_bounds: 
  assumes "0 < x"
  shows "pow2 (ilog2 x) \<le> x \<and> x < pow2 (ilog2 x + 1)"
proof (cases "1 \<le> x")
  case True
  let ?z = "zlog2 \<lfloor>x\<rfloor>"
  have b: "0 \<le> ?z" "2 ^ nat ?z \<le> \<lfloor>x\<rfloor>" "\<lfloor>x\<rfloor> < 2 ^ (nat ?z + 1)"
    using zlog2_bounds [of "\<lfloor>x\<rfloor>"] True by auto
  have l: "pow2 ?z \<le> x"
    using b(1,2) by (simp add: pow2_of_nat le_floor_iff)
  have "pow2 (?z + 1) = of_int (2 ^ (nat ?z + 1))"
    using b(1) by (simp add: pow2_of_nat nat_add_distrib)
  with b(3) have "x < pow2 (?z + 1)"
    by (simp add: floor_less_iff)
  with l True show ?thesis by (simp add: ilog2_def)
next
  case False
  let ?m = "\<lceil>1 / x\<rceil>"
  let ?k = "zlog2 (?m - 1)"
  from assms False have gt: "1 < 1 / x" by (simp add: field_simps)
  then have m: "2 \<le> ?m" by linarith
  have b: "0 \<le> ?k" "2 ^ nat ?k \<le> ?m - 1" "?m - 1 < 2 ^ (nat ?k + 1)"
    using zlog2_bounds [of "?m - 1"] m by auto
  have il: "ilog2 x = - (1 + ?k)" using m False by (simp add: ilog2_def Let_def)
  have "2 ^ nat ?k < ?m" using b(2) by simp
  then have u: "pow2 ?k < 1 / x"
    using b(1) by (simp add: pow2_of_nat less_ceiling_iff)
  have "?m \<le> 2 ^ (nat ?k + 1)" using b(3) by simp
  then have "1 / x \<le> of_int (2 ^ (nat ?k + 1))" by (simp only: ceiling_le_iff)
  then have l: "1 / x \<le> pow2 (?k + 1)"
    using b(1) by (simp add: pow2_of_nat nat_add_distrib)
  have n: "pow2 (- e) = 1 / pow2 e" for e
    by (simp add: pow2_powi power_int_minus divide_inverse)
  have "pow2 (ilog2 x) \<le> x"
    unfolding il n using l assms pow2_pos [of "1 + ?k"] by (simp add: field_simps)
  moreover have "x < pow2 (ilog2 x + 1)"
    using u assms pow2_pos [of ?k] by (simp add: il n [of ?k] field_simps)
  ultimately show ?thesis by simp
qed

lemma ilog2_ge: "0 < x \<Longrightarrow> pow2 k \<le> x \<Longrightarrow> k \<le> ilog2 x"
  using ilog2_bounds [of x] pow2_less_iff [of k "ilog2 x + 1"] by linarith

lemma ilog2_less: "0 < x \<Longrightarrow> x < pow2 k \<Longrightarrow> ilog2 x < k"
  using ilog2_bounds [of x] pow2_less_iff [of "ilog2 x" k] by linarith

lemma ilog2_mono: "0 < x \<Longrightarrow> x \<le> y \<Longrightarrow> ilog2 x \<le> ilog2 y"
  using ilog2_bounds [of x] ilog2_ge [of y "ilog2 x"] by simp

lemma rne_of_int [simp]: "rne (of_int n) = n"
  by (simp add: rne_def)

lemma rne_floor: "\<lfloor>x\<rfloor> \<le> rne x" "rne x \<le> \<lfloor>x\<rfloor> + 1"
  by (simp_all add: rne_def Let_def)

lemma rne_mono: "x \<le> y \<Longrightarrow> rne x \<le> rne y"
proof (cases "\<lfloor>x\<rfloor> = \<lfloor>y\<rfloor>")
  case True
  assume "x \<le> y"
  with True show ?thesis by (auto simp: rne_def Let_def)
next
  case False
  assume "x \<le> y"
  with False have "\<lfloor>x\<rfloor> + 1 \<le> \<lfloor>y\<rfloor>" using floor_mono [of x y] by linarith
  with rne_floor [of x] rne_floor [of y] show ?thesis by linarith
qed

lemma rne_ge_of_int: "of_int n \<le> x \<Longrightarrow> n \<le> rne x"
  using rne_mono [of "of_int n" x] by simp

lemma rne_le_of_int: "x \<le> of_int n \<Longrightarrow> rne x \<le> n"
  using rne_mono [of x "of_int n"] by simp

lemma grid_multiple:
  assumes "d \<le> e"
  shows "\<exists>m. of_int n * pow2 e = of_int m * pow2 d"
proof
  have "pow2 e = of_int (2 ^ nat (e - d)) * pow2 d"
    using assms pow2_add [of "e - d" d] by (simp add: pow2_of_nat)
  then show "of_int n * pow2 e = of_int (n * 2 ^ nat (e - d)) * pow2 d"
    by simp
qed

text \<open>A number on the grid of spacing \<open>pow2 (fexp t x)\<close> bounds the rounding of \<open>x\<close>.\<close>

lemma round_pos_le_grid:
  assumes "fexp t x \<le> e" "x \<le> of_int n * pow2 e"
  shows "round_pos t x \<le> of_int n * pow2 e"
proof -
  let ?u = "pow2 (fexp t x)"
  obtain m where m: "of_int n * pow2 e = of_int m * ?u"
    using grid_multiple [OF assms(1)] by blast
  have "x / ?u \<le> of_int m" using assms(2) m by (simp add: pos_divide_le_eq)
  then have "rne (x / ?u) \<le> m" by (rule rne_le_of_int)
  then show ?thesis unfolding m round_pos_def Let_def by (simp add: mult_right_mono)
qed

lemma round_pos_ge_grid:
  assumes "fexp t x \<le> e" "of_int n * pow2 e \<le> x"
  shows "of_int n * pow2 e \<le> round_pos t x"
proof -
  let ?u = "pow2 (fexp t x)"
  obtain m where m: "of_int n * pow2 e = of_int m * ?u"
    using grid_multiple [OF assms(1)] by blast
  have "of_int m \<le> x / ?u" using assms(2) m by (simp add: pos_le_divide_eq)
  then have "m \<le> rne (x / ?u)" by (rule rne_ge_of_int)
  then show ?thesis unfolding m round_pos_def Let_def by (simp add: mult_right_mono)
qed

lemma round_pos_nonneg: "0 < x \<Longrightarrow> 0 \<le> round_pos t x"
  using round_pos_ge_grid [of t x "fexp t x" 0] by simp

lemma fprec_pos [simp]: "0 < fprec t" "1 \<le> fprec t"
  by (cases t; simp)+

lemma round_pos_mono:
  assumes "0 < x" "x \<le> y"
  shows "round_pos t x \<le> round_pos t y"
proof (cases "fexp t x = fexp t y")
  case True
  have "x / pow2 (fexp t y) \<le> y / pow2 (fexp t y)"
    using assms by (simp add: divide_right_mono)
  then have "rne (x / pow2 (fexp t y)) \<le> rne (y / pow2 (fexp t y))" by (rule rne_mono)
  with True show ?thesis unfolding round_pos_def Let_def by (simp add: mult_right_mono)
next
  case False
  let ?k = "ilog2 y"
  have le: "ilog2 x \<le> ilog2 y" using assms by (rule ilog2_mono)
  with False have lt: "ilog2 x < ?k" and fy: "fexp t y = ?k - (fprec t - 1)"
    and fx: "fexp t x < fexp t y"
    by (auto simp: fexp_def max_def split: if_splits)
  have x: "x \<le> of_int 1 * pow2 ?k"
    using ilog2_bounds [OF assms(1)] lt order.trans [of x "pow2 (ilog2 x + 1)" "pow2 ?k"]
    by simp
  have y: "of_int 1 * pow2 ?k \<le> y"
    using ilog2_bounds [of y] assms by simp
  have "fexp t y \<le> ?k" using fy by simp
  then have "round_pos t x \<le> pow2 ?k" "pow2 ?k \<le> round_pos t y"
    using round_pos_le_grid [OF _ x] round_pos_ge_grid [OF _ y] fx by auto
  then show ?thesis by simp
qed

lemma round_rat_0 [simp]: "round_rat t 0 = 0"
  by (simp add: round_rat_def)

lemma round_rat_minus: "round_rat t (- x) = - round_rat t x"
  by (simp add: round_rat_def)

lemma round_rat_nonneg: "0 \<le> x \<Longrightarrow> 0 \<le> round_rat t x"
  by (auto simp: round_rat_def round_pos_nonneg)

lemma round_rat_nonpos: "x \<le> 0 \<Longrightarrow> round_rat t x \<le> 0"
  using round_rat_nonneg [of "- x" t] by (simp add: round_rat_minus)

theorem round_rat_mono: "x \<le> y \<Longrightarrow> round_rat t x \<le> round_rat t y"
proof (cases "0 < x")
  case True
  assume "x \<le> y"
  with True show ?thesis by (simp add: round_rat_def round_pos_mono)
next
  case False
  assume le: "x \<le> y"
  show ?thesis
  proof (cases "0 \<le> y")
    case True
    with False show ?thesis
      using round_rat_nonneg [of y t] round_rat_nonpos [of x t] by linarith
  next
    case neg: False
    with le have "0 < - y" "- y \<le> - x" by auto
    then have "round_pos t (- y) \<le> round_pos t (- x)" by (rule round_pos_mono)
    with neg le show ?thesis by (simp add: round_rat_def)
  qed
qed

text \<open>Representable numbers round to themselves.\<close>

definition representable :: "float_format \<Rightarrow> rat \<Rightarrow> bool" where
  "representable t x \<longleftrightarrow>
     (\<exists>n e. x = of_int n * pow2 e \<and> \<bar>n\<bar> \<le> 2 ^ nat (fprec t) \<and> fmin_exp t \<le> e)"

lemma round_pos_exact:
  assumes "0 < x" "x = of_int n * pow2 e" "n \<le> 2 ^ nat (fprec t)" "fmin_exp t \<le> e"
  shows "round_pos t x = x"
proof (cases "n = 2 ^ nat (fprec t)")
  case False
  have "n < 2 ^ nat (fprec t)" using False assms(3) by simp
  then have "of_int n < (of_int (2 ^ nat (fprec t)) :: rat)" by (simp only: of_int_less_iff)
  then have "of_int n < pow2 (fprec t)"
    by (simp only: pow2_of_nat [OF less_imp_le [OF fprec_pos(1)]])
  then have "x < pow2 (fprec t + e)"
    using assms(2) by (simp add: pow2_add)
  then have "ilog2 x < fprec t + e" using assms(1) by (rule ilog2_less [rotated])
  then have "fexp t x \<le> e" using assms(4) by (simp add: fexp_def)
  then show ?thesis
    using round_pos_le_grid [of t x e n] round_pos_ge_grid [of t x e n] assms(2) by simp
next
  case True
  then have x: "x = pow2 (fprec t + e)"
    using assms(2) pow2_of_nat [OF less_imp_le [OF fprec_pos(1)], of t] by (simp add: pow2_add)
  then have "ilog2 x < fprec t + e + 1"
    using assms(1) by (intro ilog2_less) auto
  then have "fexp t x \<le> fprec t + e"
    using assms(4) fprec_pos(2) [of t] unfolding fexp_def by linarith
  then show ?thesis
    using round_pos_le_grid [of t x "fprec t + e" 1] round_pos_ge_grid [of t x "fprec t + e" 1] x
    by simp
qed

theorem round_rat_exact: "representable t x \<Longrightarrow> round_rat t x = x"
proof -
  assume "representable t x"
  then obtain n e where x: "x = of_int n * pow2 e" "\<bar>n\<bar> \<le> 2 ^ nat (fprec t)" "fmin_exp t \<le> e"
    by (auto simp: representable_def)
  consider "x = 0" | "0 < x" | "x < 0" by linarith
  then show ?thesis
  proof cases
    case 2
    then show ?thesis using x round_pos_exact [of x n e t] by (simp add: round_rat_def)
  next
    case 3
    then show ?thesis using x round_pos_exact [of "- x" "- n" e t] by (simp add: round_rat_def)
  qed simp
qed

lemma representable_int:
  assumes "\<bar>n\<bar> \<le> 2 ^ nat (fprec t)"
  shows "representable t (of_int n)"
  unfolding representable_def
  by (rule exI [of _ n], rule exI [of _ 0]) (use assms in \<open>cases t; simp\<close>)

lemma round_rat_int [simp]: "\<bar>n\<bar> \<le> 2 ^ nat (fprec t) \<Longrightarrow> round_rat t (of_int n) = of_int n"
  by (rule round_rat_exact) (rule representable_int)

lemma round_rat_1 [simp]: "round_rat t 1 = 1"
  using round_rat_int [of 1 t] by simp

lemma two_pow_fmax_gt1: "(1 :: rat) < 2 ^ fmax_exp t"
  by (rule one_less_power) (cases t; simp)+

lemma fround_0 [simp]: "fround t 0 = Fin 0"
  using two_pow_fmax_gt1 [of t] by (simp add: fround_def)

lemma fround_1 [simp]: "fround t 1 = Fin 1"
  using two_pow_fmax_gt1 [of t] by (simp add: fround_def)

lemma fround_unit: "0 \<le> x \<Longrightarrow> x \<le> 1 \<Longrightarrow> \<exists>r. fround t x = Fin r \<and> r = round_rat t x \<and> 0 \<le> r \<and> r \<le> 1"
  using round_rat_mono [of 0 x t] round_rat_mono [of x 1 t] two_pow_fmax_gt1 [of t]
  by (simp add: fround_def Let_def)


section \<open>The unit interval\<close>

text \<open>Confidences and probabilities: finite values between zero and one.\<close>

fun funit :: "fl \<Rightarrow> bool" where
  "funit NaN = False"
| "funit (Inf s) = False"
| "funit (Fin x) = (0 \<le> x \<and> x \<le> 1)"

lemma funitE [elim]: "funit x \<Longrightarrow> (\<And>q. x = Fin q \<Longrightarrow> 0 \<le> q \<Longrightarrow> q \<le> 1 \<Longrightarrow> P) \<Longrightarrow> P"
  by (cases x) auto

lemma funit_not_NaN: "funit x \<Longrightarrow> x \<noteq> NaN"
  by auto

lemma fle_refl: "x \<noteq> NaN \<Longrightarrow> fle x x"
  by (cases x) auto

lemma fle_trans: "fle x y \<Longrightarrow> fle y z \<Longrightarrow> fle x z"
  by (cases x; cases y; cases z) auto

lemma fle_total: "x \<noteq> NaN \<Longrightarrow> y \<noteq> NaN \<Longrightarrow> fle x y \<or> fle y x"
  by (cases x; cases y) auto

lemma fle_antisym: "fle x y \<Longrightarrow> fle y x \<Longrightarrow> x = y"
  by (cases x; cases y) auto

lemma flt_fle: "flt x y \<longleftrightarrow> fle x y \<and> \<not> fle y x"
  by (cases x; cases y) auto

lemma flt_not_fle: "x \<noteq> NaN \<Longrightarrow> y \<noteq> NaN \<Longrightarrow> flt x y \<longleftrightarrow> \<not> fle y x"
  by (cases x; cases y) auto

lemma fle_not_NaN: "fle x y \<Longrightarrow> x \<noteq> NaN \<and> y \<noteq> NaN"
  by (cases x; cases y) auto

lemma fclamp_NaN [simp]: "fclamp NaN lo hi = NaN"
  by (cases lo; cases hi) (simp_all add: fclamp_def)

lemma fclamp_unit [float_unit]: "x \<noteq> NaN \<Longrightarrow> funit (fclamp x (Fin 0) (Fin 1))"
  by (cases x) (auto simp: fclamp_def)

lemma fclamp_unit_iff: "funit (fclamp x (Fin 0) (Fin 1)) \<longleftrightarrow> x \<noteq> NaN"
  using fclamp_unit by force

lemma fclamp_unit_id [simp]: "funit x \<Longrightarrow> fclamp x (Fin 0) (Fin 1) = x"
  by (cases x) (auto simp: fclamp_def)

lemma fclamp_mono:
  "fle x y \<Longrightarrow> fle (fclamp x (Fin 0) (Fin 1)) (fclamp y (Fin 0) (Fin 1))"
  by (cases x; cases y) (auto simp: fclamp_def)

lemma fone_minus_unit [float_unit]: "funit x \<Longrightarrow> funit (fsub t (Fin 1) x)"
proof (elim funitE)
  fix q :: rat assume "x = Fin q" "0 \<le> q" "q \<le> 1"
  then show "funit (fsub t (Fin 1) x)"
    using fround_unit [of "1 - q" t] by (auto simp: fsub_def)
qed

lemma fmul_unit [float_unit]: "funit x \<Longrightarrow> funit y \<Longrightarrow> funit (fmul t x y)"
proof (elim funitE)
  fix q r :: rat assume "x = Fin q" "0 \<le> q" "q \<le> 1" "y = Fin r" "0 \<le> r" "r \<le> 1"
  then show "funit (fmul t x y)"
    using fround_unit [of "q * r" t] by (auto simp: mult_le_one)
qed

lemma fmax_unit [float_unit]: "funit x \<Longrightarrow> funit y \<Longrightarrow> funit (fmax x y)"
  by (auto simp: fmax_def)

lemma fround_fle:
  assumes "x \<le> y" shows "fle (fround t x) (fround t y)"
proof -
  have m: "round_rat t x \<le> round_rat t y" using assms by (rule round_rat_mono)
  show ?thesis
    using m two_pow_fmax_gt1 [of t] by (auto simp: fround_def Let_def abs_if split: if_splits)
qed

lemma fround_not_NaN [simp]: "fround t x \<noteq> NaN"
  by (simp add: fround_def Let_def)

lemma fone_minus_antimono:
  "funit x \<Longrightarrow> funit y \<Longrightarrow> fle x y \<Longrightarrow> fle (fsub t (Fin 1) y) (fsub t (Fin 1) x)"
  by (elim funitE) (simp add: fsub_def fround_fle)

lemma fmul_unit_mono:
  "funit x \<Longrightarrow> funit x' \<Longrightarrow> funit y \<Longrightarrow> funit y' \<Longrightarrow> fle x x' \<Longrightarrow> fle y y' \<Longrightarrow>
   fle (fmul t x y) (fmul t x' y')"
  by (elim funitE) (simp add: fround_fle mult_mono)

lemma foldl_fmul_unit:
  "funit a \<Longrightarrow> (\<forall>x \<in> set xs. funit x) \<Longrightarrow> funit (foldl (fmul t) a xs)"
  by (induction xs arbitrary: a) (auto intro: fmul_unit)

lemma f_product_unit [float_unit]: "(\<forall>x \<in> set xs. funit x) \<Longrightarrow> funit (f_product t xs)"
  by (simp add: f_product_def foldl_fmul_unit)

lemma foldl_fmul_mono:
  assumes "list_all2 fle xs ys" "\<forall>x \<in> set xs. funit x" "\<forall>y \<in> set ys. funit y"
    "funit a" "funit b" "fle a b"
  shows "fle (foldl (fmul t) a xs) (foldl (fmul t) b ys)"
  using assms
  by (induction xs ys arbitrary: a b rule: list_all2_induct) (auto intro: fmul_unit fmul_unit_mono)

lemma f_product_mono:
  "list_all2 fle xs ys \<Longrightarrow> \<forall>x \<in> set xs. funit x \<Longrightarrow> \<forall>y \<in> set ys. funit y \<Longrightarrow>
   fle (f_product t xs) (f_product t ys)"
  unfolding f_product_def by (rule foldl_fmul_mono) auto

lemma fadd_commute: "fadd t x y = fadd t y x"
  by (cases x; cases y) (auto simp: add.commute)

lemma fmul_commute: "fmul t x y = fmul t y x"
  by (cases x; cases y) (auto simp: mult.commute)

text \<open>Every rounded value is representable, so rounding twice is rounding once.\<close>

lemma ilog2_pow2_upper: "0 < x \<Longrightarrow> x / pow2 (fexp t x) \<le> of_int (2 ^ nat (fprec t))"
proof -
  assume x: "0 < x"
  have "x < pow2 (ilog2 x + 1)" using ilog2_bounds [OF x] by simp
  also have "\<dots> \<le> pow2 (fprec t + fexp t x)" by (simp add: fexp_def)
  finally have "x / pow2 (fexp t x) < pow2 (fprec t)"
    by (simp add: pow2_add pos_divide_less_eq)
  then show ?thesis
    using pow2_of_nat [OF less_imp_le [OF fprec_pos(1)], of t] by simp
qed

lemma representable_round_pos: "0 < x \<Longrightarrow> representable t (round_pos t x)"
proof -
  assume x: "0 < x"
  let ?n = "rne (x / pow2 (fexp t x))"
  have "?n \<le> 2 ^ nat (fprec t)" using ilog2_pow2_upper [OF x] by (rule rne_le_of_int)
  moreover have "0 \<le> ?n" using x by (intro rne_ge_of_int) simp
  ultimately show ?thesis
    unfolding representable_def round_pos_def Let_def
    by (intro exI [of _ ?n] exI [of _ "fexp t x"]) (simp add: fexp_def)
qed

lemma representable_uminus: "representable t x \<Longrightarrow> representable t (- x)"
  unfolding representable_def by (metis abs_minus_cancel mult_minus_left of_int_minus)

lemma representable_round: "representable t (round_rat t x)"
proof -
  have "representable t 0" using representable_int [of 0 t] by simp
  then show ?thesis
    using representable_round_pos representable_uminus
    by (auto simp: round_rat_def not_less le_less)
qed

theorem round_rat_idem [simp]: "round_rat t (round_rat t x) = round_rat t x"
  by (rule round_rat_exact) (rule representable_round)

end
