(* ===== verification/Belief.thy ===== *)
theory Belief
  imports Slot_Map Binary_Float
begin

text \<open>
  The data of \<open>epica-core/src/belief\<close>: confidences and their Noisy-OR combination
  (\<open>confidence.rs\<close>, \<open>system1/noisy_or.rs\<close>), belief values, provenance and belief nodes
  (\<open>node.rs\<close>). Wall-clock reads are arguments.
\<close>

section \<open>Confidence\<close>

definition DEFAULT_REFLECTION_THRESHOLD :: f32 where
  "DEFAULT_REFLECTION_THRESHOLD = f_lit F32 (15 / 100)"

lemma DEFAULT_REFLECTION_THRESHOLD_value [code]: "DEFAULT_REFLECTION_THRESHOLD = Fin (5033165 / 33554432)"
proof -
  have "f_lit F32 (15 / 100) = Fin (5033165 / 33554432)" by code_simp
  then show ?thesis by (simp add: DEFAULT_REFLECTION_THRESHOLD_def)
qed

definition effective_confidence :: "f32 \<Rightarrow> f32 option \<Rightarrow> f32" where
  "effective_confidence fast slow = (case slow of Some s \<Rightarrow> s | None \<Rightarrow> fast)"

definition should_activate_system2 :: "f32 \<Rightarrow> f32 \<Rightarrow> f32 \<Rightarrow> bool" where
  "should_activate_system2 fast baseline threshold = flt threshold (fabs (fsub F32 fast baseline))"

abbreviation clamp01 :: "fl \<Rightarrow> fl" where
  "clamp01 c \<equiv> fclamp c (Fin 0) (Fin 1)"

definition noisy_or :: "f32 list \<Rightarrow> f32" where
  "noisy_or confidences =
     (if confidences = [] then Fin 0
      else fsub F32 (Fin 1) (f_product F32 (map (\<lambda>c. fsub F32 (Fin 1) (clamp01 c)) confidences)))"

text \<open>The copy System 1 calls, in \<open>system1/noisy_or.rs\<close>.\<close>

definition combine :: "f32 list \<Rightarrow> f32" where
  "combine confidences =
     (if confidences = [] then Fin 0
      else fsub F32 (Fin 1) (f_product F32 (map (\<lambda>c. fsub F32 (Fin 1) (clamp01 c)) confidences)))"

section \<open>Values and provenance\<close>

text \<open>The public data of \<open>serde_json::Value\<close>, compared structurally.\<close>

datatype json_number = PosInt u64 | NegInt int | FloatNum f64

datatype json =
    JNull
  | JBool bool
  | JNumber json_number
  | JString string
  | JArray "json list"
  | JObject "(string \<times> json) list"

definition json_is_null :: "json \<Rightarrow> bool" where
  "json_is_null v \<longleftrightarrow> v = JNull"

type_synonym uuid = "128 word"

datatype belief_value =
    Deterministic json
  | Inferred json
  | Asserted string
  | Reference belief_id

datatype provenance =
    ToolResult string uuid
  | LlmInference string uuid u64
  | UserStatement u32
  | RuntimeInference "belief_id list"

section \<open>Nodes\<close>

record belief_node =
  id :: belief_id
  key :: string
  "value" :: belief_value
  provenance :: provenance
  created_at_ms :: u64
  ttl_ms :: "u64 option"
  fast_confidence :: f32
  slow_confidence :: "f32 option"
  reflection_threshold :: f32
  prospect :: bool

text \<open>\<open>BeliefNode::new\<close>; the wall clock is the argument \<open>now\<close>.\<close>

definition belief_node_new :: "u64 \<Rightarrow> string \<Rightarrow> belief_value \<Rightarrow> provenance \<Rightarrow> f32 \<Rightarrow> belief_node" where
  "belief_node_new now k v p confidence =
     \<lparr>id = NullKey, key = k, value = v, provenance = p, created_at_ms = now, ttl_ms = None,
      fast_confidence = clamp01 confidence, slow_confidence = None,
      reflection_threshold = DEFAULT_REFLECTION_THRESHOLD, prospect = False\<rparr>"

definition with_ttl_ms :: "belief_node \<Rightarrow> u64 \<Rightarrow> belief_node" where
  "with_ttl_ms n ttl = n\<lparr>ttl_ms := Some ttl\<rparr>"

definition with_reflection_threshold :: "belief_node \<Rightarrow> f32 \<Rightarrow> belief_node" where
  "with_reflection_threshold n tau = n\<lparr>reflection_threshold := clamp01 tau\<rparr>"

definition with_prospect :: "belief_node \<Rightarrow> bool \<Rightarrow> belief_node" where
  "with_prospect n v = n\<lparr>prospect := v\<rparr>"

definition is_expired :: "belief_node \<Rightarrow> u64 \<Rightarrow> bool" where
  "is_expired n current_ms =
     (case ttl_ms n of None \<Rightarrow> False | Some ttl \<Rightarrow> ttl \<le> saturating_sub current_ms (created_at_ms n))"

section \<open>Text\<close>

text \<open>
  \<open>trim\<close> and \<open>to_lowercase\<close> on ASCII text, the alphabet of the model's strings; characters
  above 127 are left alone.
\<close>

definition is_white :: "char \<Rightarrow> bool" where
  "is_white c \<longleftrightarrow> (of_char c :: nat) \<in> {9, 10, 11, 12, 13, 32}"

definition char_lower :: "char \<Rightarrow> char" where
  "char_lower c = (let n = (of_char c :: nat) in if 65 \<le> n \<and> n \<le> 90 then char_of (n + 32) else c)"

definition str_trim :: "string \<Rightarrow> string" where
  "str_trim s = rev (dropWhile is_white (rev (dropWhile is_white s)))"

definition to_lowercase :: "string \<Rightarrow> string" where
  "to_lowercase s = map char_lower s"

section \<open>Laws of the Noisy-OR\<close>

lemma combine_noisy_or: "combine cs = noisy_or cs"
  by (simp add: combine_def noisy_or_def)

lemma complement_unit: "c \<noteq> NaN \<Longrightarrow> funit (fsub t (Fin 1) (clamp01 c))"
  by (intro fone_minus_unit fclamp_unit)

lemma noisy_or_in_unit [float_unit]: "NaN \<notin> set cs \<Longrightarrow> funit (noisy_or cs)"
  unfolding noisy_or_def
  by (auto intro!: fone_minus_unit f_product_unit complement_unit)

lemma noisy_or_monotone:
  assumes "list_all2 fle cs ds"
  shows "fle (noisy_or cs) (noisy_or ds)"
proof (cases "cs = []")
  case True
  with assms show ?thesis by (simp add: noisy_or_def)
next
  case False
  let ?f = "\<lambda>c. fsub F32 (Fin 1) (clamp01 c)"
  have nn: "\<forall>c \<in> set cs. c \<noteq> NaN" "\<forall>d \<in> set ds. d \<noteq> NaN"
    using assms by (auto simp: list_all2_conv_all_nth in_set_conv_nth dest!: fle_not_NaN)
  have "list_all2 (\<lambda>c d. fle (?f d) (?f c)) cs ds"
    using assms nn
    by (induction rule: list_all2_induct) (auto intro!: fone_minus_antimono fclamp_mono fclamp_unit)
  then have "list_all2 fle (map ?f ds) (map ?f cs)"
    by (simp add: list_all2_conv_all_nth)
  then have "fle (f_product F32 (map ?f ds)) (f_product F32 (map ?f cs))"
    using nn by (intro f_product_mono) (auto intro: complement_unit)
  then have "fle (fsub F32 (Fin 1) (f_product F32 (map ?f cs))) (fsub F32 (Fin 1) (f_product F32 (map ?f ds)))"
    using nn by (intro fone_minus_antimono f_product_unit) (auto intro: complement_unit)
  moreover have "ds \<noteq> []" using False assms by auto
  ultimately show ?thesis using False by (simp add: noisy_or_def)
qed

text \<open>One more piece of evidence never lowers the combined confidence.\<close>

lemma fmul_unit_shrinks:
  assumes "funit (Fin p)" "round_rat t p = p" "funit x"
  shows "fle (fmul t (Fin p) x) (Fin p)"
proof -
  obtain q where q: "x = Fin q" "0 \<le> q" "q \<le> 1" using assms(3) by auto
  have "p * q \<le> p" using assms(1) q by (simp add: mult_left_le)
  then have "fle (fround t (p * q)) (fround t p)" by (rule fround_fle)
  moreover have "fround t p = Fin p"
    using assms(1,2) fround_unit [of p t] by auto
  ultimately show ?thesis using q by simp
qed

lemma foldl_fmul_rounded:
  assumes "funit (Fin p)" "round_rat t p = p" "\<forall>x \<in> set xs. funit x"
  shows "\<exists>r. foldl (fmul t) (Fin p) xs = Fin r \<and> round_rat t r = r \<and> 0 \<le> r \<and> r \<le> 1"
  using assms
proof (induction xs arbitrary: p)
  case Nil
  then show ?case by simp
next
  case (Cons x xs)
  obtain q where q: "x = Fin q" "0 \<le> q" "q \<le> 1" using Cons.prems by auto
  have "0 \<le> p * q" "p * q \<le> 1" using Cons.prems q by (auto simp: mult_le_one)
  then obtain r where r: "fround t (p * q) = Fin r" "r = round_rat t (p * q)" "0 \<le> r" "r \<le> 1"
    using fround_unit [of "p * q" t] by auto
  have "funit (Fin r)" "round_rat t r = r" using r by simp_all
  then show ?case using Cons.IH [of r] Cons.prems q r(1) by simp
qed

lemma noisy_or_more_evidence:
  assumes "NaN \<notin> set cs" "c \<noteq> NaN"
  shows "fle (noisy_or cs) (noisy_or (cs @ [c]))"
proof (cases "cs = []")
  case True
  have "funit (noisy_or [c])" using assms by (intro noisy_or_in_unit) auto
  then have "fle (Fin 0) (noisy_or [c])" by (cases "noisy_or [c]") simp_all
  moreover have "noisy_or [] = Fin 0" by (simp add: noisy_or_def)
  ultimately show ?thesis using True by simp
next
  case False
  define f where "f = (\<lambda>c. fsub F32 (Fin 1) (clamp01 c))"
  have fu: "funit (f x)" if "x \<noteq> NaN" for x
    unfolding f_def using that by (rule complement_unit)
  have u1: "\<forall>x \<in> set (map f cs). funit x"
    using assms(1) fu by (metis (no_types, lifting) imageE set_map)
  have u2: "funit (f c)" using assms(2) by (rule fu)
  have one: "funit (Fin 1)" "round_rat F32 1 = 1" by simp_all
  obtain p where p: "f_product F32 (map f cs) = Fin p" "round_rat F32 p = p" "0 \<le> p" "p \<le> 1"
    using foldl_fmul_rounded [OF one u1] unfolding f_product_def by blast
  have up: "funit (Fin p)" using p(3,4) by simp
  have e: "f_product F32 (map f (cs @ [c])) = fmul F32 (Fin p) (f c)"
    using p(1) by (simp add: f_product_def)
  have "fle (fmul F32 (Fin p) (f c)) (Fin p)" by (rule fmul_unit_shrinks [OF up p(2) u2])
  then have "fle (fsub F32 (Fin 1) (Fin p)) (fsub F32 (Fin 1) (fmul F32 (Fin p) (f c)))"
    by (rule fone_minus_antimono [rotated 2]) (rule fmul_unit up u2)+
  with False e p(1) show ?thesis unfolding noisy_or_def f_def [symmetric] by simp
qed

section \<open>Laws of nodes\<close>

lemma belief_node_new_simps [simp]:
  "key (belief_node_new now k v p c) = k"
  "value (belief_node_new now k v p c) = v"
  "provenance (belief_node_new now k v p c) = p"
  "slow_confidence (belief_node_new now k v p c) = None"
  "fast_confidence (belief_node_new now k v p c) = clamp01 c"
  by (simp_all add: belief_node_new_def)

lemma is_expired_iff:
  "is_expired n now \<longleftrightarrow> (\<exists>ttl. ttl_ms n = Some ttl \<and> unat ttl \<le> unat now - unat (created_at_ms n))"
  by (auto simp: is_expired_def word_le_nat_alt unat_saturating_sub split: option.splits)

lemma is_expired_mono: "is_expired n now \<Longrightarrow> now \<le> later \<Longrightarrow> is_expired n later"
  by (auto simp: is_expired_iff word_le_nat_alt)

end
