(* ===== verification/Embedding.thy ===== *)
theory Embedding
  imports Belief
begin

text \<open>
  \<open>epica-core/src/embedding/mod.rs\<close>: cosine similarity, the thresholds that turn it into a
  verdict, and the providers of cached embeddings. A provider is its lookup function; the
  locale \<open>embedding_cache\<close> is the trait with the one promise its clients need, that warming
  never loses or changes an embedding. Locks are never poisoned: no code panics holding one.
\<close>

section \<open>Similarity and verdicts\<close>

fun cosine_step :: "f32 \<times> f32 \<times> f32 \<Rightarrow> f32 \<times> f32 \<Rightarrow> f32 \<times> f32 \<times> f32" where
  "cosine_step (dot, na, nb) (x, y) =
     (fadd F32 dot (fmul F32 x y), fadd F32 na (fmul F32 x x), fadd F32 nb (fmul F32 y y))"

definition cosine_similarity :: "f32 list \<Rightarrow> f32 list \<Rightarrow> f32" where
  "cosine_similarity a b =
     (if length a \<noteq> length b \<or> a = [] then Fin 0
      else (case foldl cosine_step (Fin 0, Fin 0, Fin 0) (zip a b) of (dot, na, nb) \<Rightarrow>
              let denom = fmul F32 (fsqrt F32 na) (fsqrt F32 nb)
              in if feq denom (Fin 0) then Fin 0 else fdiv F32 dot denom))"

record semantic_equivalence =
  equivalence :: f32
  contradiction :: f32

definition semantic_equivalence_default :: semantic_equivalence where
  "semantic_equivalence_default =
     \<lparr>equivalence = f_lit F32 (92 / 100), contradiction = fneg (f_lit F32 (30 / 100))\<rparr>"

lemma semantic_equivalence_default_value [code]:
  "semantic_equivalence_default =
     \<lparr>equivalence = Fin (15435039 / 16777216), contradiction = Fin (- 5033165 / 16777216)\<rparr>"
proof -
  have "f_lit F32 (92 / 100) = Fin (15435039 / 16777216)" by code_simp
  moreover have "fneg (f_lit F32 (30 / 100)) = Fin (- 5033165 / 16777216)" by code_simp
  ultimately show ?thesis by (simp add: semantic_equivalence_default_def)
qed

datatype equivalence_verdict = Equivalent f32 | Contradictory f32 | Undecided f32

definition classify :: "semantic_equivalence \<Rightarrow> f32 list \<Rightarrow> f32 list \<Rightarrow> equivalence_verdict" where
  "classify q a b =
     (let s = cosine_similarity a b
      in if fle (equivalence q) s then Equivalent s
         else if fle s (contradiction q) then Contradictory s
         else Undecided s)"

section \<open>Providers\<close>

text \<open>The trait: what a provider has cached, and the hint to cache more.\<close>

record 'b embedding_ops =
  embed_cached :: "'b \<Rightarrow> string \<Rightarrow> f32 list option"
  warm :: "'b \<Rightarrow> string list \<Rightarrow> 'b"

locale embedding_cache =
  fixes P :: "'b embedding_ops"
  assumes warm_keeps: "embed_cached P b t = Some v \<Longrightarrow> embed_cached P (warm P b ts) t = Some v"
begin

lemma warm_twice: "embed_cached P b t = Some v \<Longrightarrow> embed_cached P (warm P (warm P b ts) us) t = Some v"
  by (intro warm_keeps)

lemma warm_monotone: "dom (embed_cached P b) \<subseteq> dom (embed_cached P (warm P b ts))"
  using warm_keeps by blast

lemma warm_verdict:
  assumes "embed_cached P b s = Some v" "embed_cached P b t = Some w"
  shows "map_option (\<lambda>(v, w). classify q v w)
      (Option.bind (embed_cached P (warm P b ts) s) (\<lambda>v. map_option (Pair v) (embed_cached P (warm P b ts) t))) =
    Some (classify q v w)"
  using assms by (simp add: warm_keeps)

end

definition null_provider :: "unit embedding_ops" where
  "null_provider = \<lparr>embed_cached = (\<lambda>_ _. None), warm = (\<lambda>b _. b)\<rparr>"

record 'b cached_provider =
  backend :: 'b
  cache :: "string \<rightharpoonup> f32 list"

definition cached_new :: "'b \<Rightarrow> 'b cached_provider" where
  "cached_new b = \<lparr>backend = b, cache = Map.empty\<rparr>"

definition cached_len :: "'b cached_provider \<Rightarrow> nat" where
  "cached_len c = card (dom (cache c))"

definition cached_insert :: "'b cached_provider \<Rightarrow> string \<Rightarrow> f32 list \<Rightarrow> 'b cached_provider" where
  "cached_insert c text embedding = c\<lparr>cache := (cache c)(text \<mapsto> embedding)\<rparr>"

definition cached_embed_cached :: "'b cached_provider \<Rightarrow> string \<Rightarrow> f32 list option" where
  "cached_embed_cached c text = cache c text"

text \<open>The body of the loop of \<open>warm\<close>.\<close>

definition cached_warm_one :: "'b embedding_ops \<Rightarrow> 'b cached_provider \<Rightarrow> string \<Rightarrow> 'b cached_provider" where
  "cached_warm_one B c t =
     (if cache c t \<noteq> None then c
      else (case embed_cached B (backend c) t of
              Some vec \<Rightarrow> c\<lparr>cache := (cache c)(t \<mapsto> vec)\<rparr>
            | None \<Rightarrow> c\<lparr>backend := warm B (backend c) [t]\<rparr>))"

definition cached_warm :: "'b embedding_ops \<Rightarrow> 'b cached_provider \<Rightarrow> string list \<Rightarrow> 'b cached_provider" where
  "cached_warm B c texts = foldl (cached_warm_one B) c texts"

definition cached_ops :: "'b embedding_ops \<Rightarrow> 'b cached_provider embedding_ops" where
  "cached_ops B = \<lparr>embed_cached = cached_embed_cached, warm = cached_warm B\<rparr>"

section \<open>Laws\<close>

lemma foldl_cosine_swap:
  "length a = length b \<Longrightarrow>
   foldl cosine_step (d, nb, na) (zip b a) =
     (case foldl cosine_step (d, na, nb) (zip a b) of (d', na', nb') \<Rightarrow> (d', nb', na'))"
  by (induction a b arbitrary: d na nb rule: list_induct2) (simp_all add: fmul_commute split: prod.splits)

lemma cosine_symmetric: "cosine_similarity a b = cosine_similarity b a"
proof (cases "length a = length b \<and> a \<noteq> []")
  case True
  then show ?thesis using foldl_cosine_swap [of a b "Fin 0" "Fin 0" "Fin 0"]
    by (auto simp: cosine_similarity_def fmul_commute Let_def split: prod.splits)
next
  case False
  then show ?thesis by (auto simp: cosine_similarity_def)
qed

lemma classify_symmetric: "classify q a b = classify q b a"
  by (simp add: classify_def cosine_symmetric [of a b])

lemma cached_warm_one_keeps: "cache c t = Some v \<Longrightarrow> cache (cached_warm_one B c u) t = Some v"
  by (auto simp: cached_warm_one_def split: option.splits)

lemma cached_warm_keeps: "cache c t = Some v \<Longrightarrow> cache (cached_warm B c ts) t = Some v"
  unfolding cached_warm_def by (induction ts arbitrary: c) (simp_all add: cached_warm_one_keeps)

lemma cached_warm_one_lifts:
  "cache c t = None \<Longrightarrow> embed_cached B (backend c) t = Some v \<Longrightarrow> cache (cached_warm_one B c t) t = Some v"
  by (simp add: cached_warm_one_def)

interpretation null_cache: embedding_cache null_provider
  by unfold_locales (simp add: null_provider_def)

interpretation cached_cache: embedding_cache "cached_ops B" for B :: "'b embedding_ops"
  by unfold_locales (simp add: cached_ops_def cached_embed_cached_def cached_warm_keeps)

end
