(* ===== verification/Quad_Graphs.thy ===== *)
theory Quad_Graphs
  imports Projection Embedding
begin

text \<open>
  The four projections of the quad (\<open>quad/semantic.rs\<close>, \<open>temporal.rs\<close>, \<open>causal.rs\<close>,
  \<open>entity.rs\<close>). Each is a \<open>projection\<close> with edge labels of its own; the argument \<open>G\<close> is the
  graph library at that label type. Prefixes: \<open>sg\<close> semantic, \<open>tg\<close> temporal, \<open>cg\<close> causal,
  \<open>eg\<close> entity.
\<close>

section \<open>Semantic graph\<close>

datatype semantic_edge = Subsumes | Contradicts | Synonymous

definition sg_new :: "('g, semantic_edge) digraph_ops \<Rightarrow> 'g projection" where
  "sg_new G = proj_new G"

definition sg_add_node :: "('g, semantic_edge) digraph_ops \<Rightarrow> 'g projection \<Rightarrow> belief_id \<Rightarrow> nat \<times> 'g projection" where
  "sg_add_node G p b = proj_add_node G p b"

definition sg_remove_node :: "('g, semantic_edge) digraph_ops \<Rightarrow> 'g projection \<Rightarrow> belief_id \<Rightarrow> 'g projection" where
  "sg_remove_node G p b = proj_remove_node G p b"

definition sg_add_edge ::
  "('g, semantic_edge) digraph_ops \<Rightarrow> 'g projection \<Rightarrow> belief_id \<Rightarrow> belief_id \<Rightarrow> semantic_edge \<Rightarrow> 'g projection" where
  "sg_add_edge G p from to e =
     (case indices p from of
        None \<Rightarrow> p
      | Some fi \<Rightarrow> (case indices p to of
          None \<Rightarrow> p
        | Some ti \<Rightarrow>
            let g = gr_add_edge G (graph p) fi ti e;
                symmetric = (e = Contradicts \<or> e = Synonymous)
            in p\<lparr>graph := (if symmetric then gr_add_edge G g ti fi e else g)\<rparr>))"

definition has_contradiction_edges :: "('g, semantic_edge) digraph_ops \<Rightarrow> 'g projection \<Rightarrow> belief_id \<Rightarrow> bool" where
  "has_contradiction_edges G p b =
     (case indices p b of
        None \<Rightarrow> False
      | Some idx \<Rightarrow> \<exists>e \<in> set (gr_out G (graph p) idx). snd e = Contradicts)"

definition supersets_of :: "('g, semantic_edge) digraph_ops \<Rightarrow> 'g projection \<Rightarrow> belief_id \<Rightarrow> belief_id list" where
  "supersets_of G p b =
     (case indices p b of
        None \<Rightarrow> []
      | Some idx \<Rightarrow> map (\<lambda>e. node_at G (graph p) (fst e))
                     (filter (\<lambda>e. snd e = Subsumes) (gr_in G (graph p) idx)))"

definition subsets_of :: "('g, semantic_edge) digraph_ops \<Rightarrow> 'g projection \<Rightarrow> belief_id \<Rightarrow> belief_id list" where
  "subsets_of G p b =
     (case indices p b of
        None \<Rightarrow> []
      | Some idx \<Rightarrow> map (\<lambda>e. node_at G (graph p) (fst e))
                     (filter (\<lambda>e. snd e = Subsumes) (gr_out G (graph p) idx)))"

definition sg_all_edges ::
  "('g, semantic_edge) digraph_ops \<Rightarrow> 'g projection \<Rightarrow> (belief_id \<times> belief_id \<times> semantic_edge) list" where
  "sg_all_edges G p = proj_edges G p"

fun value_contradicts :: "belief_value \<Rightarrow> belief_value \<Rightarrow> bool" where
  "value_contradicts (Deterministic a) (Deterministic b) = (a \<noteq> b)"
| "value_contradicts (Inferred a) (Inferred b) = (a \<noteq> b)"
| "value_contradicts (Asserted a) (Asserted b) =
     (to_lowercase (str_trim a) \<noteq> to_lowercase (str_trim b))"
| "value_contradicts (Reference a) (Reference b) = (a \<noteq> b)"
| "value_contradicts _ _ = True"

datatype verdict_trace =
    LiteralAgree
  | SemanticEquivalent f32
  | SemanticContradicts f32
  | LiteralDisagreeUndecided f32
  | LiteralDisagreeNoCache

text \<open>An installed provider is the function \<open>embed_cached\<close> it computes at the moment.\<close>

type_synonym provider = "string \<Rightarrow> f32 list option"

definition value_contradicts_semantic ::
  "provider option \<Rightarrow> semantic_equivalence \<Rightarrow> belief_value \<Rightarrow> belief_value \<Rightarrow> bool \<times> verdict_trace" where
  "value_contradicts_semantic provider q current new =
     (if \<not> value_contradicts current new then (False, LiteralAgree)
      else (case (current, new) of
        (Asserted a, Asserted b) \<Rightarrow>
          (case provider of
             None \<Rightarrow> (True, LiteralDisagreeNoCache)
           | Some p \<Rightarrow>
               (case (p a, p b) of
                  (Some va, Some vb) \<Rightarrow>
                    (case classify q va vb of
                       Equivalent s \<Rightarrow> (False, SemanticEquivalent s)
                     | Contradictory s \<Rightarrow> (True, SemanticContradicts s)
                     | Undecided s \<Rightarrow> (True, LiteralDisagreeUndecided s))
                | _ \<Rightarrow> (True, LiteralDisagreeNoCache)))
      | _ \<Rightarrow> (True, LiteralDisagreeNoCache)))"

section \<open>Temporal graph\<close>

datatype temporal_edge = Precedes u64 | CoOccurs | Supersedes

definition tg_new :: "('g, temporal_edge) digraph_ops \<Rightarrow> 'g projection" where
  "tg_new G = proj_new G"

definition tg_add_node :: "('g, temporal_edge) digraph_ops \<Rightarrow> 'g projection \<Rightarrow> belief_id \<Rightarrow> nat \<times> 'g projection" where
  "tg_add_node G p b = proj_add_node G p b"

definition tg_remove_node :: "('g, temporal_edge) digraph_ops \<Rightarrow> 'g projection \<Rightarrow> belief_id \<Rightarrow> 'g projection" where
  "tg_remove_node G p b = proj_remove_node G p b"

definition tg_add_edge ::
  "('g, temporal_edge) digraph_ops \<Rightarrow> 'g projection \<Rightarrow> belief_id \<Rightarrow> belief_id \<Rightarrow> temporal_edge \<Rightarrow> 'g projection" where
  "tg_add_edge G p from to e = proj_add_edge G p from to e"

text \<open>The argument \<open>exp64\<close> is \<open>f64::exp\<close>, whose last bits the platform decides.\<close>

definition compute_decay :: "(f64 \<Rightarrow> f64) \<Rightarrow> u64 \<Rightarrow> u64 option \<Rightarrow> u64 \<Rightarrow> f32" where
  "compute_decay exp64 created ttl current =
     (case ttl of
        None \<Rightarrow> Fin 1
      | Some t \<Rightarrow>
          if t = 0 then Fin 0
          else let elapsed = f_of_nat F64 (unat (saturating_sub current created));
                   lambda = fdiv F64 (Fin 1) (f_of_nat F64 (unat t))
               in fclamp (f_cast F32 (exp64 (fmul F64 (fneg lambda) elapsed))) (Fin 0) (Fin 1))"

lemma compute_decay_code [code]:
  "compute_decay exp64 created None current = Fin 1"
  "compute_decay exp64 created (Some t) current =
     (if t = 0 then Fin 0
      else let elapsed = f_of_nat F64 (unat (saturating_sub current created));
               lambda = fdiv F64 (Fin 1) (f_of_nat F64 (unat t))
           in fclamp (f_cast F32 (exp64 (fmul F64 (fneg lambda) elapsed))) (Fin 0) (Fin 1))"
  by (simp_all add: compute_decay_def)

definition predecessors_of :: "('g, temporal_edge) digraph_ops \<Rightarrow> 'g projection \<Rightarrow> belief_id \<Rightarrow> belief_id list" where
  "predecessors_of G p b =
     (case indices p b of
        None \<Rightarrow> []
      | Some idx \<Rightarrow> map (\<lambda>e. node_at G (graph p) (fst e))
                     (filter (\<lambda>e. case snd e of Precedes _ \<Rightarrow> True | _ \<Rightarrow> False) (gr_in G (graph p) idx)))"

section \<open>Causal graph\<close>

datatype causal_edge =
    Causes f32 f32
  | InferredFrom "belief_id list"
  | CounterfactualEdge belief_id

definition cg_new :: "('g, causal_edge) digraph_ops \<Rightarrow> 'g projection" where
  "cg_new G = proj_new G"

definition cg_add_node :: "('g, causal_edge) digraph_ops \<Rightarrow> 'g projection \<Rightarrow> belief_id \<Rightarrow> nat \<times> 'g projection" where
  "cg_add_node G p b = proj_add_node G p b"

definition cg_remove_node :: "('g, causal_edge) digraph_ops \<Rightarrow> 'g projection \<Rightarrow> belief_id \<Rightarrow> 'g projection" where
  "cg_remove_node G p b = proj_remove_node G p b"

definition cg_add_edge ::
  "('g, causal_edge) digraph_ops \<Rightarrow> 'g projection \<Rightarrow> belief_id \<Rightarrow> belief_id \<Rightarrow> causal_edge \<Rightarrow> 'g projection" where
  "cg_add_edge G p from to e = proj_add_edge G p from to e"

definition descendants_of :: "('g, causal_edge) digraph_ops \<Rightarrow> 'g projection \<Rightarrow> belief_id \<Rightarrow> belief_id set" where
  "descendants_of G p b =
     (case indices p b of
        None \<Rightarrow> {}
      | Some start \<Rightarrow> node_at G (graph p) ` set (tl (gr_dfs G (graph p) start)))"

definition ancestors_of :: "('g, causal_edge) digraph_ops \<Rightarrow> 'g projection \<Rightarrow> belief_id \<Rightarrow> belief_id set" where
  "ancestors_of G p b =
     (case indices p b of
        None \<Rightarrow> {}
      | Some start \<Rightarrow> node_at G (graph p) ` set (tl (gr_dfs_rev G (graph p) start)))"

text \<open>
  One pass of the power iteration. \<open>vs\<close> enumerates \<open>indices.values()\<close>; its order is the hash
  map's and matters to the rounding. A rank map is total here: the code reads it only at
  indices it inserted.
\<close>

definition rank_source ::
  "('g, causal_edge) digraph_ops \<Rightarrow> 'g \<Rightarrow> nat list \<Rightarrow> f32 \<Rightarrow> (nat \<Rightarrow> f32) \<Rightarrow> (nat \<Rightarrow> f32) \<Rightarrow> nat \<Rightarrow> nat \<Rightarrow> f32" where
  "rank_source G g vs uniform rank next src =
     (let d = f_lit F32 (85 / 100); out = map fst (gr_out G g src)
      in if out = [] then
           let share = fmul F32 (fmul F32 d (rank src)) uniform
           in fold (\<lambda>v nx. nx(v := fadd F32 (nx v) share)) vs next
         else
           let share = fdiv F32 (fmul F32 d (rank src)) (f_of_nat F32 (length out))
           in foldl (\<lambda>nx t. nx(t := fadd F32 (nx t) share)) next out)"

definition rank_step ::
  "('g, causal_edge) digraph_ops \<Rightarrow> 'g \<Rightarrow> nat list \<Rightarrow> f32 \<Rightarrow> (nat \<Rightarrow> f32) \<Rightarrow> nat \<Rightarrow> f32" where
  "rank_step G g vs uniform rank =
     (let base = fmul F32 (fsub F32 (Fin 1) (f_lit F32 (85 / 100))) uniform
      in foldl (rank_source G g vs uniform rank) (\<lambda>_. base) vs)"

definition centrality ::
  "('g, causal_edge) digraph_ops \<Rightarrow> nat list \<Rightarrow> 'g projection \<Rightarrow> belief_id \<Rightarrow> f32" where
  "centrality G vs p b =
     (let n = length vs
      in if n = 0 then Fin 0
         else let uniform = fdiv F32 (Fin 1) (f_of_nat F32 n);
                  rank = (rank_step G (graph p) vs uniform ^^ 20) (\<lambda>_. uniform)
              in (case indices p b of None \<Rightarrow> Fin 0 | Some i \<Rightarrow> rank i))"

definition inferred_from_premises ::
  "('g, causal_edge) digraph_ops \<Rightarrow> 'g projection \<Rightarrow> belief_id \<Rightarrow> belief_id list list" where
  "inferred_from_premises G p b =
     (case indices p b of
        None \<Rightarrow> []
      | Some idx \<Rightarrow> filter_map (\<lambda>e. case snd e of InferredFrom ps \<Rightarrow> Some ps | _ \<Rightarrow> None)
                     (gr_in G (graph p) idx))"

definition incoming_edges ::
  "('g, causal_edge) digraph_ops \<Rightarrow> 'g projection \<Rightarrow> belief_id \<Rightarrow> (belief_id \<times> causal_edge) list" where
  "incoming_edges G p b =
     (case indices p b of
        None \<Rightarrow> []
      | Some idx \<Rightarrow> map (\<lambda>e. (node_at G (graph p) (fst e), snd e)) (gr_in G (graph p) idx))"

definition cg_all_edges ::
  "('g, causal_edge) digraph_ops \<Rightarrow> 'g projection \<Rightarrow> (belief_id \<times> belief_id \<times> causal_edge) list" where
  "cg_all_edges G p = proj_edges G p"

section \<open>Entity graph\<close>

datatype entity_edge =
    ProducedBy string
  | Consumed string u32
  | SharedWith "string list"

definition eg_new :: "('g, entity_edge) digraph_ops \<Rightarrow> 'g projection" where
  "eg_new G = proj_new G"

definition eg_add_node :: "('g, entity_edge) digraph_ops \<Rightarrow> 'g projection \<Rightarrow> belief_id \<Rightarrow> nat \<times> 'g projection" where
  "eg_add_node G p b = proj_add_node G p b"

definition eg_remove_node :: "('g, entity_edge) digraph_ops \<Rightarrow> 'g projection \<Rightarrow> belief_id \<Rightarrow> 'g projection" where
  "eg_remove_node G p b = proj_remove_node G p b"

definition eg_add_edge ::
  "('g, entity_edge) digraph_ops \<Rightarrow> 'g projection \<Rightarrow> belief_id \<Rightarrow> belief_id \<Rightarrow> entity_edge \<Rightarrow> 'g projection" where
  "eg_add_edge G p from to e = proj_add_edge G p from to e"

definition producers_of :: "('g, entity_edge) digraph_ops \<Rightarrow> 'g projection \<Rightarrow> belief_id \<Rightarrow> string list" where
  "producers_of G p b =
     (case indices p b of
        None \<Rightarrow> []
      | Some idx \<Rightarrow> filter_map (\<lambda>e. case snd e of ProducedBy a \<Rightarrow> Some a | _ \<Rightarrow> None)
                     (gr_in G (graph p) idx))"

section \<open>Laws of the semantic graph\<close>

lemma value_contradicts_refl [simp]: "\<not> value_contradicts v v"
  by (cases v) simp_all

lemma value_contradicts_sym: "value_contradicts v w = value_contradicts w v"
  by (cases v; cases w) auto

text \<open>No contradiction is an equivalence of values.\<close>

lemma value_contradicts_trans:
  "\<not> value_contradicts u v \<Longrightarrow> \<not> value_contradicts v w \<Longrightarrow> \<not> value_contradicts u w"
  by (cases u; cases v; cases w) auto

lemma semantic_no_provider:
  "fst (value_contradicts_semantic None q v w) = value_contradicts v w"
  by (cases v; cases w) (simp_all add: value_contradicts_semantic_def)

lemma semantic_refines_literal:
  "fst (value_contradicts_semantic p q v w) \<Longrightarrow> value_contradicts v w"
  by (auto simp: value_contradicts_semantic_def split: if_splits)

lemma semantic_symmetric:
  "value_contradicts_semantic p q v w = value_contradicts_semantic p q w v"
  by (cases v; cases w)
    (auto simp: value_contradicts_semantic_def classify_symmetric [of q]
      split: option.splits equivalence_verdict.splits)

lemma sg_add_edge_twice:
  "sg_add_edge G p a b e =
     (if indices p a = None \<or> indices p b = None then p
      else if e = Contradicts \<or> e = Synonymous then proj_add_edge G (proj_add_edge G p a b e) b a e
      else proj_add_edge G p a b e)"
  by (auto simp: sg_add_edge_def proj_add_edge_def Let_def split: option.splits)

text \<open>The graph operations are the shared ones.\<close>

lemmas graph_ops_defs =
  sg_new_def sg_add_node_def sg_remove_node_def sg_all_edges_def
  tg_new_def tg_add_node_def tg_remove_node_def tg_add_edge_def
  cg_new_def cg_add_node_def cg_remove_node_def cg_add_edge_def cg_all_edges_def
  eg_new_def eg_add_node_def eg_remove_node_def eg_add_edge_def

context stable_digraph
begin

lemma node_at_images:
  "proj_in G p b = (case indices p b of None \<Rightarrow> [] | Some i \<Rightarrow>
     map (\<lambda>e. (node_at G (graph p) (fst e), snd e)) (gr_in G (graph p) i))"
  by (simp add: proj_in_def case_prod_beta split: option.split)

end

lemma filter_map_proj_in:
  "filter_map (\<lambda>e. f (snd e)) (proj_in G p b) =
     (case indices p b of None \<Rightarrow> [] | Some i \<Rightarrow> filter_map (\<lambda>e. f (snd e)) (gr_in G (graph p) i))"
proof -
  have "filter_map (\<lambda>e. f (snd e)) (map (\<lambda>(s, w). (node_at G (graph p) s, w)) xs) =
      filter_map (\<lambda>e. f (snd e)) xs" for xs :: "(nat \<times> 'b) list"
    by (induction xs) (auto split: option.splits)
  then show ?thesis by (simp add: proj_in_def split: option.split)
qed

lemma premises_proj_in:
  "inferred_from_premises G p b =
     filter_map (\<lambda>e. case snd e of InferredFrom ps \<Rightarrow> Some ps | _ \<Rightarrow> None) (proj_in G p b)"
  using filter_map_proj_in [of "\<lambda>w. case w of InferredFrom ps \<Rightarrow> Some ps | _ \<Rightarrow> None" G p b]
  by (simp add: inferred_from_premises_def)

lemma incoming_proj_in: "incoming_edges G p b = proj_in G p b"
  by (simp add: incoming_edges_def proj_in_def case_prod_beta split: option.split)

lemma centrality_absent: "indices p b = None \<Longrightarrow> centrality G vs p b = Fin 0"
  by (simp add: centrality_def Let_def)

section \<open>Decay\<close>

lemma f_cast_not_NaN: "x \<noteq> NaN \<Longrightarrow> f_cast t x \<noteq> NaN"
  by (cases x) simp_all

lemma fround_finite:
  assumes "0 \<le> x" "x \<le> 2 ^ 64"
  shows "fround F64 x = Fin (round_rat F64 x) \<and> 0 \<le> round_rat F64 x"
proof -
  have "representable F64 (2 ^ 64)" unfolding representable_def
    by (rule exI [of _ 1], rule exI [of _ 64]) (simp add: pow2_def)
  then have "round_rat F64 (2 ^ 64) = 2 ^ 64" by (rule round_rat_exact)
  then have "round_rat F64 x \<le> 2 ^ 64" using round_rat_mono [OF assms(2), of F64] by simp
  then show ?thesis using round_rat_nonneg [OF assms(1), of F64] by (simp add: fround_def Let_def)
qed

lemma f_of_u64:
  "\<exists>q. f_of_nat F64 (unat (w :: u64)) = Fin q \<and> 0 \<le> q \<and> (w \<noteq> 0 \<longrightarrow> 1 \<le> q)"
proof -
  have "unat w < 2 ^ LENGTH(64)" by (rule unsigned_less)
  then have "(of_nat (unat w) :: rat) \<le> of_nat (2 ^ 64)" unfolding of_nat_le_iff by simp
  then have b: "(of_nat (unat w) :: rat) \<le> 2 ^ 64" by simp
  have "w \<noteq> 0 \<Longrightarrow> 1 \<le> unat w" by (metis less_one not_le unat_eq_zero)
  then have "w \<noteq> 0 \<Longrightarrow> (1 :: rat) \<le> of_nat (unat w)" by (metis of_nat_1 of_nat_le_iff)
  then have "w \<noteq> 0 \<Longrightarrow> 1 \<le> round_rat F64 (of_nat (unat w))"
    using round_rat_mono [of 1 "of_nat (unat w)" F64] by simp
  moreover have "(0 :: rat) \<le> of_nat (unat w)" by (rule of_nat_0_le_iff)
  ultimately show ?thesis unfolding f_of_nat_def using fround_finite [OF _ b] by blast
qed

lemma decay_argument:
  "t \<noteq> 0 \<Longrightarrow> fmul F64 (fneg (fdiv F64 (Fin 1) (f_of_nat F64 (unat (t :: u64))))) (f_of_nat F64 (unat (e :: u64))) \<noteq> NaN"
proof -
  assume "t \<noteq> 0"
  then obtain q where q: "f_of_nat F64 (unat t) = Fin q" "1 \<le> q" using f_of_u64 [of t] by auto
  then obtain r where r: "fround F64 (1 / q) = Fin r" using fround_unit [of "1 / q" F64] by auto
  obtain p where "f_of_nat F64 (unat e) = Fin p" using f_of_u64 [of e] by auto
  with q r show ?thesis by simp
qed

text \<open>All that the decay factor needs of the exponential is that it turns no number into NaN.\<close>

lemma compute_decay_unit:
  assumes "\<And>x. x \<noteq> NaN \<Longrightarrow> exp64 x \<noteq> NaN"
  shows "funit (compute_decay exp64 created ttl current)"
proof (cases "ttl = None \<or> ttl = Some 0")
  case True
  then show ?thesis by (auto simp: compute_decay_def)
next
  case False
  then obtain t where t: "ttl = Some t" "t \<noteq> 0" by auto
  have "funit (fclamp (f_cast F32 (exp64 (fmul F64 (fneg (fdiv F64 (Fin 1) (f_of_nat F64 (unat t))))
      (f_of_nat F64 (unat (saturating_sub current created)))))) (Fin 0) (Fin 1))"
    by (intro fclamp_unit f_cast_not_NaN assms decay_argument t(2))
  then show ?thesis using t by (simp add: compute_decay_def Let_def)
qed

end
