(* ===== verification/Prospective_Index.thy ===== *)
theory Prospective_Index
  imports Embedding
begin

text \<open>
  \<open>epica-core/src/prospective\<close>: the scenarios indexed for a belief and the best similarity of
  a query to them. The module has a cosine of its own, which clamps.
\<close>

record causal_event =
  trigger :: string
  consequence :: string
  probability :: f32
  precondition_beliefs :: "belief_id list"

record prospective_entry =
  scenario :: string
  embedding :: "f32 list"
  causal_events :: "causal_event list"

record prospective_index =
  entries :: "belief_id \<rightharpoonup> prospective_entry list"

definition pi_new :: prospective_index where
  "pi_new = \<lparr>entries = Map.empty\<rparr>"

definition invalidate :: "prospective_index \<Rightarrow> belief_id \<Rightarrow> prospective_index" where
  "invalidate p b = p\<lparr>entries := (entries p)(b := None)\<rparr>"

definition pi_get :: "prospective_index \<Rightarrow> belief_id \<Rightarrow> prospective_entry list option" where
  "pi_get p b = entries p b"

definition pi_insert :: "prospective_index \<Rightarrow> belief_id \<Rightarrow> prospective_entry list \<Rightarrow> prospective_index" where
  "pi_insert p b es = p\<lparr>entries := (entries p)(b \<mapsto> es)\<rparr>"

definition pi_cosine_similarity :: "f32 list \<Rightarrow> f32 list \<Rightarrow> f32" where
  "pi_cosine_similarity a b =
     (if length a \<noteq> length b \<or> a = [] then Fin 0
      else let dot = f_sum F32 (map (\<lambda>(x, y). fmul F32 x y) (zip a b));
               norm_a = fsqrt F32 (f_sum F32 (map (\<lambda>x. fmul F32 x x) a));
               norm_b = fsqrt F32 (f_sum F32 (map (\<lambda>x. fmul F32 x x) b))
           in if feq norm_a (Fin 0) \<or> feq norm_b (Fin 0) then Fin 0
              else fclamp (fdiv F32 dot (fmul F32 norm_a norm_b)) (Fin (- 1)) (Fin 1))"

definition max_prospective_sim :: "prospective_index \<Rightarrow> belief_id \<Rightarrow> f32 list \<Rightarrow> f32" where
  "max_prospective_sim p b query =
     (case entries p b of
        None \<Rightarrow> Fin 0
      | Some es \<Rightarrow>
          if query = [] then Fin 0
          else foldl fmax (Fin 0)
                 (map (\<lambda>e. pi_cosine_similarity (embedding e) query)
                   (filter (\<lambda>e. embedding e \<noteq> []) es)))"

section \<open>Laws\<close>

lemma pi_get_invalidate: "pi_get (invalidate p b) c = (if c = b then None else pi_get p c)"
  by (simp add: pi_get_def invalidate_def)

lemma pi_get_insert: "pi_get (pi_insert p b es) c = (if c = b then Some es else pi_get p c)"
  by (simp add: pi_get_def pi_insert_def)

lemma pi_cosine_range:
  "pi_cosine_similarity a b = NaN \<or> fle (pi_cosine_similarity a b) (Fin 1)"
proof -
  have "fclamp x (Fin (- 1)) (Fin 1) = NaN \<or> fle (fclamp x (Fin (- 1)) (Fin 1)) (Fin 1)" for x
    by (cases x) (auto simp: fclamp_def)
  then show ?thesis by (auto simp: pi_cosine_similarity_def Let_def)
qed

text \<open>\<open>max\<close> drops NaN, so the similarity of a belief is always a number between 0 and 1.\<close>

lemma foldl_fmax_unit:
  "funit a \<Longrightarrow> \<forall>x \<in> set xs. x = NaN \<or> fle x (Fin 1) \<Longrightarrow> funit (foldl fmax a xs)"
proof (induction xs arbitrary: a)
  case (Cons x xs)
  have "funit (fmax a x)" using Cons.prems by (cases a; cases x) (auto simp: fmax_def)
  then show ?case using Cons by simp
qed simp

lemma max_prospective_sim_unit: "funit (max_prospective_sim p b query)"
proof -
  have "funit (foldl fmax (Fin 0) (map (\<lambda>e. pi_cosine_similarity (embedding e) query) es))"
    for es :: "prospective_entry list"
    using pi_cosine_range by (intro foldl_fmax_unit) auto
  then show ?thesis by (simp add: max_prospective_sim_def split: option.split)
qed

end
