(* ===== verification/Belief_Quad.thy ===== *)
theory Belief_Quad
  imports Quad_Graphs Prospective_Index
begin

text \<open>
  \<open>BeliefQuad\<close> (\<open>epica-core/src/quad/mod.rs\<close>): the slot map of beliefs and the four graphs
  over it. The libraries the quad is built on are the argument \<open>L\<close>; \<open>belief_lib\<close> states what
  is assumed of them and \<open>ref_lib\<close> is an instance on which everything computes. The
  invariant \<open>quad_wf\<close> says that the five structures agree, the synchronisation the source
  documents.
\<close>

section \<open>The libraries\<close>

text \<open>
  \<open>l_exp\<close> is \<open>f64::exp\<close>; \<open>l_ord\<close> enumerates a \<open>HashSet\<close>, in an order the standard library
  does not specify.
\<close>

record ('s, 'a, 'b, 'c, 'd) lib =
  l_nodes :: "('s, belief_node) slot_map_ops"
  l_sem :: "('a, semantic_edge) digraph_ops"
  l_tmp :: "('b, temporal_edge) digraph_ops"
  l_cau :: "('c, causal_edge) digraph_ops"
  l_ent :: "('d, entity_edge) digraph_ops"
  l_exp :: "f64 \<Rightarrow> f64"
  l_ord :: "belief_id set \<Rightarrow> belief_id list"

section \<open>State\<close>

text \<open>
  The quad without its in-session checkpoints, which are snapshots of this part; the quad of
  a session, \<open>session_quad\<close>, extends it. An operation on \<open>quad_scheme\<close> works on both.
\<close>

record ('s, 'a, 'b, 'c, 'd) quad =
  nodes :: 's
  semantic :: "'a projection"
  temporal :: "'b projection"
  causal :: "'c projection"
  entity :: "'d projection"
  version :: u64
  prospective_index :: prospective_index
  embedding_provider :: "provider option"
  semantic_equivalence :: semantic_equivalence

definition quad_new :: "('s, 'a, 'b, 'c, 'd) lib \<Rightarrow> ('s, 'a, 'b, 'c, 'd) quad" where
  "quad_new L =
     \<lparr>nodes = sm_new (l_nodes L), semantic = sg_new (l_sem L), temporal = tg_new (l_tmp L),
      causal = cg_new (l_cau L), entity = eg_new (l_ent L), version = 0,
      prospective_index = pi_new, embedding_provider = None,
      semantic_equivalence = semantic_equivalence_default\<rparr>"

definition set_embedding_provider ::
  "('s, 'a, 'b, 'c, 'd, 'z) quad_scheme \<Rightarrow> provider \<Rightarrow> ('s, 'a, 'b, 'c, 'd, 'z) quad_scheme" where
  "set_embedding_provider q p = q\<lparr>embedding_provider := Some p\<rparr>"

definition clear_embedding_provider ::
  "('s, 'a, 'b, 'c, 'd, 'z) quad_scheme \<Rightarrow> ('s, 'a, 'b, 'c, 'd, 'z) quad_scheme" where
  "clear_embedding_provider q = q\<lparr>embedding_provider := None\<rparr>"

definition set_semantic_equivalence ::
  "('s, 'a, 'b, 'c, 'd, 'z) quad_scheme \<Rightarrow> semantic_equivalence \<Rightarrow> ('s, 'a, 'b, 'c, 'd, 'z) quad_scheme" where
  "set_semantic_equivalence q e = q\<lparr>semantic_equivalence := e\<rparr>"

section \<open>Operations\<close>

definition quad_insert ::
  "('s, 'a, 'b, 'c, 'd) lib \<Rightarrow> ('s, 'a, 'b, 'c, 'd, 'z) quad_scheme \<Rightarrow> belief_node \<Rightarrow>
     belief_id \<times> ('s, 'a, 'b, 'c, 'd, 'z) quad_scheme" where
  "quad_insert L q node =
     (case sm_insert_with_key (l_nodes L) (nodes q) (\<lambda>k. node\<lparr>id := k\<rparr>) of
        (b, s) \<Rightarrow>
          (b, q\<lparr>nodes := s,
                semantic := snd (sg_add_node (l_sem L) (semantic q) b),
                temporal := snd (tg_add_node (l_tmp L) (temporal q) b),
                causal := snd (cg_add_node (l_cau L) (causal q) b),
                entity := snd (eg_add_node (l_ent L) (entity q) b),
                version := version q + 1\<rparr>))"

definition quad_get ::
  "('s, 'a, 'b, 'c, 'd) lib \<Rightarrow> ('s, 'a, 'b, 'c, 'd, 'z) quad_scheme \<Rightarrow> belief_id \<Rightarrow> belief_node option" where
  "quad_get L q b = sm_get (l_nodes L) (nodes q) b"

text \<open>A write through the reference \<open>get_mut\<close> gives: nothing happens to an absent belief.\<close>

definition quad_modify ::
  "('s, 'a, 'b, 'c, 'd) lib \<Rightarrow> ('s, 'a, 'b, 'c, 'd, 'z) quad_scheme \<Rightarrow> belief_id \<Rightarrow>
     (belief_node \<Rightarrow> belief_node) \<Rightarrow> ('s, 'a, 'b, 'c, 'd, 'z) quad_scheme" where
  "quad_modify L q b f =
     (case sm_get (l_nodes L) (nodes q) b of
        None \<Rightarrow> q
      | Some n \<Rightarrow> q\<lparr>nodes := sm_write (l_nodes L) (nodes q) b (f n)\<rparr>)"

definition quad_remove ::
  "('s, 'a, 'b, 'c, 'd) lib \<Rightarrow> ('s, 'a, 'b, 'c, 'd, 'z) quad_scheme \<Rightarrow> belief_id \<Rightarrow>
     belief_node option \<times> ('s, 'a, 'b, 'c, 'd, 'z) quad_scheme" where
  "quad_remove L q b =
     (case sm_remove (l_nodes L) (nodes q) b of
        (None, s) \<Rightarrow> (None, q\<lparr>nodes := s\<rparr>)
      | (Some node, s) \<Rightarrow>
          (Some node,
           q\<lparr>nodes := s,
             semantic := sg_remove_node (l_sem L) (semantic q) b,
             temporal := tg_remove_node (l_tmp L) (temporal q) b,
             causal := cg_remove_node (l_cau L) (causal q) b,
             entity := eg_remove_node (l_ent L) (entity q) b,
             prospective_index := invalidate (prospective_index q) b,
             version := version q + 1\<rparr>))"

definition quad_iter ::
  "('s, 'a, 'b, 'c, 'd) lib \<Rightarrow> ('s, 'a, 'b, 'c, 'd, 'z) quad_scheme \<Rightarrow> (belief_id \<times> belief_node) list" where
  "quad_iter L q = sm_iter (l_nodes L) (nodes q)"

definition quad_len :: "('s, 'a, 'b, 'c, 'd) lib \<Rightarrow> ('s, 'a, 'b, 'c, 'd, 'z) quad_scheme \<Rightarrow> nat" where
  "quad_len L q = sm_len (l_nodes L) (nodes q)"

definition quad_is_empty :: "('s, 'a, 'b, 'c, 'd) lib \<Rightarrow> ('s, 'a, 'b, 'c, 'd, 'z) quad_scheme \<Rightarrow> bool" where
  "quad_is_empty L q = (sm_len (l_nodes L) (nodes q) = 0)"

definition add_semantic_edge ::
  "('s, 'a, 'b, 'c, 'd) lib \<Rightarrow> ('s, 'a, 'b, 'c, 'd, 'z) quad_scheme \<Rightarrow> belief_id \<Rightarrow> belief_id \<Rightarrow>
     semantic_edge \<Rightarrow> ('s, 'a, 'b, 'c, 'd, 'z) quad_scheme" where
  "add_semantic_edge L q from to e = q\<lparr>semantic := sg_add_edge (l_sem L) (semantic q) from to e\<rparr>"

definition add_temporal_edge ::
  "('s, 'a, 'b, 'c, 'd) lib \<Rightarrow> ('s, 'a, 'b, 'c, 'd, 'z) quad_scheme \<Rightarrow> belief_id \<Rightarrow> belief_id \<Rightarrow>
     temporal_edge \<Rightarrow> ('s, 'a, 'b, 'c, 'd, 'z) quad_scheme" where
  "add_temporal_edge L q from to e = q\<lparr>temporal := tg_add_edge (l_tmp L) (temporal q) from to e\<rparr>"

definition add_causal_edge ::
  "('s, 'a, 'b, 'c, 'd) lib \<Rightarrow> ('s, 'a, 'b, 'c, 'd, 'z) quad_scheme \<Rightarrow> belief_id \<Rightarrow> belief_id \<Rightarrow>
     causal_edge \<Rightarrow> ('s, 'a, 'b, 'c, 'd, 'z) quad_scheme" where
  "add_causal_edge L q from to e = q\<lparr>causal := cg_add_edge (l_cau L) (causal q) from to e\<rparr>"

definition add_entity_edge ::
  "('s, 'a, 'b, 'c, 'd) lib \<Rightarrow> ('s, 'a, 'b, 'c, 'd, 'z) quad_scheme \<Rightarrow> belief_id \<Rightarrow> belief_id \<Rightarrow>
     entity_edge \<Rightarrow> ('s, 'a, 'b, 'c, 'd, 'z) quad_scheme" where
  "add_entity_edge L q from to e = q\<lparr>entity := eg_add_edge (l_ent L) (entity q) from to e\<rparr>"

definition decay_factor ::
  "('s, 'a, 'b, 'c, 'd) lib \<Rightarrow> ('s, 'a, 'b, 'c, 'd, 'z) quad_scheme \<Rightarrow> belief_id \<Rightarrow> u64 \<Rightarrow> f32" where
  "decay_factor L q b current =
     (case sm_get (l_nodes L) (nodes q) b of
        None \<Rightarrow> Fin 1
      | Some n \<Rightarrow> compute_decay (l_exp L) (created_at_ms n) (ttl_ms n) current)"

definition check_contradiction_traced ::
  "('s, 'a, 'b, 'c, 'd) lib \<Rightarrow> ('s, 'a, 'b, 'c, 'd, 'z) quad_scheme \<Rightarrow> belief_id \<Rightarrow> belief_value \<Rightarrow>
     bool \<times> verdict_trace" where
  "check_contradiction_traced L q b new =
     (case sm_get (l_nodes L) (nodes q) b of
        None \<Rightarrow> (False, LiteralAgree)
      | Some node \<Rightarrow>
          (case value_contradicts_semantic (embedding_provider q) (semantic_equivalence q) (value node) new of
             (value_contra, trace) \<Rightarrow>
               (value_contra \<or> has_contradiction_edges (l_sem L) (semantic q) b, trace)))"

definition check_contradiction ::
  "('s, 'a, 'b, 'c, 'd) lib \<Rightarrow> ('s, 'a, 'b, 'c, 'd, 'z) quad_scheme \<Rightarrow> belief_id \<Rightarrow> belief_value \<Rightarrow> bool" where
  "check_contradiction L q b new = fst (check_contradiction_traced L q b new)"

section \<open>Invariant\<close>

definition beliefs :: "('s, 'a, 'b, 'c, 'd) lib \<Rightarrow> ('s, 'a, 'b, 'c, 'd, 'z) quad_scheme \<Rightarrow> belief_id set" where
  "beliefs L q = dom (quad_get L q)"

definition quad_wf :: "('s, 'a, 'b, 'c, 'd) lib \<Rightarrow> ('s, 'a, 'b, 'c, 'd, 'z) quad_scheme \<Rightarrow> bool" where
  "quad_wf L q \<longleftrightarrow>
     sm_valid (l_nodes L) (nodes q) \<and>
     proj_wf (l_sem L) (semantic q) (beliefs L q) \<and> proj_wf (l_tmp L) (temporal q) (beliefs L q) \<and>
     proj_wf (l_cau L) (causal q) (beliefs L q) \<and> proj_wf (l_ent L) (entity q) (beliefs L q) \<and>
     (\<forall>b n. quad_get L q b = Some n \<longrightarrow> id n = b)"

text \<open>Every confidence a number between 0 and 1, the documented range.\<close>

definition confident :: "('s, 'a, 'b, 'c, 'd) lib \<Rightarrow> ('s, 'a, 'b, 'c, 'd, 'z) quad_scheme \<Rightarrow> bool" where
  "confident L q \<longleftrightarrow> (\<forall>b n. quad_get L q b = Some n \<longrightarrow> funit (fast_confidence n))"

abbreviation sem_edges where "sem_edges L q \<equiv> proj_edges (l_sem L) (semantic q)"
abbreviation tmp_edges where "tmp_edges L q \<equiv> proj_edges (l_tmp L) (temporal q)"
abbreviation cau_edges where "cau_edges L q \<equiv> proj_edges (l_cau L) (causal q)"
abbreviation ent_edges where "ent_edges L q \<equiv> proj_edges (l_ent L) (entity q)"

lemma quad_get_fun: "quad_get L q = sm_get (l_nodes L) (nodes q)"
  by (simp add: quad_get_def fun_eq_iff)

section \<open>The laws of the libraries together\<close>

locale belief_lib =
  nodes: slot_map "l_nodes L" + sem: stable_digraph "l_sem L" + tmp: stable_digraph "l_tmp L" +
  cau: stable_digraph "l_cau L" + ent: stable_digraph "l_ent L"
  for L :: "('s, 'a, 'b, 'c, 'd) lib" +
  assumes ord: "finite S \<Longrightarrow> distinct (l_ord L S) \<and> set (l_ord L S) = S"
    and exp_number: "x \<noteq> NaN \<Longrightarrow> l_exp L x \<noteq> NaN"
begin

lemma wf_valid: "quad_wf L q \<Longrightarrow> sm_valid (l_nodes L) (nodes q)"
  by (simp add: quad_wf_def)

lemma wf_graphs:
  "quad_wf L q \<Longrightarrow> proj_wf (l_sem L) (semantic q) (beliefs L q)"
  "quad_wf L q \<Longrightarrow> proj_wf (l_tmp L) (temporal q) (beliefs L q)"
  "quad_wf L q \<Longrightarrow> proj_wf (l_cau L) (causal q) (beliefs L q)"
  "quad_wf L q \<Longrightarrow> proj_wf (l_ent L) (entity q) (beliefs L q)"
  by (simp_all add: quad_wf_def)

lemma finite_beliefs: "quad_wf L q \<Longrightarrow> finite (beliefs L q)"
  unfolding beliefs_def quad_get_fun by (rule nodes.finite_dom) (rule wf_valid)

lemma wf_id: "quad_wf L q \<Longrightarrow> quad_get L q b = Some n \<Longrightarrow> id n = b"
  by (simp add: quad_wf_def)

lemma new_wf [wf_intros]: "quad_wf L (quad_new L)"
  using sem.proj_new_wf tmp.proj_new_wf cau.proj_new_wf ent.proj_new_wf
  by (simp add: quad_wf_def beliefs_def quad_get_fun quad_new_def graph_ops_defs
      nodes.new_valid nodes.new_get)

lemma insert_get:
  assumes "quad_wf L q" "quad_insert L q n = (b, q')"
  shows "b \<notin> beliefs L q" "b \<noteq> NullKey" "quad_get L q' = (quad_get L q)(b \<mapsto> n\<lparr>id := b\<rparr>)"
    "beliefs L q' = insert b (beliefs L q)"
proof -
  obtain s where s: "sm_insert_with_key (l_nodes L) (nodes q) (\<lambda>k. n\<lparr>id := k\<rparr>) = (b, s)" "nodes q' = s"
    using assms(2) by (auto simp: quad_insert_def split: prod.splits)
  note v = wf_valid [OF assms(1)]
  show "b \<notin> beliefs L q" "b \<noteq> NullKey" using nodes.insert_fresh [OF v s(1)]
    by (auto simp: beliefs_def quad_get_fun)
  show g: "quad_get L q' = (quad_get L q)(b \<mapsto> n\<lparr>id := b\<rparr>)"
    using nodes.insert_get [OF v s(1)] s(2) by (simp add: quad_get_fun)
  show "beliefs L q' = insert b (beliefs L q)" using g by (auto simp: beliefs_def)
qed

lemma insert_wf [wf_intros]:
  assumes "quad_wf L q" "quad_insert L q n = (b, q')"
  shows "quad_wf L q'"
proof -
  obtain s where s: "sm_insert_with_key (l_nodes L) (nodes q) (\<lambda>k. n\<lparr>id := k\<rparr>) = (b, s)"
    and q': "nodes q' = s" "semantic q' = snd (proj_add_node (l_sem L) (semantic q) b)"
      "temporal q' = snd (proj_add_node (l_tmp L) (temporal q) b)"
      "causal q' = snd (proj_add_node (l_cau L) (causal q) b)"
      "entity q' = snd (proj_add_node (l_ent L) (entity q) b)"
    using assms(2) by (auto simp: quad_insert_def graph_ops_defs split: prod.splits)
  note g = insert_get [OF assms]
  have "sm_valid (l_nodes L) (nodes q')"
    using nodes.insert_valid [OF wf_valid [OF assms(1)] s] q'(1) by simp
  moreover have "\<forall>c m. quad_get L q' c = Some m \<longrightarrow> id m = c"
    using wf_id [OF assms(1)] unfolding g(3) by simp
  moreover note w = wf_graphs [OF assms(1)]
  have "proj_wf (l_sem L) (semantic q') (beliefs L q')" "proj_wf (l_tmp L) (temporal q') (beliefs L q')"
    "proj_wf (l_cau L) (causal q') (beliefs L q')" "proj_wf (l_ent L) (entity q') (beliefs L q')"
    unfolding g(4) q'(2-5)
    using sem.proj_add_node_wf(1) [OF w(1) g(1)] tmp.proj_add_node_wf(1) [OF w(2) g(1)]
      cau.proj_add_node_wf(1) [OF w(3) g(1)] ent.proj_add_node_wf(1) [OF w(4) g(1)] by simp_all
  ultimately show ?thesis unfolding quad_wf_def by blast
qed

lemma insert_edges:
  assumes "quad_wf L q" "quad_insert L q n = (b, q')"
  shows "mset (sem_edges L q') = mset (sem_edges L q)" "mset (tmp_edges L q') = mset (tmp_edges L q)"
    "mset (cau_edges L q') = mset (cau_edges L q)" "mset (ent_edges L q') = mset (ent_edges L q)"
proof -
  have q': "semantic q' = snd (proj_add_node (l_sem L) (semantic q) b)"
      "temporal q' = snd (proj_add_node (l_tmp L) (temporal q) b)"
      "causal q' = snd (proj_add_node (l_cau L) (causal q) b)"
      "entity q' = snd (proj_add_node (l_ent L) (entity q) b)"
    using assms(2) by (auto simp: quad_insert_def graph_ops_defs split: prod.splits)
  note w = wf_graphs [OF assms(1)] and b = insert_get(1) [OF assms]
  show "mset (sem_edges L q') = mset (sem_edges L q)" "mset (tmp_edges L q') = mset (tmp_edges L q)"
    "mset (cau_edges L q') = mset (cau_edges L q)" "mset (ent_edges L q') = mset (ent_edges L q)"
    unfolding q' using sem.proj_add_node_wf(2) [OF w(1) b] tmp.proj_add_node_wf(2) [OF w(2) b]
      cau.proj_add_node_wf(2) [OF w(3) b] ent.proj_add_node_wf(2) [OF w(4) b] by simp_all
qed

lemma remove_absent:
  assumes "quad_wf L q" "b \<notin> beliefs L q"
  shows "fst (quad_remove L q b) = None" "quad_wf L (snd (quad_remove L q b))"
    "quad_get L (snd (quad_remove L q b)) = quad_get L q"
proof -
  obtain r s where rs: "sm_remove (l_nodes L) (nodes q) b = (r, s)" by (cases "sm_remove (l_nodes L) (nodes q) b")
  note v = wf_valid [OF assms(1)]
  have n: "sm_get (l_nodes L) (nodes q) b = None" using assms(2) by (auto simp: beliefs_def quad_get_fun)
  then have r: "r = None" using nodes.remove_result [OF v rs] by simp
  have g: "sm_get (l_nodes L) s = sm_get (l_nodes L) (nodes q)"
    using nodes.remove_get [OF v rs] n by (simp add: fun_upd_idem)
  have q: "quad_remove L q b = (None, q\<lparr>nodes := s\<rparr>)" using rs r by (simp add: quad_remove_def)
  show "fst (quad_remove L q b) = None" by (simp add: q)
  show "quad_get L (snd (quad_remove L q b)) = quad_get L q"
    by (simp add: q quad_get_fun g fun_eq_iff)
  show "quad_wf L (snd (quad_remove L q b))"
    using assms(1) nodes.remove_valid [OF v rs] by (simp add: q quad_wf_def beliefs_def quad_get_fun g)
qed

lemma remove_present:
  assumes "quad_wf L q" "b \<in> beliefs L q"
  obtains s n where "quad_remove L q b = (Some n,
      q\<lparr>nodes := s, semantic := proj_remove_node (l_sem L) (semantic q) b,
        temporal := proj_remove_node (l_tmp L) (temporal q) b,
        causal := proj_remove_node (l_cau L) (causal q) b,
        entity := proj_remove_node (l_ent L) (entity q) b,
        prospective_index := invalidate (prospective_index q) b, version := version q + 1\<rparr>)"
    "quad_get L q b = Some n" "sm_valid (l_nodes L) s"
    "sm_get (l_nodes L) s = (sm_get (l_nodes L) (nodes q))(b := None)"
proof -
  obtain r s where rs: "sm_remove (l_nodes L) (nodes q) b = (r, s)" by (cases "sm_remove (l_nodes L) (nodes q) b")
  note v = wf_valid [OF assms(1)]
  obtain n where n: "sm_get (l_nodes L) (nodes q) b = Some n" using assms(2) by (auto simp: beliefs_def quad_get_fun)
  have "r = Some n" using nodes.remove_result [OF v rs] n by simp
  then show thesis using that [of n s] rs n nodes.remove_valid [OF v rs] nodes.remove_get [OF v rs]
    by (simp add: quad_remove_def graph_ops_defs quad_get_fun)
qed

lemma remove_get:
  assumes "quad_wf L q"
  shows "quad_get L (snd (quad_remove L q b)) = (quad_get L q)(b := None)"
proof (cases "b \<in> beliefs L q")
  case True
  show ?thesis
    by (rule remove_present [OF assms True]) (simp add: quad_get_fun)
next
  case False
  then have "quad_get L q b = None" by (auto simp: beliefs_def)
  then show ?thesis using remove_absent(3) [OF assms False] by (simp add: fun_upd_idem)
qed

lemma remove_beliefs: "quad_wf L q \<Longrightarrow> beliefs L (snd (quad_remove L q b)) = beliefs L q - {b}"
  by (auto simp: beliefs_def remove_get)

lemma remove_result: "quad_wf L q \<Longrightarrow> fst (quad_remove L q b) = quad_get L q b"
proof (cases "b \<in> beliefs L q")
  case True
  assume "quad_wf L q"
  then show ?thesis by (rule remove_present [OF _ True]) simp
next
  case False
  assume "quad_wf L q"
  from remove_absent(1) [OF this False] False show ?thesis
    by (cases "quad_get L q b") (auto simp: beliefs_def)
qed

lemma remove_wf [wf_intros]:
  assumes "quad_wf L q"
  shows "quad_wf L (snd (quad_remove L q b))"
proof (cases "b \<in> beliefs L q")
  case False
  then show ?thesis using remove_absent(2) [OF assms] by simp
next
  case True
  note w = wf_graphs [OF assms] and g = remove_get [OF assms, of b] and B = remove_beliefs [OF assms, of b]
  have ids: "\<forall>c m. quad_get L (snd (quad_remove L q b)) c = Some m \<longrightarrow> id m = c"
    unfolding g using wf_id [OF assms] by simp
  show ?thesis
  proof (rule remove_present [OF assms True])
    fix s n
    assume q': "quad_remove L q b = (Some n,
      q\<lparr>nodes := s, semantic := proj_remove_node (l_sem L) (semantic q) b,
        temporal := proj_remove_node (l_tmp L) (temporal q) b,
        causal := proj_remove_node (l_cau L) (causal q) b,
        entity := proj_remove_node (l_ent L) (entity q) b,
        prospective_index := invalidate (prospective_index q) b, version := version q + 1\<rparr>)"
      and v: "sm_valid (l_nodes L) s"
    show ?thesis unfolding quad_wf_def B
      using ids v sem.proj_remove_node_wf(1) [OF w(1)] tmp.proj_remove_node_wf(1) [OF w(2)]
        cau.proj_remove_node_wf(1) [OF w(3)] ent.proj_remove_node_wf(1) [OF w(4)]
      by (simp add: q')
  qed
qed

lemma remove_edges:
  assumes "quad_wf L q"
  shows "mset (sem_edges L (snd (quad_remove L q b))) = filter_mset (\<lambda>e. \<not> incident b e) (mset (sem_edges L q))"
    and "mset (tmp_edges L (snd (quad_remove L q b))) = filter_mset (\<lambda>e. \<not> incident b e) (mset (tmp_edges L q))"
    and "mset (cau_edges L (snd (quad_remove L q b))) = filter_mset (\<lambda>e. \<not> incident b e) (mset (cau_edges L q))"
    and "mset (ent_edges L (snd (quad_remove L q b))) = filter_mset (\<lambda>e. \<not> incident b e) (mset (ent_edges L q))"
proof -
  note w = wf_graphs [OF assms]
  let ?q = "snd (quad_remove L q b)"
  have eq: "semantic ?q = proj_remove_node (l_sem L) (semantic q) b \<and>
      temporal ?q = proj_remove_node (l_tmp L) (temporal q) b \<and>
      causal ?q = proj_remove_node (l_cau L) (causal q) b \<and>
      entity ?q = proj_remove_node (l_ent L) (entity q) b"
  proof (cases "b \<in> beliefs L q")
    case True
    show ?thesis by (rule remove_present [OF assms True]) simp
  next
    case False
    then have "indices (semantic q) b = None" "indices (temporal q) b = None"
      "indices (causal q) b = None" "indices (entity q) b = None"
      using w by (auto dest!: proj_wf_dom)
    moreover have "fst (sm_remove (l_nodes L) (nodes q) b) = None"
      using remove_absent(1) [OF assms False] by (auto simp: quad_remove_def split: prod.splits option.splits)
    ultimately show ?thesis by (auto simp: quad_remove_def proj_remove_node_def split: prod.splits)
  qed
  show "mset (sem_edges L ?q) = filter_mset (\<lambda>e. \<not> incident b e) (mset (sem_edges L q))"
    "mset (tmp_edges L ?q) = filter_mset (\<lambda>e. \<not> incident b e) (mset (tmp_edges L q))"
    "mset (cau_edges L ?q) = filter_mset (\<lambda>e. \<not> incident b e) (mset (cau_edges L q))"
    "mset (ent_edges L ?q) = filter_mset (\<lambda>e. \<not> incident b e) (mset (ent_edges L q))"
    using eq sem.proj_remove_node_wf(2) [OF w(1)] tmp.proj_remove_node_wf(2) [OF w(2)]
      cau.proj_remove_node_wf(2) [OF w(3)] ent.proj_remove_node_wf(2) [OF w(4)] by simp_all
qed

lemma modify_get:
  assumes "quad_wf L q"
  shows "quad_get L (quad_modify L q b f) = (quad_get L q)(b := map_option f (quad_get L q b))"
  using nodes.write_get [OF wf_valid [OF assms], of b _ "f _"]
  by (auto simp: quad_modify_def quad_get_fun fun_upd_idem split: option.splits)

lemma modify_beliefs: "quad_wf L q \<Longrightarrow> beliefs L (quad_modify L q b f) = beliefs L q"
  by (auto simp: beliefs_def modify_get split: if_splits)

lemma modify_wf [wf_intros]:
  assumes "quad_wf L q" "\<And>n. id (f n) = id n"
  shows "quad_wf L (quad_modify L q b f)"
proof -
  have "sm_valid (l_nodes L) (nodes (quad_modify L q b f))"
    using nodes.write_valid [OF wf_valid [OF assms(1)]] wf_valid [OF assms(1)]
    by (auto simp: quad_modify_def split: option.splits)
  moreover have "semantic (quad_modify L q b f) = semantic q" "temporal (quad_modify L q b f) = temporal q"
    "causal (quad_modify L q b f) = causal q" "entity (quad_modify L q b f) = entity q"
    by (simp_all add: quad_modify_def split: option.splits)
  ultimately show ?thesis
    using assms unfolding quad_wf_def modify_beliefs [OF assms(1)] modify_get [OF assms(1)]
    by (auto split: if_splits)
qed

lemma frame_get:
  "quad_get L (q\<lparr>semantic := x\<rparr>) = quad_get L q" "quad_get L (q\<lparr>temporal := y\<rparr>) = quad_get L q"
  "quad_get L (q\<lparr>causal := z\<rparr>) = quad_get L q" "quad_get L (q\<lparr>entity := u\<rparr>) = quad_get L q"
  by (simp_all add: quad_get_fun)

lemma add_edge_wf [wf_intros]:
  assumes "quad_wf L q"
  shows "quad_wf L (add_semantic_edge L q a b se)" "quad_wf L (add_temporal_edge L q a b te)"
    "quad_wf L (add_causal_edge L q a b ce)" "quad_wf L (add_entity_edge L q a b ee)"
  using assms wf_graphs [OF assms]
  by (simp_all add: quad_wf_def beliefs_def frame_get graph_ops_defs sg_add_edge_twice
      add_semantic_edge_def add_temporal_edge_def add_causal_edge_def add_entity_edge_def
      sem.proj_add_edge_wf(1) tmp.proj_add_edge_wf(1) cau.proj_add_edge_wf(1) ent.proj_add_edge_wf(1))

lemma add_causal_edge_edges:
  "quad_wf L q \<Longrightarrow> mset (cau_edges L (add_causal_edge L q a b e)) =
     (if a \<in> beliefs L q \<and> b \<in> beliefs L q then add_mset (a, b, e) (mset (cau_edges L q))
      else mset (cau_edges L q))"
  by (simp add: add_causal_edge_def cg_add_edge_def cau.proj_add_edge_wf(2) wf_graphs)

lemma add_semantic_edge_edges:
  assumes "quad_wf L q"
  shows "mset (sem_edges L (add_semantic_edge L q a b e)) =
     (if a \<in> beliefs L q \<and> b \<in> beliefs L q
      then (if e = Subsumes then {#} else {#(b, a, e)#}) + {#(a, b, e)#} + mset (sem_edges L q)
      else mset (sem_edges L q))"
proof -
  note w = wf_graphs(1) [OF assms]
  have i: "indices (semantic q) c = None \<longleftrightarrow> c \<notin> beliefs L q" for c using proj_wf_dom [OF w] by auto
  show ?thesis
    by (cases e) (simp_all add: add_semantic_edge_def sg_add_edge_twice i
        sem.proj_add_edge_wf(2) [OF sem.proj_add_edge_wf(1) [OF w]] sem.proj_add_edge_wf(2) [OF w])
qed

lemma contradiction_iff:
  assumes "quad_wf L q"
  shows "check_contradiction L q b v \<longleftrightarrow>
     (\<exists>n. quad_get L q b = Some n \<and>
       (fst (value_contradicts_semantic (embedding_provider q) (semantic_equivalence q) (value n) v) \<or>
        (\<exists>c. (b, c, Contradicts) \<in> set (sem_edges L q))))"
proof -
  have "has_contradiction_edges (l_sem L) (semantic q) b \<longleftrightarrow>
      (\<exists>e \<in> set (proj_out (l_sem L) (semantic q) b). snd e = Contradicts)"
    by (cases "indices (semantic q) b")
      (simp_all add: has_contradiction_edges_def proj_out_def case_prod_beta)
  then have "has_contradiction_edges (l_sem L) (semantic q) b \<longleftrightarrow>
      (\<exists>c. (b, c, Contradicts) \<in> set (sem_edges L q))"
    by (auto simp: sem.proj_out_set [OF wf_graphs(1) [OF assms]])
  then show ?thesis
    by (auto simp: check_contradiction_def check_contradiction_traced_def quad_get_fun
        split: option.splits prod.splits)
qed

lemma len_card: "quad_wf L q \<Longrightarrow> quad_len L q = card (beliefs L q)"
  by (simp add: quad_len_def beliefs_def quad_get_fun nodes.len_card wf_valid)

lemma iter_mem: "quad_wf L q \<Longrightarrow> (b, n) \<in> set (quad_iter L q) \<longleftrightarrow> quad_get L q b = Some n"
  by (simp add: quad_iter_def quad_get_fun nodes.iter_mem wf_valid)

lemma decay_factor_unit: "funit (decay_factor L q b current)"
  using compute_decay_unit [OF exp_number] by (simp add: decay_factor_def split: option.split)

lemma descendants:
  assumes "quad_wf L q"
  shows "descendants_of (l_cau L) (causal q) b = (proj_rel (l_cau L) (causal q))\<^sup>* `` {b} - {b}"
    and "ancestors_of (l_cau L) (causal q) b = ((proj_rel (l_cau L) (causal q))\<inverse>)\<^sup>* `` {b} - {b}"
proof -
  note w = wf_graphs(3) [OF assms]
  have "descendants_of (l_cau L) (causal q) b = (proj_rel (l_cau L) (causal q))\<^sup>* `` {b} - {b} \<and>
    ancestors_of (l_cau L) (causal q) b = ((proj_rel (l_cau L) (causal q))\<inverse>)\<^sup>* `` {b} - {b}"
  proof (cases "indices (causal q) b")
    case (Some i)
    then show ?thesis using cau.dfs_tail [OF w Some]
      by (simp add: descendants_of_def ancestors_of_def)
  next
    case None
    then have "b \<notin> beliefs L q" using proj_wf_dom [OF w] by auto
    then have no: "(b, c) \<notin> proj_rel (l_cau L) (causal q)" "(c, b) \<notin> proj_rel (l_cau L) (causal q)" for c
      using cau.proj_edges_ends [OF w] by (auto simp: proj_rel_def)
    have "(b, c) \<in> R\<^sup>* \<Longrightarrow> (\<And>d. (b, d) \<notin> R) \<Longrightarrow> c = b" for c R
      by (erule converse_rtranclE) auto
    with no None show ?thesis by (auto simp: descendants_of_def ancestors_of_def)
  qed
  then show "descendants_of (l_cau L) (causal q) b = (proj_rel (l_cau L) (causal q))\<^sup>* `` {b} - {b}"
    and "ancestors_of (l_cau L) (causal q) b = ((proj_rel (l_cau L) (causal q))\<inverse>)\<^sup>* `` {b} - {b}" by blast+
qed

lemma cau_rel_ends: "quad_wf L q \<Longrightarrow> (a, b) \<in> proj_rel (l_cau L) (causal q) \<Longrightarrow> a \<in> beliefs L q \<and> b \<in> beliefs L q"
  using cau.proj_edges_ends [OF wf_graphs(3)] by (auto simp: proj_rel_def)

lemma descendants_beliefs: "quad_wf L q \<Longrightarrow> descendants_of (l_cau L) (causal q) b \<subseteq> beliefs L q"
proof
  fix c assume w: "quad_wf L q" and "c \<in> descendants_of (l_cau L) (causal q) b"
  then have "(b, c) \<in> (proj_rel (l_cau L) (causal q))\<^sup>*" "c \<noteq> b" by (simp_all add: descendants)
  then obtain a where "(a, c) \<in> proj_rel (l_cau L) (causal q)" by (metis rtranclE)
  then show "c \<in> beliefs L q" using cau_rel_ends [OF w] by blast
qed

lemma premises_set:
  assumes "quad_wf L q"
  shows "ps \<in> set (inferred_from_premises (l_cau L) (causal q) b) \<longleftrightarrow>
     (\<exists>a. (a, b, InferredFrom ps) \<in> set (cau_edges L q))"
proof -
  have "(case w of InferredFrom ps \<Rightarrow> Some ps | _ \<Rightarrow> None) = Some ps \<longleftrightarrow> w = InferredFrom ps" for w
    by (cases w) auto
  then show ?thesis
    by (auto simp: premises_proj_in set_filter_map cau.proj_in_set [OF wf_graphs(3) [OF assms]])
qed

end

section \<open>An instance\<close>

text \<open>
  The reference libraries together, with sorted enumeration of sets and a step function in the
  place of the exponential.
\<close>

definition ref_exp :: "f64 \<Rightarrow> f64" where
  "ref_exp x = (if x = NaN then NaN else if fle (Fin 0) x then Fin 1 else Fin (1 / 2))"

definition ref_lib ::
  "(belief_node slots, semantic_edge edge_list, temporal_edge edge_list, causal_edge edge_list,
    entity_edge edge_list) lib" where
  "ref_lib = \<lparr>l_nodes = slots_ops, l_sem = edge_list_ops, l_tmp = edge_list_ops,
     l_cau = edge_list_ops, l_ent = edge_list_ops, l_exp = ref_exp, l_ord = sorted_list_of_set\<rparr>"

lemma ref_lib_simps [simp]:
  "l_nodes ref_lib = slots_ops" "l_sem ref_lib = edge_list_ops" "l_tmp ref_lib = edge_list_ops"
  "l_cau ref_lib = edge_list_ops" "l_ent ref_lib = edge_list_ops" "l_exp ref_lib = ref_exp"
  "l_ord ref_lib = sorted_list_of_set"
  by (simp_all add: ref_lib_def)

interpretation ref: belief_lib ref_lib
  by (rule belief_lib.intro)
    (simp_all add: slots_sm.slot_map_axioms edge_list_gr.stable_digraph_axioms belief_lib_axioms_def
      ref_exp_def)

lemma ref_belief_lib: "belief_lib ref_lib"
  by (rule ref.belief_lib_axioms)

text \<open>
  A small quad on the reference libraries: three premises \<open>a\<close>, \<open>b\<close>, \<open>c\<close> and a conclusion
  with two independent supports, \<open>a\<close> with \<open>c\<close> and \<open>a\<close> with \<open>b\<close>.
\<close>

definition demo_node :: "string \<Rightarrow> rat \<Rightarrow> belief_node" where
  "demo_node k x =
     with_reflection_threshold (belief_node_new 0 k (Asserted k) (UserStatement 0) (Fin x)) (Fin (1 / 8))"

abbreviation "key_a \<equiv> Key 0 1"
abbreviation "key_b \<equiv> Key 1 1"
abbreviation "key_c \<equiv> Key 2 1"
abbreviation "key_concl \<equiv> Key 3 1"

definition demo_add where
  "demo_add n q = snd (quad_insert ref_lib q n)"

definition demo_nodes where
  "demo_nodes = demo_add (demo_node ''concl'' (1 / 2)) (demo_add (demo_node ''c'' (3 / 4))
     (demo_add (demo_node ''b'' (3 / 8)) (demo_add (demo_node ''a'' (1 / 2)) (quad_new ref_lib))))"

definition demo_quad where
  "demo_quad =
     add_causal_edge ref_lib (add_causal_edge ref_lib demo_nodes key_b key_concl (InferredFrom [key_a, key_b]))
       key_c key_concl (InferredFrom [key_a, key_c])"

lemma demo_add_wf: "quad_wf ref_lib q \<Longrightarrow> quad_wf ref_lib (demo_add n q)"
  unfolding demo_add_def by (rule ref.insert_wf [OF _ prod.collapse [symmetric]])

lemma demo_wf: "quad_wf ref_lib demo_nodes" "quad_wf ref_lib demo_quad"
  unfolding demo_quad_def demo_nodes_def
  by (intro ref.add_edge_wf demo_add_wf ref.new_wf)+

text \<open>The same quad written out, from which evaluation starts.\<close>

definition demo_at :: "string \<Rightarrow> rat \<Rightarrow> belief_id \<Rightarrow> belief_node" where
  "demo_at k x b = \<lparr>id = b, key = k, value = Asserted k, provenance = UserStatement 0,
     created_at_ms = 0, ttl_ms = None, fast_confidence = Fin x, slow_confidence = None,
     reflection_threshold = Fin (1 / 8), prospect = False\<rparr>"

definition demo_proj :: "(nat \<times> nat \<times> 'w) list \<Rightarrow> 'w edge_list projection" where
  "demo_proj es =
     \<lparr>graph = \<lparr>el_nodes = [(3, key_concl), (2, key_c), (1, key_b), (0, key_a)], el_next = 4, el_edges = es\<rparr>,
      indices = [key_a \<mapsto> 0, key_b \<mapsto> 1, key_c \<mapsto> 2, key_concl \<mapsto> 3]\<rparr>"

definition demo_slots where
  "demo_slots = \<lparr>sl_slots = [(1, Some (demo_at ''a'' (1 / 2) key_a)), (1, Some (demo_at ''b'' (3 / 8) key_b)),
      (1, Some (demo_at ''c'' (3 / 4) key_c)), (1, Some (demo_at ''concl'' (1 / 2) key_concl))], sl_free = []\<rparr>"

lemma demo_node_at: "0 \<le> x \<Longrightarrow> x \<le> 1 \<Longrightarrow> (demo_node k x)\<lparr>id := b\<rparr> = demo_at k x b"
  by (simp add: demo_node_def demo_at_def belief_node_new_def with_reflection_threshold_def)

lemma slots_insert_nil:
  "slots_insert \<lparr>sl_slots = xs, sl_free = []\<rparr> f =
     (Key (length xs) 1, \<lparr>sl_slots = xs @ [(1, Some (f (Key (length xs) 1)))], sl_free = []\<rparr>)"
  by (simp add: slots_insert_def Let_def)

lemma demo_nodes_eq [code]:
  "demo_nodes = \<lparr>nodes = demo_slots, semantic = demo_proj [], temporal = demo_proj [], causal = demo_proj [],
     entity = demo_proj [], version = 4, prospective_index = pi_new, embedding_provider = None,
     semantic_equivalence = semantic_equivalence_default\<rparr>"
  by (simp add: demo_nodes_def demo_add_def quad_insert_def quad_new_def graph_ops_defs proj_new_def
      proj_add_node_def slots_ops_def edge_list_ops_def el_defs slots_new_def slots_insert_nil demo_node_at
      demo_slots_def demo_proj_def numeral_2_eq_2 numeral_3_eq_3 eval_nat_numeral)

lemma demo_quad_eq [code]:
  "demo_quad = \<lparr>nodes = demo_slots, semantic = demo_proj [], temporal = demo_proj [],
     causal = demo_proj [(2, 3, InferredFrom [key_a, key_c]), (1, 3, InferredFrom [key_a, key_b])],
     entity = demo_proj [], version = 4, prospective_index = pi_new, embedding_provider = None,
     semantic_equivalence = semantic_equivalence_default\<rparr>"
  by (simp add: demo_quad_def demo_nodes_eq add_causal_edge_def cg_add_edge_def proj_add_edge_def
      demo_proj_def edge_list_ops_def el_defs)

end
