(* ===== verification/Revision.thy ===== *)
theory Revision
  imports Belief_Quad
begin

text \<open>
  AGM revision of a belief (\<open>epica-core/src/revision\<close>): the postulate audit, the contraction
  set and \<open>revise\<close>. The clock and the fresh revision id are arguments. A revision returns its
  result with the state it leaves, since it may fail after the contraction.
\<close>

section \<open>The postulate audit\<close>

record postulate_audit =
  success :: bool
  inclusion :: bool
  vacuity :: bool
  consistency :: bool
  extensionality :: bool
  verdict_trace :: verdict_trace
  extensionality_witness :: "belief_id option"

definition is_self_contradictory :: "belief_value \<Rightarrow> bool" where
  "is_self_contradictory v = (case v of Deterministic j \<Rightarrow> json_is_null j \<and> False | _ \<Rightarrow> False)"

text \<open>The loop of \<open>check_extensionality\<close> over the beliefs of the quad.\<close>

primrec scan_paraphrases ::
  "provider \<Rightarrow> semantic_equivalence \<Rightarrow> f32 list \<Rightarrow> belief_value \<Rightarrow> bool \<Rightarrow> bool \<Rightarrow> belief_id \<Rightarrow>
     (belief_id \<times> belief_node) list \<Rightarrow> bool \<times> belief_id option" where
  "scan_paraphrases p e new_emb target edges expected b [] = (True, None)"
| "scan_paraphrases p e new_emb target edges expected b (x # xs) =
     (let next = scan_paraphrases p e new_emb target edges expected b xs
      in if fst x = b then next
         else (case value (snd x) of
           Asserted other_text \<Rightarrow>
             (case p other_text of
                None \<Rightarrow> next
              | Some other_emb \<Rightarrow>
                  (case classify e new_emb other_emb of
                     Equivalent _ \<Rightarrow>
                       let alt_total = fst (value_contradicts_semantic (Some p) e target (Asserted other_text)) \<or> edges
                       in if alt_total \<noteq> expected then (False, Some (fst x)) else next
                   | _ \<Rightarrow> next))
         | _ \<Rightarrow> next))"

definition check_extensionality ::
  "('s, 'a, 'b, 'c, 'd) lib \<Rightarrow> ('s, 'a, 'b, 'c, 'd, 'z) quad_scheme \<Rightarrow> belief_id \<Rightarrow> belief_value \<Rightarrow> bool \<Rightarrow>
     bool \<times> belief_id option" where
  "check_extensionality L q b new expected =
     (case embedding_provider q of
        None \<Rightarrow> (True, None)
      | Some p \<Rightarrow>
          (case new of
             Asserted new_text \<Rightarrow>
               (case p new_text of
                  None \<Rightarrow> (True, None)
                | Some new_emb \<Rightarrow>
                    (case quad_get L q b of
                       None \<Rightarrow> (True, None)
                     | Some target \<Rightarrow>
                         scan_paraphrases p (semantic_equivalence q) new_emb (value target)
                           (has_contradiction_edges (l_sem L) (semantic q) b) expected b (quad_iter L q)))
           | _ \<Rightarrow> (True, None)))"

definition audit_verify ::
  "('s, 'a, 'b, 'c, 'd) lib \<Rightarrow> ('s, 'a, 'b, 'c, 'd, 'z) quad_scheme \<Rightarrow> belief_id \<Rightarrow> belief_value \<Rightarrow> bool \<Rightarrow>
     verdict_trace \<Rightarrow> postulate_audit" where
  "audit_verify L q b new contradicts_current trace =
     (let belief_exists = (quad_get L q b \<noteq> None);
          ext = check_extensionality L q b new contradicts_current
      in \<lparr>success = belief_exists, inclusion = belief_exists, vacuity = \<not> contradicts_current,
          consistency = \<not> is_self_contradictory new, extensionality = fst ext,
          verdict_trace = trace, extensionality_witness = snd ext\<rparr>)"

definition all_critical_pass :: "postulate_audit \<Rightarrow> bool" where
  "all_critical_pass a \<longleftrightarrow> success a \<and> inclusion a \<and> consistency a \<and> extensionality a"

definition failed_postulate_name :: "postulate_audit \<Rightarrow> string" where
  "failed_postulate_name a =
     (if \<not> success a then ''K*2 (success)''
      else if \<not> inclusion a then ''K*3 (inclusion)''
      else if \<not> consistency a then ''K*5 (consistency)''
      else if \<not> extensionality a then ''K*6 (extensionality)''
      else ''none'')"

section \<open>Records and errors\<close>

record revision_record =
  revision_id :: uuid
  belief_id_of :: belief_id
  old_value :: belief_value
  new_value :: belief_value
  old_confidence :: f32
  new_confidence :: f32
  contracted :: "belief_id set"
  postulate_audit_of :: postulate_audit
  timestamp_ms :: u64
  from_version :: u64
  to_version :: u64

definition is_expansion :: "revision_record \<Rightarrow> bool" where
  "is_expansion r \<longleftrightarrow> contracted r = {}"

datatype revision_error =
    BeliefNotFound
  | InconsistentRevision
  | PostulateViolation string

section \<open>Contraction\<close>

text \<open>\<open>min_by_key\<close>: the first of the least elements.\<close>

fun min_by_key :: "('x \<Rightarrow> fl) \<Rightarrow> 'x list \<Rightarrow> 'x option" where
  "min_by_key f [] = None"
| "min_by_key f (x # xs) =
     (case min_by_key f xs of None \<Rightarrow> Some x | Some y \<Rightarrow> Some (if fle (f x) (f y) then x else y))"

definition premise_confidence ::
  "('s, 'a, 'b, 'c, 'd) lib \<Rightarrow> ('s, 'a, 'b, 'c, 'd, 'z) quad_scheme \<Rightarrow> belief_id \<Rightarrow> f32" where
  "premise_confidence L q b =
     (let conf = (case sm_get (l_nodes L) (nodes q) b of Some n \<Rightarrow> fast_confidence n | None \<Rightarrow> Fin 0)
      in if conf = NaN then Fin 0 else conf)"

definition minimal_contraction_set ::
  "('s, 'a, 'b, 'c, 'd) lib \<Rightarrow> ('s, 'a, 'b, 'c, 'd, 'z) quad_scheme \<Rightarrow> belief_id \<Rightarrow> belief_id set" where
  "minimal_contraction_set L q b =
     set (filter_map (min_by_key (premise_confidence L q)) (inferred_from_premises (l_cau L) (causal q) b))"

definition apply_contraction ::
  "('s, 'a, 'b, 'c, 'd) lib \<Rightarrow> ('s, 'a, 'b, 'c, 'd, 'z) quad_scheme \<Rightarrow> belief_id set \<Rightarrow>
     ('s, 'a, 'b, 'c, 'd, 'z) quad_scheme" where
  "apply_contraction L q S = fold (\<lambda>b q. snd (quad_remove L q b)) (l_ord L S) q"

section \<open>Revision\<close>

definition expand_only ::
  "('s, 'a, 'b, 'c, 'd) lib \<Rightarrow> uuid \<Rightarrow> u64 \<Rightarrow> ('s, 'a, 'b, 'c, 'd, 'z) quad_scheme \<Rightarrow> belief_id \<Rightarrow> belief_value \<Rightarrow>
     provenance \<Rightarrow> f32 \<Rightarrow> postulate_audit \<Rightarrow>
     (revision_error + revision_record) \<times> ('s, 'a, 'b, 'c, 'd, 'z) quad_scheme" where
  "expand_only L u now q b v p c audit =
     (case quad_get L q b of
        None \<Rightarrow> (Inl BeliefNotFound, q)
      | Some node \<Rightarrow>
          let q1 = quad_modify L q b (\<lambda>n. n\<lparr>value := v, provenance := p, fast_confidence := clamp01 c\<rparr>);
              q2 = q1\<lparr>version := version q1 + 1, prospective_index := invalidate (prospective_index q1) b\<rparr>
          in (Inr \<lparr>revision_id = u, belief_id_of = b, old_value = value node, new_value = v,
                   old_confidence = fast_confidence node, new_confidence = c, contracted = {},
                   postulate_audit_of = audit, timestamp_ms = now, from_version = version q,
                   to_version = version q2\<rparr>, q2))"

definition contract_expand ::
  "('s, 'a, 'b, 'c, 'd) lib \<Rightarrow> uuid \<Rightarrow> u64 \<Rightarrow> ('s, 'a, 'b, 'c, 'd, 'z) quad_scheme \<Rightarrow> belief_id \<Rightarrow> belief_value \<Rightarrow>
     provenance \<Rightarrow> f32 \<Rightarrow> postulate_audit \<Rightarrow>
     (revision_error + revision_record) \<times> ('s, 'a, 'b, 'c, 'd, 'z) quad_scheme" where
  "contract_expand L u now q b v p c audit =
     (let contraction_set = minimal_contraction_set L q b;
          q1 = apply_contraction L q contraction_set;
          old_version = version q1
      in (case quad_get L q1 b of
            None \<Rightarrow> (Inl BeliefNotFound, q1)
          | Some node \<Rightarrow>
              let q2 = quad_modify L q1 b (\<lambda>n. n\<lparr>value := v, provenance := p,
                         fast_confidence := clamp01 c, slow_confidence := None\<rparr>);
                  q3 = q2\<lparr>version := version q2 + 1, prospective_index := invalidate (prospective_index q2) b\<rparr>
              in (Inr \<lparr>revision_id = u, belief_id_of = b, old_value = value node, new_value = v,
                       old_confidence = fast_confidence node, new_confidence = c,
                       contracted = contraction_set, postulate_audit_of = audit, timestamp_ms = now,
                       from_version = old_version, to_version = version q3\<rparr>, q3)))"

definition revise ::
  "('s, 'a, 'b, 'c, 'd) lib \<Rightarrow> uuid \<Rightarrow> u64 \<Rightarrow> ('s, 'a, 'b, 'c, 'd, 'z) quad_scheme \<Rightarrow> belief_id \<Rightarrow> belief_value \<Rightarrow>
     provenance \<Rightarrow> f32 \<Rightarrow> (revision_error + revision_record) \<times> ('s, 'a, 'b, 'c, 'd, 'z) quad_scheme" where
  "revise L u now q b v p c =
     (if quad_get L q b = None then (Inl BeliefNotFound, q)
      else (case check_contradiction_traced L q b v of
        (contradicts, trace) \<Rightarrow>
          let audit = audit_verify L q b v contradicts trace
          in if \<not> all_critical_pass audit
             then (Inl (PostulateViolation (failed_postulate_name audit)), q)
             else if \<not> contradicts then expand_only L u now q b v p c audit
             else contract_expand L u now q b v p c audit))"

section \<open>Choosing the weakest premise\<close>

lemma min_by_key_None: "min_by_key f xs = None \<longleftrightarrow> xs = []"
  by (cases xs) (auto split: option.splits)

lemma min_by_key_least:
  assumes "\<forall>x \<in> set xs. f x \<noteq> NaN" "min_by_key f xs = Some y"
  shows "y \<in> set xs \<and> (\<forall>x \<in> set xs. fle (f y) (f x))"
  using assms
proof (induction xs arbitrary: y)
  case (Cons x xs)
  show ?case
  proof (cases "min_by_key f xs")
    case None
    then have "xs = []" by (simp add: min_by_key_None)
    then show ?thesis using Cons.prems by (simp add: fle_refl)
  next
    case (Some z)
    then have z: "z \<in> set xs" "\<forall>x \<in> set xs. fle (f z) (f x)" using Cons by auto
    have "fle (f x) (f z) \<or> fle (f z) (f x)" using fle_total Cons.prems z(1) by auto
    then show ?thesis using Some Cons.prems z
      by (auto simp: fle_refl split: if_splits intro: fle_trans)
  qed
qed simp

lemma premise_confidence_number [simp]: "premise_confidence L q b \<noteq> NaN"
  by (simp add: premise_confidence_def Let_def)

lemma contraction_mem:
  "x \<in> minimal_contraction_set L q b \<longleftrightarrow>
     (\<exists>ps \<in> set (inferred_from_premises (l_cau L) (causal q) b).
        min_by_key (premise_confidence L q) ps = Some x)"
  by (simp add: minimal_contraction_set_def set_filter_map)

text \<open>Every support path loses its weakest premise, and nothing else is contracted.\<close>

lemma contraction_hits:
  assumes "ps \<in> set (inferred_from_premises (l_cau L) (causal q) b)" "ps \<noteq> []"
  shows "\<exists>x \<in> set ps. x \<in> minimal_contraction_set L q b \<and>
    (\<forall>y \<in> set ps. fle (premise_confidence L q x) (premise_confidence L q y))"
proof -
  obtain x where x: "min_by_key (premise_confidence L q) ps = Some x"
    using assms(2) min_by_key_None by (metis not_Some_eq)
  then show ?thesis using min_by_key_least [OF _ x] assms(1) by (auto simp: contraction_mem)
qed

lemma contraction_from_premises:
  "x \<in> minimal_contraction_set L q b \<Longrightarrow>
   \<exists>ps \<in> set (inferred_from_premises (l_cau L) (causal q) b). x \<in> set ps \<and>
     (\<forall>y \<in> set ps. fle (premise_confidence L q x) (premise_confidence L q y))"
  unfolding contraction_mem using min_by_key_least [of _ "premise_confidence L q"] by auto

lemma contraction_small:
  "card (minimal_contraction_set L q b) \<le> length (inferred_from_premises (l_cau L) (causal q) b)"
  unfolding minimal_contraction_set_def
  using card_length length_filter_map_le le_trans by blast

lemma finite_contraction [simp]: "finite (minimal_contraction_set L q b)"
  by (simp add: minimal_contraction_set_def)

section \<open>Extensionality\<close>

text \<open>
  Extensionality (K*6): the audit of a revision to an asserted text passes exactly when
  every other belief the provider classifies as a paraphrase of it would give the same
  contradiction verdict.
\<close>

theorem extensionality_exact:
  "fst (scan_paraphrases p e new_emb target edges expected b xs) \<longleftrightarrow>
     (\<forall>x \<in> set xs. \<forall>t emb s. fst x \<noteq> b \<and> value (snd x) = Asserted t \<and> p t = Some emb \<and>
        classify e new_emb emb = Equivalent s \<longrightarrow>
        (fst (value_contradicts_semantic (Some p) e target (Asserted t)) \<or> edges) = expected)"
proof (induction xs)
  case Nil
  show ?case by simp
next
  case (Cons x xs)
  show ?case
    by (cases "value (snd x)") (auto simp: Cons Let_def split: option.splits equivalence_verdict.splits)
qed

text \<open>Another belief paraphrases the new text and would contradict the belief revised.\<close>

definition paraphrase_conflict ::
  "('s, 'a, 'b, 'c, 'd) lib \<Rightarrow> ('s, 'a, 'b, 'c, 'd, 'z) quad_scheme \<Rightarrow> belief_id \<Rightarrow> belief_value \<Rightarrow> bool" where
  "paraphrase_conflict L q b v \<longleftrightarrow>
     (\<exists>p t emb target a n t' emb' s. embedding_provider q = Some p \<and> v = Asserted t \<and> p t = Some emb \<and>
        quad_get L q b = Some target \<and> a \<noteq> b \<and> quad_get L q a = Some n \<and> value n = Asserted t' \<and>
        p t' = Some emb' \<and> classify (semantic_equivalence q) emb emb' = Equivalent s \<and>
        fst (value_contradicts_semantic (Some p) (semantic_equivalence q) (value target) (Asserted t')))"

section \<open>Laws of contraction and revision\<close>

lemma fold_remove_frame:
  "embedding_provider (fold (\<lambda>b q. snd (quad_remove L q b)) bs q) = embedding_provider q \<and>
   semantic_equivalence (fold (\<lambda>b q. snd (quad_remove L q b)) bs q) = semantic_equivalence q"
  by (induction bs arbitrary: q) (simp_all add: quad_remove_def split: prod.split option.split)

text \<open>Contraction drops exactly the edges at the contracted beliefs, in all four graphs.\<close>

definition keeps_edges :: "belief_id set \<Rightarrow> (belief_id \<times> belief_id \<times> 'w) list \<Rightarrow> (belief_id \<times> belief_id \<times> 'w) list \<Rightarrow> bool" where
  "keeps_edges S es fs \<longleftrightarrow> mset fs = filter_mset (\<lambda>e. \<forall>b \<in> S. \<not> incident b e) (mset es)"

lemma keeps_edges_empty [simp]: "keeps_edges {} es es"
  by (simp add: keeps_edges_def)

lemma keeps_edges_insert:
  "mset fs = filter_mset (\<lambda>e. \<not> incident b e) (mset es) \<Longrightarrow> keeps_edges S fs gs \<Longrightarrow> keeps_edges (insert b S) es gs"
  by (simp add: keeps_edges_def filter_filter_mset conj_commute)

context belief_lib
begin

lemma fold_remove:
  assumes "quad_wf L q"
  shows "quad_wf L (fold (\<lambda>b q. snd (quad_remove L q b)) bs q) \<and>
    quad_get L (fold (\<lambda>b q. snd (quad_remove L q b)) bs q) = (quad_get L q) |` (- set bs)"
  using assms
proof (induction bs arbitrary: q)
  case Nil
  then show ?case by simp
next
  case (Cons b bs)
  have eq: "((quad_get L q)(b := None)) |` (- set bs) = (quad_get L q) |` (- set (b # bs))"
    by (rule ext) (simp add: restrict_map_def)
  show ?case using Cons.IH [OF remove_wf [OF Cons.prems, of b]]
    unfolding remove_get [OF Cons.prems] eq by simp
qed

lemma contraction_wf [wf_intros]:
  "quad_wf L q \<Longrightarrow> finite S \<Longrightarrow> quad_wf L (apply_contraction L q S)"
  by (simp add: apply_contraction_def fold_remove)

lemma contraction_get:
  "quad_wf L q \<Longrightarrow> finite S \<Longrightarrow> quad_get L (apply_contraction L q S) = (quad_get L q) |` (- S)"
  by (simp add: apply_contraction_def fold_remove ord)

lemma fold_remove_edges:
  assumes "quad_wf L q"
  shows "let q' = fold (\<lambda>b q. snd (quad_remove L q b)) bs q in
    keeps_edges (set bs) (sem_edges L q) (sem_edges L q') \<and> keeps_edges (set bs) (tmp_edges L q) (tmp_edges L q') \<and>
    keeps_edges (set bs) (cau_edges L q) (cau_edges L q') \<and> keeps_edges (set bs) (ent_edges L q) (ent_edges L q')"
  using assms
proof (induction bs arbitrary: q)
  case (Cons b bs)
  note e = remove_edges [OF Cons.prems, of b, THEN keeps_edges_insert [of _ b _ "set bs"]]
  show ?case using Cons.IH [OF remove_wf [OF Cons.prems, of b]] by (simp add: Let_def e)
qed simp

lemma contraction_edges:
  assumes "quad_wf L q" "finite S"
  shows "keeps_edges S (sem_edges L q) (sem_edges L (apply_contraction L q S))"
    "keeps_edges S (tmp_edges L q) (tmp_edges L (apply_contraction L q S))"
    "keeps_edges S (cau_edges L q) (cau_edges L (apply_contraction L q S))"
    "keeps_edges S (ent_edges L q) (ent_edges L (apply_contraction L q S))"
  using fold_remove_edges [OF assms(1), of "l_ord L S"] ord [OF assms(2)]
  by (simp_all add: apply_contraction_def Let_def)

lemma update_wf:
  assumes "quad_wf L q" "\<And>n. id (f n) = id n"
  shows "quad_wf L ((quad_modify L q b f)\<lparr>version := x, prospective_index := y\<rparr>)"
  using modify_wf [OF assms, of b] by (simp add: quad_wf_def beliefs_def quad_get_fun)

lemma expand_only_spec:
  assumes "quad_wf L q" "quad_get L q b = Some n"
  obtains q' where "expand_only L u now q b v p c audit =
      (Inr \<lparr>revision_id = u, belief_id_of = b, old_value = value n, new_value = v,
            old_confidence = fast_confidence n, new_confidence = c, contracted = {},
            postulate_audit_of = audit, timestamp_ms = now, from_version = version q,
            to_version = version q + 1\<rparr>, q')"
    "quad_wf L q'" "version q' = version q + 1"
    "quad_get L q' = (quad_get L q)(b \<mapsto> n\<lparr>value := v, provenance := p, fast_confidence := clamp01 c\<rparr>)"
proof -
  let ?f = "\<lambda>n :: belief_node. n\<lparr>value := v, provenance := p, fast_confidence := clamp01 c\<rparr>"
  let ?m = "quad_modify L q b ?f"
  have ver: "version ?m = version q" by (simp add: quad_modify_def split: option.split)
  show thesis
  proof (rule that)
    show "expand_only L u now q b v p c audit =
      (Inr \<lparr>revision_id = u, belief_id_of = b, old_value = value n, new_value = v,
            old_confidence = fast_confidence n, new_confidence = c, contracted = {},
            postulate_audit_of = audit, timestamp_ms = now, from_version = version q,
            to_version = version q + 1\<rparr>,
       ?m\<lparr>version := version ?m + 1, prospective_index := invalidate (prospective_index ?m) b\<rparr>)"
      using assms(2) by (simp add: expand_only_def Let_def ver)
    show "quad_wf L (?m\<lparr>version := version ?m + 1, prospective_index := invalidate (prospective_index ?m) b\<rparr>)"
      by (rule update_wf [OF assms(1)]) simp
    show "quad_get L (?m\<lparr>version := version ?m + 1, prospective_index := invalidate (prospective_index ?m) b\<rparr>) =
      (quad_get L q)(b \<mapsto> ?f n)"
      using modify_get [OF assms(1), of b ?f] assms(2) by (simp add: quad_get_fun)
  qed (simp add: ver)
qed

lemma contract_expand_spec:
  assumes "quad_wf L q" "quad_get L q b = Some n" "b \<notin> minimal_contraction_set L q b"
  obtains q' w where "contract_expand L u now q b v p c audit =
      (Inr \<lparr>revision_id = u, belief_id_of = b, old_value = value n, new_value = v,
            old_confidence = fast_confidence n, new_confidence = c,
            contracted = minimal_contraction_set L q b,
            postulate_audit_of = audit, timestamp_ms = now, from_version = w, to_version = w + 1\<rparr>, q')"
    "quad_wf L q'" "version q' = w + 1"
    "quad_get L q' = ((quad_get L q) |` (- minimal_contraction_set L q b))
       (b \<mapsto> n\<lparr>value := v, provenance := p, fast_confidence := clamp01 c, slow_confidence := None\<rparr>)"
    "causal q' = causal (apply_contraction L q (minimal_contraction_set L q b))"
proof -
  let ?S = "minimal_contraction_set L q b"
  let ?q1 = "apply_contraction L q ?S"
  let ?f = "\<lambda>n :: belief_node. n\<lparr>value := v, provenance := p, fast_confidence := clamp01 c, slow_confidence := None\<rparr>"
  let ?m = "quad_modify L ?q1 b ?f"
  have w1: "quad_wf L ?q1" using contraction_wf [OF assms(1)] by simp
  have g1: "quad_get L ?q1 = (quad_get L q) |` (- ?S)" using contraction_get [OF assms(1)] by simp
  then have b1: "quad_get L ?q1 b = Some n" using assms(2,3) by simp
  have ver: "version ?m = version ?q1" "causal ?m = causal ?q1"
    by (simp_all add: quad_modify_def split: option.split)
  show thesis
  proof (rule that)
    show "contract_expand L u now q b v p c audit =
      (Inr \<lparr>revision_id = u, belief_id_of = b, old_value = value n, new_value = v,
            old_confidence = fast_confidence n, new_confidence = c, contracted = ?S,
            postulate_audit_of = audit, timestamp_ms = now, from_version = version ?q1,
            to_version = version ?q1 + 1\<rparr>,
       ?m\<lparr>version := version ?m + 1, prospective_index := invalidate (prospective_index ?m) b\<rparr>)"
      using b1 by (simp add: contract_expand_def Let_def ver)
    show "quad_wf L (?m\<lparr>version := version ?m + 1, prospective_index := invalidate (prospective_index ?m) b\<rparr>)"
      by (rule update_wf [OF w1]) simp
    show "quad_get L (?m\<lparr>version := version ?m + 1, prospective_index := invalidate (prospective_index ?m) b\<rparr>) =
      ((quad_get L q) |` (- ?S))(b \<mapsto> ?f n)"
      using modify_get [OF w1, of b ?f] b1 unfolding g1 by (simp add: quad_get_fun)
  qed (simp_all add: ver)
qed

lemma extensionality_conflict:
  assumes "quad_wf L q" "quad_get L q b = Some n" "\<not> check_contradiction L q b v"
  shows "fst (check_extensionality L q b v False) \<longleftrightarrow> \<not> paraphrase_conflict L q b v"
proof -
  have "\<not> has_contradiction_edges (l_sem L) (semantic q) b"
    using assms(2,3)
    by (auto simp: check_contradiction_def check_contradiction_traced_def quad_get_def split: prod.splits)
  then show ?thesis
    unfolding check_extensionality_def paraphrase_conflict_def
    by (simp add: assms(2) split: option.split belief_value.split)
      (auto simp: extensionality_exact iter_mem [OF assms(1)] Ball_def)
qed

lemma contract_expand_graphs:
  assumes "snd (contract_expand L u now q b v p c audit) = q'"
  shows "semantic q' = semantic (apply_contraction L q (minimal_contraction_set L q b))"
    "temporal q' = temporal (apply_contraction L q (minimal_contraction_set L q b))"
    "causal q' = causal (apply_contraction L q (minimal_contraction_set L q b))"
    "entity q' = entity (apply_contraction L q (minimal_contraction_set L q b))"
  using assms by (auto simp: contract_expand_def Let_def quad_modify_def split: option.split)

lemma audit_pass:
  "quad_get L q b = Some n \<Longrightarrow> all_critical_pass (audit_verify L q b v con trace) \<longleftrightarrow>
     fst (check_extensionality L q b v con)"
  by (simp add: all_critical_pass_def audit_verify_def Let_def is_self_contradictory_def
      split: belief_value.split)

lemma audit_failed_name:
  "quad_get L q b = Some n \<Longrightarrow> \<not> fst (check_extensionality L q b v con) \<Longrightarrow>
   failed_postulate_name (audit_verify L q b v con trace) = ''K*6 (extensionality)''"
  by (simp add: failed_postulate_name_def audit_verify_def Let_def is_self_contradictory_def
      split: belief_value.split)

text \<open>The four ways a revision ends.\<close>

lemma revise_cases:
  assumes "quad_wf L q"
  obtains (absent) "quad_get L q b = None" "revise L u now q b v p c = (Inl BeliefNotFound, q)"
  | (violation) n where "quad_get L q b = Some n"
      "\<not> fst (check_extensionality L q b v (check_contradiction L q b v))"
      "revise L u now q b v p c = (Inl (PostulateViolation ''K*6 (extensionality)''), q)"
  | (expand) n audit where "quad_get L q b = Some n" "\<not> check_contradiction L q b v"
      "fst (check_extensionality L q b v (check_contradiction L q b v))"
      "vacuity audit" "all_critical_pass audit"
      "revise L u now q b v p c = expand_only L u now q b v p c audit"
  | (contract) n audit where "quad_get L q b = Some n" "check_contradiction L q b v"
      "fst (check_extensionality L q b v (check_contradiction L q b v))"
      "\<not> vacuity audit" "all_critical_pass audit"
      "revise L u now q b v p c = contract_expand L u now q b v p c audit"
proof -
  obtain con trace where ct: "check_contradiction_traced L q b v = (con, trace)"
    by (cases "check_contradiction_traced L q b v")
  then have con: "check_contradiction L q b v = con" by (simp add: check_contradiction_def)
  let ?a = "audit_verify L q b v con trace"
  have vac: "vacuity ?a = (\<not> con)" by (simp add: audit_verify_def Let_def)
  show thesis
  proof (cases "quad_get L q b")
    case None
    then show thesis using absent by (simp add: revise_def)
  next
    case (Some n)
    note pass = audit_pass [OF Some, of v con trace]
    show thesis
    proof (cases "fst (check_extensionality L q b v con)")
      case False
      then show thesis
        using violation [OF Some] audit_failed_name [OF Some False, of trace] pass con Some ct
        by (simp add: revise_def Let_def)
    next
      case True
      then have "revise L u now q b v p c =
          (if \<not> con then expand_only L u now q b v p c ?a else contract_expand L u now q b v p c ?a)"
        using Some ct pass by (simp add: revise_def Let_def)
      then show thesis using expand [OF Some] contract [OF Some] True pass con vac by (cases con) auto
    qed
  qed
qed

lemma contract_expand_self:
  assumes "quad_wf L q" "b \<in> minimal_contraction_set L q b"
  shows "contract_expand L u now q b v p c audit =
    (Inl BeliefNotFound, apply_contraction L q (minimal_contraction_set L q b))"
  using contraction_get [OF assms(1), of "minimal_contraction_set L q b"] assms(2)
  by (simp add: contract_expand_def Let_def)

lemma revise_success_obtain:
  assumes "quad_wf L q" "revise L u now q b v p c = (Inr r, q')"
  obtains n where "quad_get L q b = Some n" "b \<notin> contracted r"
    "contracted r = (if check_contradiction L q b v then minimal_contraction_set L q b else {})"
    "quad_get L q' = ((quad_get L q) |` (- contracted r))
       (b \<mapsto> n\<lparr>value := v, provenance := p, fast_confidence := clamp01 c,
              slow_confidence := (if check_contradiction L q b v then None else slow_confidence n)\<rparr>)"
    "old_value r = value n" "new_value r = v" "belief_id_of r = b" "to_version r = from_version r + 1"
    "version q' = to_version r" "quad_wf L q'"
    "vacuity (postulate_audit_of r) = (\<not> check_contradiction L q b v)"
proof (rule revise_cases [OF assms(1), of b u now v p c])
  fix n audit
  assume n: "quad_get L q b = Some n" and con: "\<not> check_contradiction L q b v" and "vacuity audit"
    and r: "revise L u now q b v p c = expand_only L u now q b v p c audit"
  have "(quad_get L q) |` UNIV = quad_get L q" by (simp add: fun_eq_iff)
  moreover have "n\<lparr>value := v, provenance := p, fast_confidence := clamp01 c, slow_confidence := slow_confidence n\<rparr> =
      n\<lparr>value := v, provenance := p, fast_confidence := clamp01 c\<rparr>" by simp
  ultimately show thesis
    using assms(2) r con n \<open>vacuity audit\<close>
    by (rule_tac expand_only_spec [OF assms(1) n, of u now v p c audit]) (rule that [of n]; clarsimp)
next
  fix n audit
  assume n: "quad_get L q b = Some n" and con: "check_contradiction L q b v" and "\<not> vacuity audit"
    and r: "revise L u now q b v p c = contract_expand L u now q b v p c audit"
  show thesis
  proof (cases "b \<in> minimal_contraction_set L q b")
    case True
    then show thesis using contract_expand_self [OF assms(1) True] assms(2) r by simp
  next
    case False
    have rq: "Inr r = fst (contract_expand L u now q b v p c audit)"
      "q' = snd (contract_expand L u now q b v p c audit)" using assms(2) r by simp_all
    show thesis
    proof (rule contract_expand_spec [OF assms(1) n False, of u now v p c audit], goal_cases)
      case (1 q2 w)
      note rq' = rq [unfolded 1(1) fst_conv snd_conv sum.inject]
      show ?case by (rule that [OF n]; simp add: rq' 1(2-4) con False \<open>\<not> vacuity audit\<close>)
    qed
  qed
qed (simp_all only: assms(2) prod.inject sum.distinct simp_thms)

lemma revise_contracting_edges:
  assumes "quad_wf L q" "revise L u now q b v p c = (Inr r, q')" "check_contradiction L q b v"
  shows "keeps_edges (minimal_contraction_set L q b) (sem_edges L q) (sem_edges L q') \<and>
    keeps_edges (minimal_contraction_set L q b) (tmp_edges L q) (tmp_edges L q') \<and>
    keeps_edges (minimal_contraction_set L q b) (cau_edges L q) (cau_edges L q') \<and>
    keeps_edges (minimal_contraction_set L q b) (ent_edges L q) (ent_edges L q')"
proof (rule revise_cases [OF assms(1), of b u now v p c])
  fix audit
  assume "revise L u now q b v p c = contract_expand L u now q b v p c audit"
  then have "snd (contract_expand L u now q b v p c audit) = q'" using assms(2) by (metis snd_conv)
  note g = contract_expand_graphs [OF this]
  show ?thesis using contraction_edges [OF assms(1), of "minimal_contraction_set L q b"] by (simp add: g)
qed (use assms in simp_all)

lemma revise_wf [wf_intros]:
  assumes "quad_wf L q"
  shows "quad_wf L (snd (revise L u now q b v p c))"
proof (cases "revise L u now q b v p c")
  case (Pair res q')
  show ?thesis
  proof (cases res)
    case (Inr r)
    then show ?thesis using Pair revise_success_obtain [OF assms, of u now b v p c r q'] by auto
  next
    case (Inl e)
    show ?thesis
    proof (rule revise_cases [OF assms, of b u now v p c])
      fix n audit
      assume n: "quad_get L q b = Some n" and r: "revise L u now q b v p c = expand_only L u now q b v p c audit"
      then show ?thesis using expand_only_spec [OF assms n, of u now v p c audit] by (metis snd_conv)
    next
      fix n audit
      assume n: "quad_get L q b = Some n" and r: "revise L u now q b v p c = contract_expand L u now q b v p c audit"
      show ?thesis
      proof (cases "b \<in> minimal_contraction_set L q b")
        case True
        then show ?thesis using contract_expand_self [OF assms True] r contraction_wf [OF assms] by simp
      next
        case False
        then show ?thesis using contract_expand_spec [OF assms n False, of u now v p c audit] r
          by (metis snd_conv)
      qed
    qed (use assms in simp_all)
  qed
qed

end

text \<open>A revision of the conclusion of the small quad, evaluated once.\<close>

definition demo_revised where
  "demo_revised = revise ref_lib 1 5 demo_quad key_concl (Asserted ''new'') (UserStatement 1) (Fin 1)"

lemma demo_revision_conj:
  "\<not> isl (fst demo_revised) \<and> sem_edges ref_lib (snd demo_revised) = [] \<and>
   check_contradiction ref_lib demo_quad key_concl (Asserted ''new'') \<and>
   minimal_contraction_set ref_lib demo_quad key_concl = {key_a, key_b} \<and>
   inferred_from_premises (l_cau ref_lib) (causal demo_quad) key_concl = [[key_a, key_c], [key_a, key_b]] \<and>
   quad_get ref_lib demo_quad NullKey = None \<and> quad_get ref_lib demo_quad key_a \<noteq> None \<and>
   \<not> check_contradiction ref_lib demo_quad key_a (Asserted ''A '') \<and>
   Option.is_none (embedding_provider demo_quad)"
  by code_simp

lemma demo_revision_facts:
  "\<not> isl (fst demo_revised)"
  "sem_edges ref_lib (snd demo_revised) = []"
  "check_contradiction ref_lib demo_quad key_concl (Asserted ''new'')"
  "minimal_contraction_set ref_lib demo_quad key_concl = {key_a, key_b}"
  "inferred_from_premises (l_cau ref_lib) (causal demo_quad) key_concl = [[key_a, key_c], [key_a, key_b]]"
  "quad_get ref_lib demo_quad NullKey = None" "quad_get ref_lib demo_quad key_a \<noteq> None"
  "\<not> check_contradiction ref_lib demo_quad key_a (Asserted ''A '')"
  "embedding_provider demo_quad = None"
  using demo_revision_conj unfolding Option.is_none_def by blast+

lemma demo_beliefs: "NullKey \<notin> beliefs ref_lib demo_quad" "key_a \<in> beliefs ref_lib demo_quad"
  using demo_revision_facts(6,7) unfolding beliefs_def by blast+

lemma demo_revised_ok:
  obtains r q' where "demo_revised = (Inr r, q')"
    "revise ref_lib 1 5 demo_quad key_concl (Asserted ''new'') (UserStatement 1) (Fin 1) = (Inr r, q')"
proof -
  obtain r where "fst demo_revised = Inr r" using demo_revision_facts(1) by (cases "fst demo_revised") simp_all
  then have "demo_revised = (Inr r, snd demo_revised)" by (metis prod.collapse)
  then show thesis using that unfolding demo_revised_def by blast
qed

section \<open>Properties\<close>

text \<open>
  C1. Success and inclusion (K*2, K*3): when a revision succeeds, the belief holds the new
  value, provenance and clamped confidence, the contracted beliefs are gone, every other
  belief is as it was, and the version moves by one past the contraction.
\<close>

theorem revise_success:
  assumes "belief_lib L" "quad_wf L q" "revise L u now q b v p c = (Inr r, q')"
  shows "\<exists>n. quad_get L q b = Some n \<and> b \<notin> contracted r \<and>
    contracted r = (if check_contradiction L q b v then minimal_contraction_set L q b else {}) \<and>
    quad_get L q' = ((quad_get L q) |` (- contracted r))
       (b \<mapsto> n\<lparr>value := v, provenance := p, fast_confidence := clamp01 c,
              slow_confidence := (if check_contradiction L q b v then None else slow_confidence n)\<rparr>) \<and>
    old_value r = value n \<and> new_value r = v \<and> to_version r = from_version r + 1 \<and> version q' = to_version r"
  by (rule belief_lib.revise_success_obtain [OF assms]) blast

theorem revise_success_witness:
  "\<exists>r q'. demo_revised = (Inr r, q') \<and> contracted r = {key_a, key_b} \<and>
     map_option value (quad_get ref_lib q' key_concl) = Some (Asserted ''new'')"
proof (rule demo_revised_ok)
  fix r q' assume d: "demo_revised = (Inr r, q')"
    and r: "revise ref_lib 1 5 demo_quad key_concl (Asserted ''new'') (UserStatement 1) (Fin 1) = (Inr r, q')"
  obtain n where n: "contracted r = {key_a, key_b}" "quad_get ref_lib q' =
      ((quad_get ref_lib demo_quad) |` (- contracted r))(key_concl \<mapsto>
        n\<lparr>value := Asserted ''new'', provenance := UserStatement 1, fast_confidence := clamp01 (Fin 1),
          slow_confidence := None\<rparr>)"
    using revise_success [OF ref_belief_lib demo_wf(2) r]
    unfolding if_P [OF demo_revision_facts(3)] demo_revision_facts(4) by blast
  then have "map_option value (quad_get ref_lib q' key_concl) = Some (Asserted ''new'')" by simp
  with d n(1) show ?thesis by blast
qed

text \<open>
  C5. The error branches of a revision and the state each leaves: an unknown belief and a K*6
  violation leave the quad alone; the only other failure is a belief that is the weakest
  premise of one of its own supports, and it is reported after the contraction was applied.
\<close>

theorem revise_errors:
  assumes "belief_lib L" "quad_wf L q"
  shows "case revise L u now q b v p c of
      (Inl BeliefNotFound, q') \<Rightarrow>
        (b \<notin> beliefs L q \<and> q' = q) \<or>
        (b \<in> beliefs L q \<and> check_contradiction L q b v \<and> b \<in> minimal_contraction_set L q b \<and>
         q' = apply_contraction L q (minimal_contraction_set L q b) \<and> b \<notin> beliefs L q')
    | (Inl (PostulateViolation name), q') \<Rightarrow>
        b \<in> beliefs L q \<and> q' = q \<and> name = ''K*6 (extensionality)'' \<and>
        \<not> fst (check_extensionality L q b v (check_contradiction L q b v))
    | (Inl InconsistentRevision, q') \<Rightarrow> False
    | (Inr r, q') \<Rightarrow> b \<in> beliefs L q \<and> fst (check_extensionality L q b v (check_contradiction L q b v))"
proof (rule belief_lib.revise_cases [OF assms, of b u now v p c])
  fix n audit
  assume n: "quad_get L q b = Some n"
    and r: "revise L u now q b v p c = expand_only L u now q b v p c audit"
    and e: "fst (check_extensionality L q b v (check_contradiction L q b v))"
  show ?thesis
    by (rule belief_lib.expand_only_spec [OF assms n, of u now v p c audit])
      (use r e n in \<open>simp add: beliefs_def domI\<close>)
next
  fix n audit
  assume n: "quad_get L q b = Some n" and con: "check_contradiction L q b v"
    and r: "revise L u now q b v p c = contract_expand L u now q b v p c audit"
    and e: "fst (check_extensionality L q b v (check_contradiction L q b v))"
  have bq: "b \<in> beliefs L q" using n by (simp add: beliefs_def domI)
  show ?thesis
  proof (cases "b \<in> minimal_contraction_set L q b")
    case True
    then have "b \<notin> beliefs L (apply_contraction L q (minimal_contraction_set L q b))"
      using belief_lib.contraction_get [OF assms, of "minimal_contraction_set L q b"]
      by (simp add: beliefs_def)
    then show ?thesis using belief_lib.contract_expand_self [OF assms True, of u now v p c audit] r con bq True
      by simp
  next
    case False
    show ?thesis
      by (rule belief_lib.contract_expand_spec [OF assms n False, of u now v p c audit])
        (use r e bq in simp)
  qed
next
  assume "quad_get L q b = None" "revise L u now q b v p c = (Inl BeliefNotFound, q)"
  then show ?thesis by (auto simp: beliefs_def)
next
  fix n
  assume "quad_get L q b = Some n"
    "\<not> fst (check_extensionality L q b v (check_contradiction L q b v))"
    "revise L u now q b v p c = (Inl (PostulateViolation ''K*6 (extensionality)''), q)"
  then show ?thesis by (simp add: beliefs_def domI)
qed

theorem revise_errors_witness:
  "fst (revise ref_lib 1 5 demo_quad NullKey (Asserted ''x'') (UserStatement 1) (Fin 1)) = Inl BeliefNotFound"
proof -
  show ?thesis
    using demo_beliefs(1) revise_errors [OF ref_belief_lib demo_wf(2), where b = NullKey and u = 1 and now = 5 and
        v = "Asserted ''x''" and p = "UserStatement 1" and c = "Fin 1"]
    by (auto split: prod.splits sum.splits revision_error.splits)
qed

text \<open>
  C23. Vacuity (K*4), with or without an embedding provider: if the new value contradicts
  nothing, the revision contracts nothing. It succeeds, with every other belief and all edges
  of the four graphs kept, unless some other belief is a paraphrase of the new text that would
  contradict the belief revised; then K*6 refuses it and the quad is unchanged.
\<close>

theorem revise_vacuity:
  assumes "belief_lib L" "quad_wf L q" "b \<in> beliefs L q" "\<not> check_contradiction L q b v"
  shows "case revise L u now q b v p c of
      (Inr r, q') \<Rightarrow> is_expansion r \<and> \<not> paraphrase_conflict L q b v \<and>
        (\<exists>n. quad_get L q b = Some n \<and>
           quad_get L q' = (quad_get L q)(b \<mapsto> n\<lparr>value := v, provenance := p, fast_confidence := clamp01 c\<rparr>)) \<and>
        semantic q' = semantic q \<and> temporal q' = temporal q \<and> causal q' = causal q \<and> entity q' = entity q
    | (Inl e, q') \<Rightarrow> e = PostulateViolation ''K*6 (extensionality)'' \<and> paraphrase_conflict L q b v \<and> q' = q"
proof (rule belief_lib.revise_cases [OF assms(1,2), of b u now v p c])
  fix n audit
  assume n: "quad_get L q b = Some n"
    and r: "revise L u now q b v p c = expand_only L u now q b v p c audit"
    and e: "fst (check_extensionality L q b v (check_contradiction L q b v))"
  have no: "\<not> paraphrase_conflict L q b v"
    using e assms(4) belief_lib.extensionality_conflict [OF assms(1,2) n, of v] by simp
  have "semantic q' = semantic q \<and> temporal q' = temporal q \<and> causal q' = causal q \<and> entity q' = entity q"
    if "q' = snd (expand_only L u now q b v p c audit)" for q'
    using that n by (auto simp: expand_only_def Let_def quad_modify_def quad_get_def)
  then show ?thesis
    by (rule_tac belief_lib.expand_only_spec [OF assms(1,2) n, of u now v p c audit])
      (use r n no in \<open>simp add: is_expansion_def\<close>)
next
  fix n
  assume n: "quad_get L q b = Some n"
    and e: "\<not> fst (check_extensionality L q b v (check_contradiction L q b v))"
    and r: "revise L u now q b v p c = (Inl (PostulateViolation ''K*6 (extensionality)''), q)"
  show ?thesis
    using r e assms(4) belief_lib.extensionality_conflict [OF assms(1,2) n, of v] by simp
qed (use assms(3,4) in \<open>auto simp: beliefs_def\<close>)

theorem revise_vacuity_witness:
  "\<exists>r q'. revise ref_lib 1 5 demo_quad key_a (Asserted ''A '') (UserStatement 1) (Fin 1) = (Inr r, q') \<and> is_expansion r"
proof -
  have "\<not> paraphrase_conflict ref_lib demo_quad key_a (Asserted ''A '')"
    using demo_revision_facts(9) by (simp add: paraphrase_conflict_def)
  then show ?thesis
    using revise_vacuity [OF ref_belief_lib demo_wf(2) demo_beliefs(2) demo_revision_facts(8),
        where u = 1 and now = 5 and p = "UserStatement 1" and c = "Fin 1"]
    by (auto split: prod.splits sum.splits)
qed

text \<open>
  C6. Contraction: after a contradicting revision succeeds, every support path of the belief
  that named a premise has lost its least confident one; nothing was contracted that is not
  the least confident premise of a path, and at most one belief per path was. The beliefs of
  the quad are the old ones less the contracted, and each of the four graphs has lost exactly
  the edges at a contracted belief.
\<close>

theorem revise_contracts_support:
  assumes "belief_lib L" "quad_wf L q" "revise L u now q b v p c = (Inr r, q')"
    "check_contradiction L q b v"
  shows "(\<forall>a ps. (a, b, InferredFrom ps) \<in> set (cau_edges L q) \<and> ps \<noteq> [] \<longrightarrow>
      (\<exists>x \<in> set ps. x \<notin> beliefs L q' \<and> (\<forall>y \<in> set ps. fle (premise_confidence L q x) (premise_confidence L q y)))) \<and>
    (\<forall>x \<in> contracted r. \<exists>a ps. (a, b, InferredFrom ps) \<in> set (cau_edges L q) \<and> x \<in> set ps \<and>
      (\<forall>y \<in> set ps. fle (premise_confidence L q x) (premise_confidence L q y))) \<and>
    card (contracted r) \<le> length (inferred_from_premises (l_cau L) (causal q) b) \<and>
    beliefs L q' = beliefs L q - contracted r \<and>
    mset (sem_edges L q') = filter_mset (\<lambda>e. \<forall>x \<in> contracted r. \<not> incident x e) (mset (sem_edges L q)) \<and>
    mset (tmp_edges L q') = filter_mset (\<lambda>e. \<forall>x \<in> contracted r. \<not> incident x e) (mset (tmp_edges L q)) \<and>
    mset (cau_edges L q') = filter_mset (\<lambda>e. \<forall>x \<in> contracted r. \<not> incident x e) (mset (cau_edges L q)) \<and>
    mset (ent_edges L q') = filter_mset (\<lambda>e. \<forall>x \<in> contracted r. \<not> incident x e) (mset (ent_edges L q))"
proof (rule belief_lib.revise_success_obtain [OF assms(1-3)])
  fix n
  assume n: "quad_get L q b = Some n" and bc: "b \<notin> contracted r"
    and cr: "contracted r = (if check_contradiction L q b v then minimal_contraction_set L q b else {})"
    and g: "quad_get L q' = ((quad_get L q) |` (- contracted r))
       (b \<mapsto> n\<lparr>value := v, provenance := p, fast_confidence := clamp01 c,
              slow_confidence := (if check_contradiction L q b v then None else slow_confidence n)\<rparr>)"
  have c: "contracted r = minimal_contraction_set L q b" using cr assms(4) by simp
  have bel: "beliefs L q' = beliefs L q - contracted r" using bc n unfolding beliefs_def g by auto
  have hit: "\<exists>x \<in> set ps. x \<notin> beliefs L q' \<and>
        (\<forall>y \<in> set ps. fle (premise_confidence L q x) (premise_confidence L q y))"
    if "(a, b, InferredFrom ps) \<in> set (cau_edges L q)" "ps \<noteq> []" for a ps
  proof -
    have "ps \<in> set (inferred_from_premises (l_cau L) (causal q) b)"
      using belief_lib.premises_set [OF assms(1,2)] that(1) by blast
    then show ?thesis using contraction_hits [of ps L q b] that(2) unfolding bel c by blast
  qed
  moreover have "\<exists>a ps. (a, b, InferredFrom ps) \<in> set (cau_edges L q) \<and> x \<in> set ps \<and>
        (\<forall>y \<in> set ps. fle (premise_confidence L q x) (premise_confidence L q y))" if "x \<in> contracted r" for x
    using that contraction_from_premises [of x L q b] belief_lib.premises_set [OF assms(1,2)] c by blast
  ultimately show ?thesis
    using belief_lib.revise_contracting_edges [OF assms] contraction_small [of L q b] bel
    unfolding keeps_edges_def c [symmetric] by blast
qed

theorem revise_contracts_support_witness:
  "\<exists>r q'. demo_revised = (Inr r, q') \<and> card (contracted r) \<le> 2 \<and>
     beliefs ref_lib q' = beliefs ref_lib demo_quad - contracted r"
proof (rule demo_revised_ok)
  fix r q' assume d: "demo_revised = (Inr r, q')"
    and r: "revise ref_lib 1 5 demo_quad key_concl (Asserted ''new'') (UserStatement 1) (Fin 1) = (Inr r, q')"
  show ?thesis
    using revise_contracts_support [OF ref_belief_lib demo_wf(2) r demo_revision_facts(3)]
      d unfolding demo_revision_facts(5) by (auto simp: numeral_2_eq_2)
qed

text \<open>
  The contraction set is not a minimal hitting set, contrary to its documentation: with
  the supports \<open>{a, c}\<close> and \<open>{a, b}\<close>, where \<open>a\<close> is the weaker premise of the first and \<open>b\<close> of
  the second, both \<open>a\<close> and \<open>b\<close> are contracted although \<open>a\<close> alone breaks both.
\<close>

theorem contraction_not_minimal:
  "minimal_contraction_set ref_lib demo_quad key_concl = {key_a, key_b} \<and>
   inferred_from_premises (l_cau ref_lib) (causal demo_quad) key_concl = [[key_a, key_c], [key_a, key_b]]"
  using demo_revision_facts(4,5) by blast

text \<open>
  C24. Stability: after a successful revision to a value, that value contradicts nothing any
  more unless the belief has an explicit contradiction edge, so revising with it again
  contracts nothing.
\<close>

theorem revise_stable:
  assumes "belief_lib L" "quad_wf L q" "revise L u now q b v p c = (Inr r, q')"
    "\<And>a. (b, a, Contradicts) \<notin> set (sem_edges L q')"
  shows "\<not> check_contradiction L q' b v"
proof (rule belief_lib.revise_success_obtain [OF assms(1-3)])
  fix n
  assume w: "quad_wf L q'"
    and g: "quad_get L q' = ((quad_get L q) |` (- contracted r))
       (b \<mapsto> n\<lparr>value := v, provenance := p, fast_confidence := clamp01 c,
              slow_confidence := (if check_contradiction L q b v then None else slow_confidence n)\<rparr>)"
  show ?thesis
    using assms(4) semantic_refines_literal [of "embedding_provider q'" "semantic_equivalence q'" v v]
    by (auto simp: belief_lib.contradiction_iff [OF assms(1) w] g)
qed

theorem revise_stable_witness:
  "\<exists>r q'. demo_revised = (Inr r, q') \<and> \<not> check_contradiction ref_lib q' key_concl (Asserted ''new'')"
proof (rule demo_revised_ok)
  fix r q' assume d: "demo_revised = (Inr r, q')"
    and r: "revise ref_lib 1 5 demo_quad key_concl (Asserted ''new'') (UserStatement 1) (Fin 1) = (Inr r, q')"
  have "sem_edges ref_lib q' = []" using demo_revision_facts(2) unfolding d snd_conv .
  then have "(key_concl, a, Contradicts) \<notin> set (sem_edges ref_lib q')" for a by (metis empty_iff empty_set)
  then show ?thesis using revise_stable [OF ref_belief_lib demo_wf(2) r] d by blast
qed

theorem extensionality_exact_witness:
  "\<not> fst (value_contradicts_semantic (Some (\<lambda>_. Some [])) \<lparr>equivalence = Fin 0, contradiction = Fin (- 1)\<rparr>
      (Asserted ''old'') (Asserted ''other''))"
proof -
  let ?p = "\<lambda>_. Some []" and ?n = "demo_node ''other'' 1"
  have v: "value ?n = Asserted ''other''" by (simp add: demo_node_def with_reflection_threshold_def)
  have c: "classify \<lparr>equivalence = Fin 0, contradiction = Fin (- 1)\<rparr> [] [] = Equivalent (Fin 0)" by code_simp
  have w: "fst (value_contradicts_semantic (Some ?p) \<lparr>equivalence = Fin 0, contradiction = Fin (- 1)\<rparr>
      (Asserted ''old'') (Asserted ''other'')) = False" by code_simp
  have scan: "fst (scan_paraphrases ?p \<lparr>equivalence = Fin 0, contradiction = Fin (- 1)\<rparr> [] (Asserted ''old'') False False
      NullKey [(key_a, ?n)])"
    by (simp only: scan_paraphrases.simps Let_def fst_conv snd_conv v c w belief_id.distinct if_False
        belief_value.case option.case equivalence_verdict.case simp_thms)
  have "fst (key_a, ?n) \<noteq> NullKey \<and> value (snd (key_a, ?n)) = Asserted ''other'' \<and>
      Some [] = Some [] \<and> classify \<lparr>equivalence = Fin 0, contradiction = Fin (- 1)\<rparr> [] [] = Equivalent (Fin 0)"
    by (simp only: fst_conv snd_conv v c belief_id.distinct simp_thms)
  from extensionality_exact [THEN iffD1, OF scan, rule_format, OF list.set_intros(1) this]
  show ?thesis by blast
qed

end
