(* ===== verification/System1.thy ===== *)
theory System1
  imports Belief_Quad
begin

text \<open>
  System 1 (\<open>epica-core/src/system1\<close>): confidences propagated through the causal graph by a
  recursion with a visited set. The recursion is modelled with fuel, \<open>None\<close> meaning that it
  ran out, and one unit more than the number of beliefs is proved to be enough. The hash set of descendants
  is enumerated by \<open>ord\<close>, which may depend on the belief being processed, as may the clock:
  each belief is processed at most once.
\<close>

section \<open>The recursion\<close>

definition edge_confidence ::
  "('s, 'a, 'b, 'c, 'd) lib \<Rightarrow> ('s, 'a, 'b, 'c, 'd, 'z) quad_scheme \<Rightarrow> belief_id list \<Rightarrow> f32" where
  "edge_confidence L q premises =
     combine (filter_map (\<lambda>p. map_option fast_confidence (sm_get (l_nodes L) (nodes q) p)) premises)"

definition propagated_confidence ::
  "('s, 'a, 'b, 'c, 'd) lib \<Rightarrow> u64 \<Rightarrow> ('s, 'a, 'b, 'c, 'd, 'z) quad_scheme \<Rightarrow> belief_id \<Rightarrow> f32" where
  "propagated_confidence L now q b =
     (let combined = foldl fmax (Fin 0)
            (map (edge_confidence L q) (inferred_from_premises (l_cau L) (causal q) b));
          decay = decay_factor L q b now
      in clamp01 (fmul F32 combined decay))"

definition system1_update ::
  "('s, 'a, 'b, 'c, 'd) lib \<Rightarrow> u64 \<Rightarrow> ('s, 'a, 'b, 'c, 'd, 'z) quad_scheme \<Rightarrow> belief_id \<Rightarrow>
     ('s, 'a, 'b, 'c, 'd, 'z) quad_scheme" where
  "system1_update L now q b =
     (if inferred_from_premises (l_cau L) (causal q) b = [] then q
      else quad_modify L q b (\<lambda>n. n\<lparr>fast_confidence := propagated_confidence L now q b\<rparr>))"

fun propagate_inner ::
  "('s, 'a, 'b, 'c, 'd) lib \<Rightarrow> (belief_id \<Rightarrow> belief_id set \<Rightarrow> belief_id list) \<Rightarrow> (belief_id \<Rightarrow> u64) \<Rightarrow>
     nat \<Rightarrow> ('s, 'a, 'b, 'c, 'd, 'z) quad_scheme \<Rightarrow> belief_id set \<Rightarrow> belief_id \<Rightarrow>
     (('s, 'a, 'b, 'c, 'd, 'z) quad_scheme \<times> belief_id set) option"
and propagate_list ::
  "('s, 'a, 'b, 'c, 'd) lib \<Rightarrow> (belief_id \<Rightarrow> belief_id set \<Rightarrow> belief_id list) \<Rightarrow> (belief_id \<Rightarrow> u64) \<Rightarrow>
     nat \<Rightarrow> ('s, 'a, 'b, 'c, 'd, 'z) quad_scheme \<Rightarrow> belief_id set \<Rightarrow> belief_id list \<Rightarrow>
     (('s, 'a, 'b, 'c, 'd, 'z) quad_scheme \<times> belief_id set) option" where
  "propagate_inner L ord now 0 q visited b = None"
| "propagate_inner L ord now (Suc n) q visited b =
     (if b \<in> visited then Some (q, visited)
      else let q' = system1_update L (now b) q b
           in propagate_list L ord now n q' (insert b visited)
                (ord b (descendants_of (l_cau L) (causal q') b)))"
| "propagate_list L ord now n q visited [] = Some (q, visited)"
| "propagate_list L ord now n q visited (d # ds) =
     (case propagate_inner L ord now n q visited d of
        None \<Rightarrow> None
      | Some (q', visited') \<Rightarrow> propagate_list L ord now n q' visited' ds)"

text \<open>The continuation of the loop as a function of its own, so that evaluation is call by value.\<close>

fun propagate_rest where
  "propagate_rest L ord now n ds None = None"
| "propagate_rest L ord now n ds (Some (q, visited)) = propagate_list L ord now n q visited ds"

lemma propagate_list_code [code]:
  "propagate_list L ord now n q visited [] = Some (q, visited)"
  "propagate_list L ord now n q visited (d # ds) =
     propagate_rest L ord now n ds (propagate_inner L ord now n q visited d)"
  by (simp_all split: option.split)

definition propagate_system1 ::
  "('s, 'a, 'b, 'c, 'd) lib \<Rightarrow> (belief_id \<Rightarrow> belief_id set \<Rightarrow> belief_id list) \<Rightarrow> (belief_id \<Rightarrow> u64) \<Rightarrow>
     ('s, 'a, 'b, 'c, 'd, 'z) quad_scheme \<Rightarrow> belief_id \<Rightarrow> ('s, 'a, 'b, 'c, 'd, 'z) quad_scheme option" where
  "propagate_system1 L ord now q changed =
     map_option fst (propagate_inner L ord now (quad_len L q + 2) q {} changed)"

section \<open>What a step changes\<close>

text \<open>\<open>q'\<close> differs from \<open>q\<close> at most in the fast confidences of beliefs in \<open>X\<close>.\<close>

definition only_fast ::
  "('s, 'a, 'b, 'c, 'd) lib \<Rightarrow> belief_id set \<Rightarrow> ('s, 'a, 'b, 'c, 'd, 'z) quad_scheme \<Rightarrow>
     ('s, 'a, 'b, 'c, 'd, 'z) quad_scheme \<Rightarrow> bool" where
  "only_fast L X q q' \<longleftrightarrow> quad_wf L q' \<and> q' = q\<lparr>nodes := nodes q'\<rparr> \<and>
     (\<forall>b. b \<notin> X \<longrightarrow> quad_get L q' b = quad_get L q b) \<and>
     (\<forall>b. \<exists>c. quad_get L q' b = map_option (\<lambda>n. n\<lparr>fast_confidence := c\<rparr>) (quad_get L q b)) \<and>
     (confident L q \<longrightarrow> confident L q')"

lemma only_fast_refl: "quad_wf L q \<Longrightarrow> only_fast L X q q"
proof -
  have "\<exists>c. x = map_option (\<lambda>n. n\<lparr>fast_confidence := c\<rparr>) x" for x :: "belief_node option"
    by (cases x) (auto intro: exI [of _ "fast_confidence (the x)"])
  then show "quad_wf L q \<Longrightarrow> only_fast L X q q" by (simp add: only_fast_def)
qed

lemma only_fast_trans:
  assumes "only_fast L X q q'" "only_fast L Y q' q''"
  shows "only_fast L (X \<union> Y) q q''"
proof -
  have "q'' = q\<lparr>nodes := nodes q''\<rparr>"
    using assms unfolding only_fast_def by (metis quad.update_convs(1) quad.select_convs(1) quad.surjective)
  moreover have "\<exists>c. quad_get L q'' b = map_option (\<lambda>n. n\<lparr>fast_confidence := c\<rparr>) (quad_get L q b)" for b
  proof -
    obtain c c' where "quad_get L q' b = map_option (\<lambda>n. n\<lparr>fast_confidence := c\<rparr>) (quad_get L q b)"
      "quad_get L q'' b = map_option (\<lambda>n. n\<lparr>fast_confidence := c'\<rparr>) (quad_get L q' b)"
      using assms unfolding only_fast_def by blast
    then show ?thesis by (intro exI [of _ c']) (simp add: option.map_comp comp_def)
  qed
  ultimately show ?thesis using assms unfolding only_fast_def by simp
qed

lemma only_fast_mono: "only_fast L X q q' \<Longrightarrow> X \<subseteq> Y \<Longrightarrow> only_fast L Y q q'"
  unfolding only_fast_def by blast

lemma only_fast_beliefs: "only_fast L X q q' \<Longrightarrow> beliefs L q' = beliefs L q"
proof -
  assume a: "only_fast L X q q'"
  have "quad_get L q' b = None \<longleftrightarrow> quad_get L q b = None" for b
  proof -
    obtain c where "quad_get L q' b = map_option (\<lambda>n. n\<lparr>fast_confidence := c\<rparr>) (quad_get L q b)"
      using a unfolding only_fast_def by blast
    then show ?thesis by simp
  qed
  then show ?thesis unfolding beliefs_def dom_def by simp
qed

lemma only_fast_causal: "only_fast L X q q' \<Longrightarrow> causal q' = causal q"
  unfolding only_fast_def by (metis quad.select_convs(4) quad.surjective quad.update_convs(1))

lemma edge_confidence_range: "edge_confidence L q ps = NaN \<or> fle (edge_confidence L q ps) (Fin 1)"
proof -
  have "noisy_or cs = NaN \<or> fle (noisy_or cs) (Fin 1)" for cs
  proof (cases "NaN \<in> set cs")
    case False
    then have "funit (noisy_or cs)" by (rule noisy_or_in_unit)
    then show ?thesis by auto
  next
    case True
    have absorb: "foldl (fmul F32) NaN xs = NaN" for xs by (induction xs) simp_all
    have "NaN \<in> set xs \<Longrightarrow> foldl (fmul F32) a xs = NaN" for a xs
    proof (induction xs arbitrary: a)
      case (Cons x xs)
      then show ?case by (cases a; auto simp: absorb)
    qed simp
    moreover have "NaN \<in> set (map (\<lambda>c. fsub F32 (Fin 1) (clamp01 c)) cs)"
      using True by (force simp: fsub_def)
    ultimately have "f_product F32 (map (\<lambda>c. fsub F32 (Fin 1) (clamp01 c)) cs) = NaN"
      unfolding f_product_def by blast
    moreover have "cs \<noteq> []" using True by auto
    ultimately have "noisy_or cs = NaN" by (simp add: noisy_or_def fsub_def)
    then show ?thesis by simp
  qed
  then show ?thesis by (simp add: edge_confidence_def combine_noisy_or)
qed

text \<open>Everything causally downstream of a set, itself included.\<close>

definition causal_reach :: "('s, 'a, 'b, 'c, 'd) lib \<Rightarrow> 'c projection \<Rightarrow> belief_id set \<Rightarrow> belief_id set" where
  "causal_reach L C S = (proj_rel (l_cau L) C)\<^sup>* `` S"

definition propagates ::
  "('s, 'a, 'b, 'c, 'd) lib \<Rightarrow> ('s, 'a, 'b, 'c, 'd, 'z) quad_scheme \<Rightarrow> belief_id set \<Rightarrow> belief_id set \<Rightarrow>
     (('s, 'a, 'b, 'c, 'd, 'z) quad_scheme \<times> belief_id set) option \<Rightarrow> bool" where
  "propagates L q V S r \<longleftrightarrow> (\<exists>q' V'. r = Some (q', V') \<and> V \<subseteq> V' \<and> S \<subseteq> V' \<and>
     V' \<subseteq> V \<union> causal_reach L (causal q) S \<and> only_fast L (causal_reach L (causal q) S) q q')"

lemma causal_reach_mono: "S \<subseteq> causal_reach L C T \<Longrightarrow> causal_reach L C S \<subseteq> causal_reach L C T"
  unfolding causal_reach_def by (auto dest!: subsetD intro: rtrancl_trans)

lemma causal_reach_self: "S \<subseteq> causal_reach L C S"
  by (auto simp: causal_reach_def)

lemma causal_reach_Un: "causal_reach L C (S \<union> T) = causal_reach L C S \<union> causal_reach L C T"
  by (auto simp: causal_reach_def)

context belief_lib
begin

text \<open>The propagated confidence is between 0 and 1 whatever the premises hold, NaN included.\<close>

lemma propagated_confidence_unit: "funit (propagated_confidence L now q b)"
proof -
  have "funit (foldl fmax (Fin 0) (map (edge_confidence L q) (inferred_from_premises (l_cau L) (causal q) b)))"
    using edge_confidence_range by (intro foldl_fmax_unit) auto
  then show ?thesis unfolding propagated_confidence_def Let_def
    using decay_factor_unit by (intro fclamp_unit funit_not_NaN fmul_unit)
qed

lemma system1_update_only_fast:
  assumes "quad_wf L q"
  shows "only_fast L {b} q (system1_update L now q b)"
proof (cases "inferred_from_premises (l_cau L) (causal q) b = []")
  case True
  then show ?thesis by (simp add: system1_update_def only_fast_refl assms)
next
  case False
  let ?f = "\<lambda>n. n\<lparr>fast_confidence := propagated_confidence L now q b\<rparr>"
  have s: "system1_update L now q b = quad_modify L q b ?f" using False by (simp add: system1_update_def)
  have w: "quad_wf L (quad_modify L q b ?f)" by (rule modify_wf [OF assms]) simp
  have g: "quad_get L (quad_modify L q b ?f) = (quad_get L q)(b := map_option ?f (quad_get L q b))"
    by (rule modify_get [OF assms])
  have n: "quad_modify L q b ?f = q\<lparr>nodes := nodes (quad_modify L q b ?f)\<rparr>"
    by (simp add: quad_modify_def split: option.split)
  have e: "\<exists>c. x = map_option (\<lambda>n. n\<lparr>fast_confidence := c\<rparr>) x" for x :: "belief_node option"
    by (cases x) (auto intro: exI [of _ "fast_confidence (the x)"])
  have "confident L q \<longrightarrow> confident L (quad_modify L q b ?f)"
    using propagated_confidence_unit [of now q b] by (auto simp: confident_def g)
  moreover have "\<exists>c'. quad_get L (quad_modify L q b ?f) c = map_option (\<lambda>n. n\<lparr>fast_confidence := c'\<rparr>) (quad_get L q c)" for c
    using e [of "quad_get L q c"] unfolding g by auto
  ultimately show ?thesis unfolding s only_fast_def using w n by (simp add: g)
qed

section \<open>Termination and the visited set\<close>

lemma reach_unfold:
  "quad_wf L q \<Longrightarrow> causal_reach L (causal q) {b} = insert b (descendants_of (l_cau L) (causal q) b)"
  by (auto simp: causal_reach_def descendants)

text \<open>
  With more fuel than there are unvisited beliefs the recursion returns; it visits exactly
  what it is told to and what is causally downstream of that.
\<close>

lemma propagate_list_enough:
  fixes q :: "('s, 'a, 'b, 'c, 'd, 'z) quad_scheme"
  assumes inner: "\<And>(q :: ('s, 'a, 'b, 'c, 'd, 'z) quad_scheme) V b. quad_wf L q \<Longrightarrow> card (beliefs L q - V) < n \<Longrightarrow> b \<in> beliefs L q \<Longrightarrow>
      propagates L q V {b} (propagate_inner L ord now n q V b)"
  shows "quad_wf L q \<Longrightarrow> card (beliefs L q - V) < n \<Longrightarrow> set ds \<subseteq> beliefs L q \<Longrightarrow>
      propagates L q V (set ds) (propagate_list L ord now n q V ds)"
proof (induction ds arbitrary: q V)
  case Nil
  then show ?case by (simp add: propagates_def only_fast_refl)
next
  case (Cons d ds)
  obtain q1 V1 where 1: "propagate_inner L ord now n q V d = Some (q1, V1)" "V \<subseteq> V1" "d \<in> V1"
    "V1 \<subseteq> V \<union> causal_reach L (causal q) {d}" "only_fast L (causal_reach L (causal q) {d}) q q1"
    using inner [of q V d] Cons.prems unfolding propagates_def by auto
  have w: "quad_wf L q1" using 1(5) by (simp add: only_fast_def)
  have B: "beliefs L q1 = beliefs L q" "causal q1 = causal q"
    using only_fast_beliefs [OF 1(5)] only_fast_causal [OF 1(5)] by auto
  have "card (beliefs L q1 - V1) \<le> card (beliefs L q - V)"
    unfolding B using 1(2) finite_beliefs [OF Cons.prems(1)] by (intro card_mono) auto
  then obtain q2 V2 where 2: "propagate_list L ord now n q1 V1 ds = Some (q2, V2)" "V1 \<subseteq> V2" "set ds \<subseteq> V2"
    "V2 \<subseteq> V1 \<union> causal_reach L (causal q) (set ds)" "only_fast L (causal_reach L (causal q) (set ds)) q1 q2"
    using Cons.IH [OF w, of V1] Cons.prems B unfolding propagates_def by auto
  have "causal_reach L (causal q) (set (d # ds)) =
      causal_reach L (causal q) {d} \<union> causal_reach L (causal q) (set ds)"
    using causal_reach_Un [of L "causal q" "{d}" "set ds"] by simp
  then show ?case unfolding propagates_def
    using 1 2 only_fast_trans [OF 1(5) 2(5)] by auto
qed

lemma propagate_enough:
  assumes ordS: "\<And>b S. finite S \<Longrightarrow> set (ord b S) = S"
  shows "quad_wf L q \<Longrightarrow> card (beliefs L q - V) < n \<Longrightarrow> b \<in> beliefs L q \<Longrightarrow>
      propagates L q V {b} (propagate_inner L ord now n q V b)"
proof (induction n arbitrary: q V b)
  case 0
  then show ?case by simp
next
  case (Suc n)
  show ?case
  proof (cases "b \<in> V")
    case True
    then show ?thesis using Suc.prems by (auto simp: propagates_def only_fast_refl)
  next
    case False
    let ?q = "system1_update L (now b) q b"
    let ?D = "descendants_of (l_cau L) (causal q) b"
    note u = system1_update_only_fast [OF Suc.prems(1), of b "now b"]
    have w: "quad_wf L ?q" using u by (simp add: only_fast_def)
    have B: "beliefs L ?q = beliefs L q" "causal ?q = causal q"
      using only_fast_beliefs [OF u] only_fast_causal [OF u] by auto
    have fin: "finite (beliefs L q)" by (rule finite_beliefs [OF Suc.prems(1)])
    have Db: "?D \<subseteq> beliefs L q" by (rule descendants_beliefs [OF Suc.prems(1)])
    have D: "set (ord b ?D) = ?D" by (rule ordS) (rule finite_subset [OF Db fin])
    have "card (beliefs L q - insert b V) < card (beliefs L q - V)"
      using False Suc.prems(3) fin by (intro psubset_card_mono) auto
    then have "card (beliefs L ?q - insert b V) < n" unfolding B using Suc.prems(2) by simp
    from propagate_list_enough [OF Suc.IH w this, where ds = "ord b ?D"] Db
    have p: "propagates L ?q (insert b V) ?D (propagate_list L ord now n ?q (insert b V) (ord b ?D))"
      unfolding D B by blast
    then obtain q2 V2 where 2: "propagate_list L ord now n ?q (insert b V) (ord b ?D) = Some (q2, V2)"
      "insert b V \<subseteq> V2" "V2 \<subseteq> insert b V \<union> causal_reach L (causal q) ?D"
      "only_fast L (causal_reach L (causal q) ?D) ?q q2"
      unfolding propagates_def B by blast
    have sub: "insert b (causal_reach L (causal q) ?D) \<subseteq> causal_reach L (causal q) {b}"
      using causal_reach_mono [of ?D L "causal q" "{b}"] causal_reach_self [of "{b}" L "causal q"]
        reach_unfold [OF Suc.prems(1), of b] by auto
    have "only_fast L ({b} \<union> causal_reach L (causal q) ?D) q q2" by (rule only_fast_trans [OF u 2(4)])
    then have "only_fast L (causal_reach L (causal q) {b}) q q2" using sub by (auto intro: only_fast_mono)
    then show ?thesis using 2 sub False by (auto simp: propagates_def Let_def B)
  qed
qed

lemma propagate_system1_total:
  assumes ordS: "\<And>b S. finite S \<Longrightarrow> set (ord b S) = S" and w: "quad_wf L q"
  shows "\<exists>q' V. propagate_inner L ord now (quad_len L q + 2) q {} b = Some (q', V) \<and>
    V = causal_reach L (causal q) {b} \<and> only_fast L (causal_reach L (causal q) {b}) q q'"
proof (cases "b \<in> beliefs L q")
  case True
  let ?n = "quad_len L q + 1" and ?D = "descendants_of (l_cau L) (causal q) b"
  have n: "card (beliefs L q - V) < ?n" for V
    using card_mono [OF finite_beliefs [OF w], of "beliefs L q - V"] len_card [OF w] by auto
  have fin: "finite ?D" by (rule finite_subset [OF descendants_beliefs finite_beliefs]) (rule w)+
  let ?q = "system1_update L (now b) q b"
  note u = system1_update_only_fast [OF w, of b "now b"]
  have B: "beliefs L ?q = beliefs L q" "causal ?q = causal q"
    using only_fast_beliefs [OF u] only_fast_causal [OF u] by auto
  have w': "quad_wf L ?q" using u by (simp add: only_fast_def)
  have "propagates L ?q {b} ?D (propagate_list L ord now ?n ?q {b} (ord b ?D))"
    using propagate_list_enough [OF propagate_enough [OF ordS] w', where n = ?n and V = "{b}" and ds = "ord b ?D"
        and now = now] n [of "{b}"]
      descendants_beliefs [OF w] ordS [OF fin] unfolding B by auto
  then have "?D \<subseteq> snd (the (propagate_inner L ord now (quad_len L q + 2) q {} b))"
    by (auto simp: propagates_def Let_def B)
  moreover have "propagates L q {} {b} (propagate_inner L ord now (quad_len L q + 2) q {} b)"
    by (rule propagate_enough [OF ordS w]) (use n [of "{}"] True in auto)
  ultimately show ?thesis unfolding propagates_def using reach_unfold [OF w, of b] by fastforce
next
  case False
  have out: "descendants_of (l_cau L) (causal q) b = {}"
    using proj_wf_dom [OF wf_graphs(3) [OF w]] False by (auto simp: descendants_of_def split: option.split)
  have "inferred_from_premises (l_cau L) (causal q) b = []"
    using proj_wf_dom [OF wf_graphs(3) [OF w]] False by (auto simp: inferred_from_premises_def split: option.split)
  then have "propagate_inner L ord now (quad_len L q + 2) q {} b = Some (q, {b})"
    using out ordS [of "{}" b] by (simp add: system1_update_def Let_def)
  then show ?thesis using reach_unfold [OF w, of b] out by (auto simp: only_fast_refl w)
qed

end

section \<open>Properties\<close>

text \<open>
  C18. System 1 terminates on every quad, cyclic causal graphs included, and for every order in
  which the hash set of descendants may be enumerated: it returns a well-formed quad that
  differs only in the fast confidences of the changed belief and of what is causally
  downstream of it, and confidences that were between 0 and 1 still are.
\<close>

theorem system1_total:
  assumes "belief_lib L" "quad_wf L q" "\<And>b S. finite S \<Longrightarrow> set (ord b S) = S"
  shows "\<exists>q'. propagate_system1 L ord now q changed = Some q' \<and> quad_wf L q' \<and>
    beliefs L q' = beliefs L q \<and> q' = q\<lparr>nodes := nodes q'\<rparr> \<and> (confident L q \<longrightarrow> confident L q') \<and>
    (\<forall>b n. quad_get L q b = Some n \<longrightarrow>
       (\<exists>c. quad_get L q' b = Some (n\<lparr>fast_confidence := c\<rparr>)) \<and>
       (b \<notin> insert changed (descendants_of (l_cau L) (causal q) changed) \<longrightarrow> quad_get L q' b = Some n))"
proof -
  obtain q' V where p: "propagate_inner L ord now (quad_len L q + 2) q {} changed = Some (q', V)"
    and o: "only_fast L (causal_reach L (causal q) {changed}) q q'"
    using belief_lib.propagate_system1_total [where ord = ord, OF assms(1) _ assms(2)] assms(3) by blast
  have "\<exists>c. quad_get L q' b = Some (n\<lparr>fast_confidence := c\<rparr>)" if n: "quad_get L q b = Some n" for b n
  proof -
    obtain c where "quad_get L q' b = map_option (\<lambda>n. n\<lparr>fast_confidence := c\<rparr>) (quad_get L q b)"
      using o unfolding only_fast_def by blast
    with n show ?thesis by auto
  qed
  moreover have "quad_get L q' b = quad_get L q b"
    if "b \<notin> insert changed (descendants_of (l_cau L) (causal q) changed)" for b
    using that o belief_lib.reach_unfold [OF assms(1,2)] unfolding only_fast_def by blast
  ultimately show ?thesis
    using p o only_fast_beliefs [OF o] by (auto simp: propagate_system1_def only_fast_def)
qed

definition demo_diamond where
  "demo_diamond = demo_quad\<lparr>causal := demo_proj [(1, 3, InferredFrom [key_b, key_c]),
     (0, 2, InferredFrom [key_a]), (0, 1, InferredFrom [key_a])]\<rparr>"

lemma demo_diamond_built:
  "demo_diamond = add_causal_edge ref_lib (add_causal_edge ref_lib
     (add_causal_edge ref_lib demo_nodes key_a key_b (InferredFrom [key_a]))
     key_a key_c (InferredFrom [key_a])) key_b key_concl (InferredFrom [key_b, key_c])"
  by (simp add: demo_diamond_def demo_quad_eq demo_nodes_eq add_causal_edge_def cg_add_edge_def
      proj_add_edge_def demo_proj_def edge_list_ops_def el_defs)

lemma demo_diamond_wf: "quad_wf ref_lib demo_diamond"
  unfolding demo_diamond_built by (intro ref.add_edge_wf demo_wf)

theorem system1_total_witness:
  "\<exists>q'. propagate_system1 ref_lib (\<lambda>b. sorted_list_of_set) (\<lambda>b. 0) demo_diamond key_a = Some q' \<and>
     quad_wf ref_lib q'"
proof -
  have o: "finite S \<Longrightarrow> set (sorted_list_of_set S) = S" for S :: "belief_id set" by simp
  show ?thesis
    using system1_total [OF ref_belief_lib demo_diamond_wf, where ord = "\<lambda>b. sorted_list_of_set" and
        changed = key_a and now = "\<lambda>b. 0", OF o] by blast
qed

text \<open>The confidences of \<open>b\<close>, \<open>c\<close> and the conclusion after propagating from \<open>a\<close>.\<close>

fun diamond_view where
  "diamond_view None = []"
| "diamond_view (Some q) = map (\<lambda>b. map_option fast_confidence (quad_get ref_lib q b)) [key_b, key_c, key_concl]"

definition diamond_run :: "belief_id list \<Rightarrow> f32 option list" where
  "diamond_run p = diamond_view
     (propagate_system1 ref_lib (\<lambda>b S. if b = key_a then p else sorted_list_of_set S) (\<lambda>b. 0) demo_diamond key_a)"

lemma diamond_b_first:
  "diamond_run [key_b, key_c, key_concl] = [Some (Fin (1 / 2)), Some (Fin (1 / 2)), Some (Fin (7 / 8))]"
  by code_simp

lemma diamond_c_first:
  "diamond_run [key_c, key_b, key_concl] = [Some (Fin (1 / 2)), Some (Fin (1 / 2)), Some (Fin (3 / 4))]"
  by code_simp

lemma diamond_concl_first:
  "diamond_run [key_concl, key_b, key_c] = [Some (Fin (1 / 2)), Some (Fin (1 / 2)), Some (Fin (27 / 32))]"
  by code_simp

text \<open>
  The documentation calls System 1 deterministic. On a quad where \<open>a\<close> supports \<open>b\<close> and
  \<open>c\<close> and these together the conclusion, the enumeration order of the descendants of \<open>a\<close>
  decides the confidence of the conclusion. Only one of these orders gives 3/4, the Noisy-OR of
  the final confidences of \<open>b\<close> and \<open>c\<close>; in the others the conclusion is visited before one of
  its premises, and the visited set keeps it stale.
\<close>

theorem system1_order_dependent:
  "map diamond_run [[key_b, key_c, key_concl], [key_c, key_b, key_concl], [key_concl, key_b, key_c]] =
     [[Some (Fin (1 / 2)), Some (Fin (1 / 2)), Some (Fin (7 / 8))],
      [Some (Fin (1 / 2)), Some (Fin (1 / 2)), Some (Fin (3 / 4))],
      [Some (Fin (1 / 2)), Some (Fin (1 / 2)), Some (Fin (27 / 32))]] \<and>
   combine [Fin (1 / 2), Fin (1 / 2)] = Fin (3 / 4)"
proof -
  have "combine [Fin (1 / 2), Fin (1 / 2)] = Fin (3 / 4)" by code_simp
  then show ?thesis by (simp only: list.map diamond_b_first diamond_c_first diamond_concl_first simp_thms)
qed

end
