(* ===== verification/Quad_Diff.thy ===== *)
theory Quad_Diff
  imports Belief_Quad "HOL-Library.List_Lexorder" "HOL-Library.Char_ord"
begin

text \<open>
  The structural diff of two quads (\<open>epica-core/src/diff\<close>), counterfactual worlds
  (\<open>counterfactual/mod.rs\<close>) and the trajectory calibration error (\<open>diff/tece.rs\<close>). A diff
  goes by belief key through hash maps, whose iteration order is the argument \<open>kord\<close>.
\<close>

section \<open>Diff\<close>

record belief_snapshot =
  snap_id :: belief_id
  snap_key :: string
  snap_value :: belief_value
  snap_fast_confidence :: f32
  snap_slow_confidence :: "f32 option"
  version_at_snapshot :: u64

definition from_node :: "belief_node \<Rightarrow> u64 \<Rightarrow> belief_snapshot" where
  "from_node n ver =
     \<lparr>snap_id = id n, snap_key = key n, snap_value = value n, snap_fast_confidence = fast_confidence n,
      snap_slow_confidence = slow_confidence n, version_at_snapshot = ver\<rparr>"

record belief_modification =
  mod_id :: belief_id
  mod_key :: string
  mod_old_value :: belief_value
  mod_new_value :: belief_value
  mod_old_confidence :: f32
  mod_new_confidence :: f32

record 'e edge_diff =
  edges_added :: "(belief_id \<times> belief_id \<times> 'e) list"
  edges_removed :: "(belief_id \<times> belief_id \<times> 'e) list"

definition edge_diff_default :: "'e edge_diff" where
  "edge_diff_default = \<lparr>edges_added = [], edges_removed = []\<rparr>"

definition edge_diff_is_empty :: "'e edge_diff \<Rightarrow> bool" where
  "edge_diff_is_empty d \<longleftrightarrow> edges_added d = [] \<and> edges_removed d = []"

record belief_quad_diff =
  added :: "belief_snapshot list"
  removed :: "belief_snapshot list"
  modified :: "belief_modification list"
  semantic_edges :: "semantic_edge edge_diff"
  temporal_edges :: "temporal_edge edge_diff"
  causal_edges :: "causal_edge edge_diff"
  entity_edges :: "entity_edge edge_diff"
  confidence_delta :: "string \<rightharpoonup> f32 \<times> f32"
  trajectory_ece :: "f32 option"

definition has_contradictions :: "belief_quad_diff \<Rightarrow> bool" where
  "has_contradictions d \<longleftrightarrow> added d \<noteq> [] \<or> modified d \<noteq> [] \<or> removed d \<noteq> []"

definition diff_is_empty :: "belief_quad_diff \<Rightarrow> bool" where
  "diff_is_empty d \<longleftrightarrow> added d = [] \<and> removed d = [] \<and> modified d = [] \<and>
     edge_diff_is_empty (semantic_edges d) \<and> edge_diff_is_empty (temporal_edges d) \<and>
     edge_diff_is_empty (causal_edges d) \<and> edge_diff_is_empty (entity_edges d)"

text \<open>\<open>nodes.values().map(..).collect()\<close>: of two beliefs with one key the later stays.\<close>

definition by_key ::
  "('s, 'a, 'b, 'c, 'd) lib \<Rightarrow> ('s, 'a, 'b, 'c, 'd, 'z) quad_scheme \<Rightarrow> string \<rightharpoonup> belief_node" where
  "by_key L q = map_of (rev (map (\<lambda>(b, n). (key n, n)) (quad_iter L q)))"

definition quad_keys ::
  "('s, 'a, 'b, 'c, 'd) lib \<Rightarrow> ('s, 'a, 'b, 'c, 'd, 'z) quad_scheme \<Rightarrow> string set" where
  "quad_keys L q = set (map (\<lambda>(b, n). key n) (quad_iter L q))"

definition conf_changed :: "belief_node \<Rightarrow> belief_node \<Rightarrow> bool" where
  "conf_changed s t = flt (f_lit F32 (1 / 1000000)) (fabs (fsub F32 (fast_confidence s) (fast_confidence t)))"

definition quad_diff ::
  "('s, 'a, 'b, 'c, 'd) lib \<Rightarrow> (string set \<Rightarrow> string list) \<Rightarrow> ('s, 'a, 'b, 'c, 'd, 'y) quad_scheme \<Rightarrow>
     ('s, 'a, 'b, 'c, 'd, 'z) quad_scheme \<Rightarrow> belief_quad_diff" where
  "quad_diff L kord self other =
     (let self_by_key = by_key L self; other_by_key = by_key L other;
          self_keys = kord (quad_keys L self); other_keys = kord (quad_keys L other)
      in \<lparr>added = filter_map (\<lambda>k. case other_by_key k of
              Some _ \<Rightarrow> None
            | None \<Rightarrow> map_option (\<lambda>n. from_node n (version self)) (self_by_key k)) self_keys,
          removed = filter_map (\<lambda>k. case self_by_key k of
              Some _ \<Rightarrow> None
            | None \<Rightarrow> map_option (\<lambda>n. from_node n (version other)) (other_by_key k)) other_keys,
          modified = filter_map (\<lambda>k. case (self_by_key k, other_by_key k) of
              (Some s, Some t) \<Rightarrow>
                (if value s \<noteq> value t \<or> conf_changed s t
                 then Some \<lparr>mod_id = id s, mod_key = key s, mod_old_value = value t, mod_new_value = value s,
                            mod_old_confidence = fast_confidence t, mod_new_confidence = fast_confidence s\<rparr>
                 else None)
            | _ \<Rightarrow> None) self_keys,
          semantic_edges = edge_diff_default, temporal_edges = edge_diff_default,
          causal_edges = edge_diff_default, entity_edges = edge_diff_default,
          confidence_delta = fold (\<lambda>k m. case (self_by_key k, other_by_key k) of
              (Some s, Some t) \<Rightarrow>
                (if conf_changed s t then m(key s \<mapsto> (fast_confidence t, fast_confidence s)) else m)
            | _ \<Rightarrow> m) self_keys Map.empty,
          trajectory_ece = None\<rparr>)"

section \<open>Counterfactual worlds\<close>

record ('s, 'a, 'b, 'c, 'd) counterfactual_world =
  antecedent :: belief_id
  excluded :: "belief_id set"
  world_quad :: "('s, 'a, 'b, 'c, 'd) quad"

definition counterfactual_query ::
  "('s, 'a, 'b, 'c, 'd) lib \<Rightarrow> ('s, 'a, 'b, 'c, 'd, 'z) quad_scheme \<Rightarrow> belief_id \<Rightarrow>
     ('s, 'a, 'b, 'c, 'd) counterfactual_world" where
  "counterfactual_query L q b =
     \<lparr>antecedent = b, excluded = insert b (descendants_of (l_cau L) (causal q) b), world_quad = quad.truncate q\<rparr>"

definition surviving_beliefs ::
  "('s, 'a, 'b, 'c, 'd) lib \<Rightarrow> ('s, 'a, 'b, 'c, 'd) counterfactual_world \<Rightarrow> (belief_id \<times> belief_node) list" where
  "surviving_beliefs L w = filter (\<lambda>e. fst e \<notin> excluded w) (quad_iter L (world_quad w))"

text \<open>\<open>usize\<close> subtraction, which wraps in a release build.\<close>

definition surviving_count ::
  "('s, 'a, 'b, 'c, 'd) lib \<Rightarrow> ('s, 'a, 'b, 'c, 'd) counterfactual_world \<Rightarrow> u64" where
  "surviving_count L w = of_nat (quad_len L (world_quad w)) - of_nat (card (excluded w))"

section \<open>Calibration error\<close>

definition tece_compute :: "(f32 \<times> bool) list \<Rightarrow> f32 option" where
  "tece_compute history =
     (if history = [] then None
      else let t = f_of_nat F32 (length history);
               total = f_sum F32 (map (\<lambda>(conf, correct).
                 fabs (fsub F32 conf (if correct then Fin 1 else Fin 0))) history)
           in Some (fdiv F32 total t))"

section \<open>Laws\<close>

lemma truncate_get [simp]: "quad_get L (quad.truncate q) = quad_get L q"
  by (simp add: quad_get_fun quad.truncate_def)

lemma truncate_iter [simp]: "quad_iter L (quad.truncate q) = quad_iter L q"
  by (simp add: quad_iter_def quad.truncate_def)

lemma truncate_len [simp]: "quad_len L (quad.truncate q) = quad_len L q"
  by (simp add: quad_len_def quad.truncate_def)

lemma by_key_dom: "dom (by_key L q) = quad_keys L q"
  by (force simp: by_key_def quad_keys_def dom_map_of_conv_image_fst)

lemma by_key_nodes:
  assumes "nodes q = nodes r"
  shows "by_key L q = by_key L r" "quad_keys L q = quad_keys L r"
  using assms by (simp_all add: by_key_def quad_keys_def quad_iter_def)

lemma by_key_belief: "by_key L q k = Some n \<Longrightarrow> key n = k \<and> (\<exists>b. (b, n) \<in> set (quad_iter L q))"
  unfolding by_key_def by (drule map_of_SomeD) auto

lemma conf_changed_refl [simp]: "\<not> conf_changed n n"
proof -
  let ?d = "fsub F32 (fast_confidence n) (fast_confidence n)"
  have d: "?d = NaN \<or> ?d = Fin 0" by (cases "fast_confidence n") (simp_all add: fsub_def)
  have z: "\<not> flt (f_lit F32 (1 / 1000000)) (Fin 0)"
    using round_rat_nonneg [of "1 / 1000000" F32] by (simp add: f_lit_def fround_def Let_def)
  have nan: "\<not> flt y NaN" for y by (cases y) simp_all
  from d show ?thesis unfolding conf_changed_def
  proof
    assume "?d = NaN"
    then show "\<not> flt (f_lit F32 (1 / 1000000)) (fabs ?d)" using nan by simp
  next
    assume "?d = Fin 0"
    then show "\<not> flt (f_lit F32 (1 / 1000000)) (fabs ?d)" using z by simp
  qed
qed

lemma fadd_partial_sum:
  assumes "0 \<le> r" "r \<le> of_nat k" "0 \<le> x" "x \<le> 1" "Suc k \<le> 2 ^ 24"
  shows "\<exists>s. fround F32 (r + x) = Fin s \<and> 0 \<le> s \<and> s \<le> of_nat (Suc k)"
proof -
  have "round_rat F32 (of_int (int (Suc k))) = of_int (int (Suc k))"
    using assms(5) by (intro round_rat_int) (simp only: fprec.simps, simp)
  then have k: "round_rat F32 (of_nat (Suc k)) = of_nat (Suc k)" by (simp only: of_int_of_nat_eq)
  have "r + x \<le> of_nat (Suc k)" using assms by simp
  then have u: "round_rat F32 (r + x) \<le> of_nat (Suc k)" using round_rat_mono [of "r + x" "of_nat (Suc k)" F32] k by simp
  have l: "0 \<le> round_rat F32 (r + x)" using assms by (intro round_rat_nonneg) simp
  have "(of_nat (Suc k) :: rat) \<le> of_nat (2 ^ 24)" using assms(5) unfolding of_nat_le_iff .
  then have "round_rat F32 (r + x) < 2 ^ 128" using u by simp
  then show ?thesis using u l by (simp add: fround_def Let_def)
qed

lemma foldl_fadd_bound:
  assumes "0 \<le> r" "r \<le> of_nat k" "\<forall>x \<in> set xs. funit x" "k + length xs \<le> 2 ^ 24"
  shows "\<exists>s. foldl (fadd F32) (Fin r) xs = Fin s \<and> 0 \<le> s \<and> s \<le> of_nat (k + length xs)"
  using assms
proof (induction xs arbitrary: r k)
  case Nil
  then show ?case by simp
next
  case (Cons x xs)
  obtain q where q: "x = Fin q" "0 \<le> q" "q \<le> 1" using Cons.prems(3) by auto
  have "Suc k \<le> 2 ^ 24" using Cons.prems(4) by simp
  then obtain s where s: "fround F32 (r + q) = Fin s" "0 \<le> s" "s \<le> of_nat (Suc k)"
    using fadd_partial_sum [of r k q] Cons.prems q by blast
  show ?case using Cons.IH [of s "Suc k"] Cons.prems s q by simp
qed

lemma fabs_error_unit:
  assumes "funit c"
  shows "funit (fabs (fsub F32 c (if correct then Fin 1 else Fin 0)))"
proof -
  obtain q where q: "c = Fin q" "0 \<le> q" "q \<le> 1" using assms by auto
  obtain s where s: "fround F32 (1 - q) = Fin s" "s = round_rat F32 (1 - q)" "0 \<le> s" "s \<le> 1"
    using fround_unit [of "1 - q" F32] q by auto
  have "round_rat F32 (q - 1) = - s" using round_rat_minus [of F32 "1 - q"] s by simp
  moreover have "\<bar>round_rat F32 (q - 1)\<bar> < 2 ^ 128" using calculation s(3,4) by simp
  ultimately have "fabs (fround F32 (q - 1)) = Fin s" using s(3) by (simp add: fround_def Let_def)
  moreover have "\<exists>t. fround F32 q = Fin t \<and> 0 \<le> t \<and> t \<le> 1" using fround_unit [of q F32] q by blast
  ultimately show ?thesis using q s by (auto simp: fsub_def)
qed

lemma tece_unit:
  assumes "\<forall>(c, ok) \<in> set history. funit c" "length history \<le> 2 ^ 24"
  shows "history = [] \<or> (\<exists>e. tece_compute history = Some e \<and> funit e)"
proof (cases "history = []")
  case False
  let ?n = "length history"
  let ?xs = "map (\<lambda>(conf, correct). fabs (fsub F32 conf (if correct then Fin 1 else Fin 0))) history"
  have "\<forall>x \<in> set ?xs. funit x"
  proof
    fix x assume "x \<in> set ?xs"
    then obtain c ok where "(c, ok) \<in> set history"
      "x = fabs (fsub F32 c (if ok then Fin 1 else Fin 0))" by auto
    then show "funit x" using assms(1) fabs_error_unit [of c ok] by blast
  qed
  then obtain s where s: "f_sum F32 ?xs = Fin s" "0 \<le> s" "s \<le> of_nat ?n"
    using foldl_fadd_bound [of 0 0 ?xs] assms(2) unfolding f_sum_def by auto
  have "round_rat F32 (of_int (int ?n)) = of_int (int ?n)"
    using assms(2) by (intro round_rat_int) (simp only: fprec.simps, simp)
  then have rn: "round_rat F32 (of_nat ?n) = of_nat ?n" by (simp only: of_int_of_nat_eq)
  have "(of_nat ?n :: rat) \<le> of_nat (2 ^ 24)" using assms(2) unfolding of_nat_le_iff .
  then have n: "f_of_nat F32 ?n = Fin (of_nat ?n)" using rn by (simp add: f_of_nat_def fround_def Let_def)
  have pos: "(0 :: rat) < of_nat ?n" using False by simp
  then have q: "0 \<le> s / of_nat ?n" "s / of_nat ?n \<le> 1" using s by (simp_all add: divide_le_eq_1)
  obtain e where e: "fround F32 (s / of_nat ?n) = Fin e" "0 \<le> e" "e \<le> 1" using fround_unit [OF q] by blast
  have "tece_compute history = Some (Fin e)"
    using False s(1) n e(1) pos by (simp add: tece_compute_def Let_def)
  then show ?thesis using e by simp
qed simp

context belief_lib
begin

lemma survivors:
  assumes "quad_wf L q"
  shows "set (surviving_beliefs L (counterfactual_query L q b)) =
    {(c, n). quad_get L q c = Some n \<and> c \<notin> insert b (descendants_of (l_cau L) (causal q) b)}"
  using iter_mem [OF assms] by (auto simp: surviving_beliefs_def counterfactual_query_def)

lemma survivors_length:
  assumes "quad_wf L q"
  shows "length (surviving_beliefs L (counterfactual_query L q b)) =
    card (beliefs L q - insert b (descendants_of (l_cau L) (causal q) b))"
proof -
  let ?w = "counterfactual_query L q b"
  have "distinct (map fst (quad_iter L q))"
    unfolding quad_iter_def by (rule nodes.iter_distinct) (rule wf_valid [OF assms])
  then have d: "distinct (map fst (surviving_beliefs L ?w))"
    by (simp add: surviving_beliefs_def counterfactual_query_def distinct_map inj_on_def)
  have "set (map fst (surviving_beliefs L ?w)) =
      beliefs L q - insert b (descendants_of (l_cau L) (causal q) b)"
    using survivors [OF assms, of b] by (force simp: beliefs_def)
  then show ?thesis using distinct_card [OF d] by simp
qed

end

section \<open>What a diff reports\<close>

lemma diff_reports:
  assumes "\<And>K. finite K \<Longrightarrow> set (kord K) = K"
  shows "has_contradictions (quad_diff L kord p q) \<longleftrightarrow>
    quad_keys L p \<noteq> quad_keys L q \<or>
    (\<exists>k s t. by_key L p k = Some s \<and> by_key L q k = Some t \<and> (value s \<noteq> value t \<or> conf_changed s t))"
proof -
  have kp: "set (kord (quad_keys L p)) = dom (by_key L p)" and kq: "set (kord (quad_keys L q)) = dom (by_key L q)"
    using assms [of "quad_keys L p"] assms [of "quad_keys L q"] by (simp_all add: by_key_dom) (simp_all add: quad_keys_def)
  have ne: "filter_map f xs \<noteq> [] \<longleftrightarrow> (\<exists>x \<in> set xs. f x \<noteq> None)" for f :: "string \<Rightarrow> 'x option" and xs
    by (induction xs) (auto split: option.splits)
  have a: "added (quad_diff L kord p q) \<noteq> [] \<longleftrightarrow> \<not> dom (by_key L p) \<subseteq> dom (by_key L q)"
    by (auto simp: quad_diff_def Let_def ne kp split: option.splits)
  have r: "removed (quad_diff L kord p q) \<noteq> [] \<longleftrightarrow> \<not> dom (by_key L q) \<subseteq> dom (by_key L p)"
    by (auto simp: quad_diff_def Let_def ne kq split: option.splits)
  have m: "modified (quad_diff L kord p q) \<noteq> [] \<longleftrightarrow>
      (\<exists>k s t. by_key L p k = Some s \<and> by_key L q k = Some t \<and> (value s \<noteq> value t \<or> conf_changed s t))"
  proof -
    have both: "(case (x, y) of (Some s, Some t) \<Rightarrow> if P s t then Some (f s t) else None | _ \<Rightarrow> None) \<noteq> None \<longleftrightarrow>
        (\<exists>s t. x = Some s \<and> y = Some t \<and> P s t)"
      for x y P and f :: "belief_node \<Rightarrow> belief_node \<Rightarrow> belief_modification"
      by (cases x; cases y) auto
    show ?thesis unfolding quad_diff_def Let_def belief_quad_diff.select_convs ne kp both by blast
  qed
  show ?thesis unfolding has_contradictions_def a r m by_key_dom [symmetric] by blast
qed

section \<open>Properties\<close>

text \<open>
  C25. What a diff sees: it reports a change exactly when the two quads have different key
  sets or some common key whose belief differs in value or, by more than \<open>1e-6\<close>, in fast
  confidence. Other fields, edges and slow confidences never show.
\<close>

theorem diff_detects:
  assumes "\<And>K. finite K \<Longrightarrow> set (kord K) = K"
  shows "has_contradictions (quad_diff L kord p q) \<longleftrightarrow>
    quad_keys L p \<noteq> quad_keys L q \<or>
    (\<exists>k s t. by_key L p k = Some s \<and> by_key L q k = Some t \<and> (value s \<noteq> value t \<or> conf_changed s t))"
  by (rule diff_reports) (rule assms)

theorem diff_detects_witness:
  "has_contradictions (quad_diff ref_lib sorted_list_of_set demo_quad (quad_new ref_lib))"
proof -
  have "quad_keys ref_lib demo_quad \<noteq> quad_keys ref_lib (quad_new ref_lib)" by code_simp
  moreover have "finite K \<Longrightarrow> set (sorted_list_of_set K) = K" for K :: "string set" by simp
  ultimately show ?thesis using diff_detects [of sorted_list_of_set ref_lib demo_quad "quad_new ref_lib"] by blast
qed

text \<open>
  A quad does not differ from itself, whatever its confidences, NaN and infinities
  included; so rolling back to an unchanged state is always refused.
\<close>

lemma diff_self:
  assumes "\<And>K. finite K \<Longrightarrow> set (kord K) = K"
  shows "diff_is_empty (quad_diff L kord q q) \<and> \<not> has_contradictions (quad_diff L kord q q)"
proof -
  have "has_contradictions (quad_diff L kord q q) \<longleftrightarrow> quad_keys L q \<noteq> quad_keys L q \<or>
      (\<exists>k s t. by_key L q k = Some s \<and> by_key L q k = Some t \<and> (value s \<noteq> value t \<or> conf_changed s t))"
    by (rule diff_reports) (rule assms)
  then have "\<not> has_contradictions (quad_diff L kord q q)" by auto
  then show ?thesis
    by (simp add: has_contradictions_def diff_is_empty_def)
      (simp add: quad_diff_def Let_def edge_diff_default_def edge_diff_is_empty_def)
qed

text \<open>
  A counterfactual world keeps exactly the beliefs that are not the antecedent and not
  causally downstream of it, and \<open>surviving_count\<close> is their number.
\<close>

theorem counterfactual_survivors:
  assumes "belief_lib L" "quad_wf L q" "b \<in> beliefs L q" "quad_len L q < 2 ^ 64"
  shows "set (surviving_beliefs L (counterfactual_query L q b)) =
      {(c, n). quad_get L q c = Some n \<and> c \<noteq> b \<and> (b, c) \<notin> (proj_rel (l_cau L) (causal q))\<^sup>*} \<and>
    unat (surviving_count L (counterfactual_query L q b)) =
      length (surviving_beliefs L (counterfactual_query L q b))"
proof -
  note d = belief_lib.descendants(1) [OF assms(1,2), of b]
  note db = belief_lib.descendants_beliefs [OF assms(1,2), of b]
  let ?E = "insert b (descendants_of (l_cau L) (causal q) b)"
  have fin: "finite (beliefs L q)" by (rule belief_lib.finite_beliefs [OF assms(1,2)])
  have E: "?E \<subseteq> beliefs L q" using db assms(3) by simp
  have len: "quad_len L q = card (beliefs L q)" by (rule belief_lib.len_card [OF assms(1,2)])
  have le: "card ?E \<le> quad_len L q" unfolding len by (rule card_mono [OF fin E])
  have "length (surviving_beliefs L (counterfactual_query L q b)) = quad_len L q - card ?E"
    unfolding belief_lib.survivors_length [OF assms(1,2)] len
    using E finite_subset [OF E fin] by (intro card_Diff_subset)
  moreover have "surviving_count L (counterfactual_query L q b) = of_nat (quad_len L q - card ?E)"
    using le by (simp add: surviving_count_def counterfactual_query_def of_nat_diff)
  moreover have "unat (of_nat (quad_len L q - card ?E) :: u64) = quad_len L q - card ?E"
    using assms(4) by (simp add: unat_of_nat take_bit_nat_eq_self)
  ultimately show ?thesis
    unfolding belief_lib.survivors [OF assms(1,2)] d by auto
qed

theorem counterfactual_survivors_witness:
  "unat (surviving_count ref_lib (counterfactual_query ref_lib demo_quad key_c)) =
     length (surviving_beliefs ref_lib (counterfactual_query ref_lib demo_quad key_c))"
proof -
  have "quad_get ref_lib demo_quad key_c \<noteq> None \<and> quad_len ref_lib demo_quad = 4" by code_simp
  then have "key_c \<in> beliefs ref_lib demo_quad" "quad_len ref_lib demo_quad < 2 ^ 64"
    by (auto simp: beliefs_def)
  from counterfactual_survivors [OF ref_belief_lib demo_wf(2) this] show ?thesis by blast
qed

text \<open>
  Counting the survivors of an antecedent the quad does not hold is off by one, since the
  antecedent is excluded all the same; on an empty quad the subtraction wraps to the largest
  integer.
\<close>

theorem counterfactual_absent:
  assumes "belief_lib L" "quad_wf L q" "b \<notin> beliefs L q"
  shows "surviving_count L (counterfactual_query L q b) =
    of_nat (length (surviving_beliefs L (counterfactual_query L q b))) - 1"
proof -
  have "descendants_of (l_cau L) (causal q) b = {}"
    using proj_wf_dom [OF belief_lib.wf_graphs(3) [OF assms(1,2)]] assms(3)
    by (auto simp: descendants_of_def split: option.split)
  then show ?thesis
    using belief_lib.survivors_length [OF assms(1,2), of b] belief_lib.len_card [OF assms(1,2)] assms(3)
    by (simp add: surviving_count_def counterfactual_query_def)
qed

theorem counterfactual_absent_witness:
  "surviving_count ref_lib (counterfactual_query ref_lib (quad_new ref_lib) NullKey) = - 1"
proof -
  have "quad_get ref_lib (quad_new ref_lib) NullKey = None \<and>
      surviving_beliefs ref_lib (counterfactual_query ref_lib (quad_new ref_lib) NullKey) = []" by code_simp
  then have "NullKey \<notin> beliefs ref_lib (quad_new ref_lib)"
    "surviving_beliefs ref_lib (counterfactual_query ref_lib (quad_new ref_lib) NullKey) = []"
    by (auto simp: beliefs_def)
  from counterfactual_absent [OF ref_belief_lib ref.new_wf this(1)] this(2) show ?thesis by simp
qed

text \<open>
  The trajectory calibration error of up to \<open>2 ^ 24\<close> observations with confidences between
  0 and 1 is itself a number between 0 and 1 (rounding does not push it out), and is undefined
  only without observations.
\<close>

theorem tece_bounds:
  assumes "\<forall>(c, ok) \<in> set history. funit c" "length history \<le> 2 ^ 24"
  shows "case tece_compute history of None \<Rightarrow> history = [] | Some e \<Rightarrow> history \<noteq> [] \<and> funit e"
  using tece_unit [OF assms] by (cases "history = []") (auto simp: tece_compute_def Let_def)

theorem tece_bounds_witness: "\<exists>e. tece_compute [(Fin (1 / 2), True), (Fin 1, False)] = Some e \<and> funit e"
  using tece_bounds [of "[(Fin (1 / 2), True), (Fin 1, False)]"] by (simp split: option.splits)

end
