(* ===== verification/Hex_Text.thy ===== *)
theory Hex_Text
  imports Prelude
begin

text \<open>
  Hexadecimal text: lower-case digits of a number and of a byte string, with the reading functions
  that undo them. They instantiate the encoders of the crates \<open>uuid\<close> and \<open>hex\<close>, which are
  parameters of the model.
\<close>

section \<open>Numbers\<close>

definition hex_alphabet :: string where
  "hex_alphabet = ''0123456789abcdef''"

definition hex_digit :: "int \<Rightarrow> char" where
  "hex_digit d = hex_alphabet ! nat d"

definition hex_value :: "char \<Rightarrow> int option" where
  "hex_value c = map_of (zip hex_alphabet [0..15]) c"

fun hex_digits :: "nat \<Rightarrow> int \<Rightarrow> string" where
  "hex_digits 0 n = []"
| "hex_digits (Suc k) n = hex_digits k (n div 16) @ [hex_digit (n mod 16)]"

fun hex_read :: "int \<Rightarrow> string \<Rightarrow> int option" where
  "hex_read a [] = Some a"
| "hex_read a (c # cs) = (case hex_value c of None \<Rightarrow> None | Some d \<Rightarrow> hex_read (16 * a + d) cs)"

lemma hex_table:
  "list_all (\<lambda>d. hex_value (hex_digit d) = Some d \<and> hex_digit d \<in> set hex_alphabet) [0..15]"
  "CHR ''-'' \<notin> set hex_alphabet"
  by code_simp+

lemma hex_digit_laws:
  assumes "0 \<le> d" "d < 16"
  shows "hex_value (hex_digit d) = Some d" "hex_digit d \<in> set hex_alphabet"
proof -
  have "d \<in> set [0..15]" using assms by simp
  then show "hex_value (hex_digit d) = Some d" "hex_digit d \<in> set hex_alphabet"
    using hex_table(1) unfolding list_all_iff by blast+
qed

lemma hex_digits_chars: "set (hex_digits k n) \<subseteq> set hex_alphabet"
  by (induction k n rule: hex_digits.induct) (simp_all add: hex_digit_laws)

lemma length_hex_digits [simp]: "length (hex_digits k n) = k"
  by (induction k n rule: hex_digits.induct) auto

lemma hex_read_append:
  "hex_read a (xs @ ys) = (case hex_read a xs of None \<Rightarrow> None | Some b \<Rightarrow> hex_read b ys)"
  by (induction a xs rule: hex_read.induct) (auto split: option.split)

lemma hex_read_digits: "0 \<le> n \<Longrightarrow> hex_read a (hex_digits k n) = Some (a * 16 ^ k + n mod 16 ^ k)"
proof (induction k n rule: hex_digits.induct)
  case (1 n)
  then show ?case by simp
next
  case (2 k n)
  have "n mod (16 * 16 ^ k) = 16 * (n div 16 mod 16 ^ k) + n mod 16"
    by (rule zmod_zmult2_eq) simp
  moreover have "0 \<le> n div 16" using 2(2) by simp
  ultimately show ?case using 2(1) hex_digit_laws(1) [of "n mod 16"]
    by (simp add: hex_read_append algebra_simps)
qed

section \<open>Bytes\<close>

text \<open>The public error type of the crate \<open>hex\<close>.\<close>

datatype hex_error = InvalidHexCharacter char nat | OddLength | InvalidStringLength

definition bytes_to_hex :: "u8 list \<Rightarrow> string" where
  "bytes_to_hex bs = concat (map (\<lambda>b. hex_digits 2 (uint b)) bs)"

fun read_pairs :: "nat \<Rightarrow> string \<Rightarrow> hex_error + u8 list" where
  "read_pairs i [] = Inr []"
| "read_pairs i [c] = Inl OddLength"
| "read_pairs i (c # d # cs) =
     (case hex_value c of
        None \<Rightarrow> Inl (InvalidHexCharacter c i)
      | Some x \<Rightarrow>
          (case hex_value d of
             None \<Rightarrow> Inl (InvalidHexCharacter d (i + 1))
           | Some y \<Rightarrow>
               (case read_pairs (i + 2) cs of
                  Inl e \<Rightarrow> Inl e
                | Inr bs \<Rightarrow> Inr (word_of_int (16 * x + y) # bs))))"

definition hex_to_bytes :: "string \<Rightarrow> hex_error + u8 list" where
  "hex_to_bytes s = (if odd (length s) then Inl OddLength else read_pairs 0 s)"

lemma even_length_bytes_to_hex: "even (length (bytes_to_hex bs))"
  by (induction bs) (simp_all add: bytes_to_hex_def)

lemma read_pairs_bytes: "read_pairs i (bytes_to_hex bs) = Inr bs"
proof (induction bs arbitrary: i)
  case (Cons b bs)
  have d: "hex_digits 2 n = [hex_digit (n div 16 mod 16), hex_digit (n mod 16)]" for n
    by (simp add: numeral_2_eq_2)
  have "uint b < 2 ^ LENGTH(8)" by (rule unsigned_less)
  then have "uint b div 16 mod 16 = uint b div 16" by (intro mod_pos_pos_trivial) (simp_all add: pos_imp_zdiv_nonneg_iff)
  then have "16 * (uint b div 16 mod 16) + uint b mod 16 = uint b" by simp
  moreover have "word_of_int (uint b) = b" by simp
  ultimately show ?case using Cons
    by (simp add: bytes_to_hex_def d hex_digit_laws)
qed (simp add: bytes_to_hex_def)

lemma hex_to_bytes_to_hex [simp]: "hex_to_bytes (bytes_to_hex bs) = Inr bs"
  by (simp add: hex_to_bytes_def even_length_bytes_to_hex read_pairs_bytes)

end
