(* ===== verification/Quad_Session.thy ===== *)
theory Quad_Session
  imports Revision System1 Quad_Diff Hex_Text
begin

text \<open>
  A quad with its in-session checkpoints (\<open>epica-core/src/checkpoint\<close>), and the states it can
  reach: \<open>session_step\<close> has one rule per public operation that changes a quad, and the
  invariants of the quad and of every snapshot it keeps are proved by induction over it.
\<close>

section \<open>Checkpoints\<close>

text \<open>Fresh identifiers and the clock are arguments.\<close>

record ('s, 'a, 'b, 'c, 'd) checkpoint =
  cp_id :: uuid
  cp_version :: u64
  cp_timestamp_ms :: u64
  cp_quad :: "('s, 'a, 'b, 'c, 'd) quad"

record ('s, 'a, 'b, 'c, 'd) session_quad = "('s, 'a, 'b, 'c, 'd) quad" +
  checkpoints :: "('s, 'a, 'b, 'c, 'd) checkpoint list"

definition with_checkpoints ::
  "('s, 'a, 'b, 'c, 'd) quad \<Rightarrow> ('s, 'a, 'b, 'c, 'd) checkpoint list \<Rightarrow> ('s, 'a, 'b, 'c, 'd) session_quad" where
  "with_checkpoints q cps = quad.extend q \<lparr>checkpoints = cps\<rparr>"

definition session_new :: "('s, 'a, 'b, 'c, 'd) lib \<Rightarrow> ('s, 'a, 'b, 'c, 'd) session_quad" where
  "session_new L = with_checkpoints (quad_new L) []"

text \<open>A snapshot drops the checkpoints of the quad it is taken of.\<close>

definition capture :: "uuid \<Rightarrow> u64 \<Rightarrow> ('s, 'a, 'b, 'c, 'd, 'z) quad_scheme \<Rightarrow> ('s, 'a, 'b, 'c, 'd) checkpoint" where
  "capture u now q = \<lparr>cp_id = u, cp_version = version q, cp_timestamp_ms = now, cp_quad = quad.truncate q\<rparr>"

definition take_checkpoint ::
  "uuid \<Rightarrow> u64 \<Rightarrow> ('s, 'a, 'b, 'c, 'd) session_quad \<Rightarrow> uuid \<times> ('s, 'a, 'b, 'c, 'd) session_quad" where
  "take_checkpoint u now q =
     (let cp = capture u now q in (cp_id cp, q\<lparr>checkpoints := checkpoints q @ [cp]\<rparr>))"

definition checkpoint_by_id ::
  "('s, 'a, 'b, 'c, 'd) session_quad \<Rightarrow> uuid \<Rightarrow> ('s, 'a, 'b, 'c, 'd) checkpoint option" where
  "checkpoint_by_id q u = List.find (\<lambda>c. cp_id c = u) (checkpoints q)"

definition clear_checkpoints :: "('s, 'a, 'b, 'c, 'd) session_quad \<Rightarrow> ('s, 'a, 'b, 'c, 'd) session_quad" where
  "clear_checkpoints q = q\<lparr>checkpoints := []\<rparr>"

definition checkpoint_count :: "('s, 'a, 'b, 'c, 'd) session_quad \<Rightarrow> nat" where
  "checkpoint_count q = length (checkpoints q)"

datatype rollback_error =
    CheckpointNotFound uuid
  | UnnecessaryContraction belief_quad_diff

definition rollback_to ::
  "('s, 'a, 'b, 'c, 'd) lib \<Rightarrow> (string set \<Rightarrow> string list) \<Rightarrow> ('s, 'a, 'b, 'c, 'd) session_quad \<Rightarrow> uuid \<Rightarrow>
     (rollback_error + belief_quad_diff) \<times> ('s, 'a, 'b, 'c, 'd) session_quad" where
  "rollback_to L kord q u =
     (case List.find (\<lambda>c. cp_id c = u) (checkpoints q) of
        None \<Rightarrow> (Inl (CheckpointNotFound u), q)
      | Some c \<Rightarrow>
          let diff = quad_diff L kord q (cp_quad c)
          in if \<not> has_contradictions diff then (Inl (UnnecessaryContraction diff), q)
             else (Inr diff, with_checkpoints (cp_quad c) []))"

section \<open>The text form of a checkpoint id\<close>

text \<open>\<open>show_uuid\<close> and \<open>parse_uuid\<close> are the \<open>uuid\<close> crate's \<open>Display\<close> and \<open>parse_str\<close>.\<close>

definition checkpoint_id_display :: "(uuid \<Rightarrow> string) \<Rightarrow> uuid \<Rightarrow> string" where
  "checkpoint_id_display show_uuid u = ''chk:'' @ show_uuid u"

definition checkpoint_id_parse :: "(string \<Rightarrow> uuid option) \<Rightarrow> string \<Rightarrow> uuid option" where
  "checkpoint_id_parse parse_uuid s =
     parse_uuid (case strip_prefix ''chk:'' s of None \<Rightarrow> s | Some t \<Rightarrow> t)"

locale uuid_text =
  fixes show_uuid :: "uuid \<Rightarrow> string" and parse_uuid :: "string \<Rightarrow> uuid option"
  assumes parse_show: "parse_uuid (show_uuid u) = Some u"
    and show_hex: "c \<in> set (show_uuid u) \<Longrightarrow> c \<in> set hex_alphabet \<or> c = CHR ''-''"
begin

lemma parse_display: "checkpoint_id_parse parse_uuid (checkpoint_id_display show_uuid u) = Some u"
  by (simp add: checkpoint_id_parse_def checkpoint_id_display_def strip_prefix_def parse_show)

text \<open>A bare UUID is accepted too: no UUID starts like the prefix.\<close>

lemma parse_bare: "checkpoint_id_parse parse_uuid (show_uuid u) = Some u"
proof -
  have k: "CHR ''k'' \<notin> set hex_alphabet \<and> CHR ''k'' \<noteq> CHR ''-'' \<and> CHR ''k'' \<in> set ''chk:''" by code_simp
  have "take (length ''chk:'') (show_uuid u) \<noteq> ''chk:''"
  proof
    assume "take (length ''chk:'') (show_uuid u) = ''chk:''"
    then have "CHR ''k'' \<in> set (take (length ''chk:'') (show_uuid u))" using k by metis
    then have "CHR ''k'' \<in> set (show_uuid u)" by (rule in_set_takeD)
    then show False using show_hex k by blast
  qed
  then have "strip_prefix ''chk:'' (show_uuid u) = None" unfolding strip_prefix_def by (rule if_not_P)
  then show ?thesis by (simp only: checkpoint_id_parse_def option.case parse_show)
qed

end

text \<open>The canonical form: 32 lower-case hexadecimal digits in five groups.\<close>

definition canonical_show :: "uuid \<Rightarrow> string" where
  "canonical_show u =
     (let ds = hex_digits 32 (uint u)
      in take 8 ds @ ''-'' @ take 4 (drop 8 ds) @ ''-'' @ take 4 (drop 12 ds) @ ''-'' @
         take 4 (drop 16 ds) @ ''-'' @ drop 20 ds)"

definition canonical_parse :: "string \<Rightarrow> uuid option" where
  "canonical_parse s = map_option word_of_int (hex_read 0 (filter (\<lambda>c. c \<noteq> CHR ''-'') s))"

lemma take_groups: "take 8 ds @ take 4 (drop 8 ds) @ take 4 (drop 12 ds) @ take 4 (drop 16 ds) @ drop 20 ds = ds"
proof -
  have "take 4 (drop 16 ds) @ drop 20 ds = drop 16 ds" using append_take_drop_id [of 4 "drop 16 ds"] by simp
  moreover have "take 4 (drop 12 ds) @ drop 16 ds = drop 12 ds" using append_take_drop_id [of 4 "drop 12 ds"] by simp
  moreover have "take 4 (drop 8 ds) @ drop 12 ds = drop 8 ds" using append_take_drop_id [of 4 "drop 8 ds"] by simp
  ultimately show ?thesis by (simp only: append_take_drop_id)
qed

interpretation canonical_uuid: uuid_text canonical_show canonical_parse
proof
  fix u :: uuid
  let ?ds = "hex_digits 32 (uint u)"
  have f: "filter (\<lambda>c. c \<noteq> CHR ''-'') xs = xs" if "set xs \<subseteq> set ?ds" for xs
    using that hex_digits_chars [of 32 "uint u"] hex_table(2) by (intro filter_True) blast
  have sub: "set (take i ?ds) \<subseteq> set ?ds" "set (drop i ?ds) \<subseteq> set ?ds" "set (take i (drop j ?ds)) \<subseteq> set ?ds" for i j
    by (meson set_take_subset set_drop_subset subset_trans)+
  have "filter (\<lambda>c. c \<noteq> CHR ''-'') (canonical_show u) =
      take 8 ?ds @ take 4 (drop 8 ?ds) @ take 4 (drop 12 ?ds) @ take 4 (drop 16 ?ds) @ drop 20 ?ds"
    unfolding canonical_show_def Let_def filter_append f [OF sub(1)] f [OF sub(2)] f [OF sub(3)] by simp
  also have "\<dots> = ?ds" by (rule take_groups)
  finally have "canonical_parse (canonical_show u) = map_option word_of_int (hex_read 0 ?ds)"
    unfolding canonical_parse_def by simp
  also have "hex_read 0 ?ds = Some (uint u mod 16 ^ 32)" using hex_read_digits [of "uint u" 0 32] by simp
  also have "(16 :: int) ^ 32 = 2 ^ LENGTH(128)" by simp
  also have "uint u mod 2 ^ LENGTH(128) = uint u"
    by (intro mod_pos_pos_trivial unsigned_greater_eq unsigned_less)
  finally show "canonical_parse (canonical_show u) = Some u" by simp
next
  fix c and u :: uuid assume "c \<in> set (canonical_show u)"
  then have "c \<in> set (hex_digits 32 (uint u)) \<or> c = CHR ''-''"
    unfolding canonical_show_def Let_def set_append by (auto dest: in_set_takeD in_set_dropD)
  then show "c \<in> set hex_alphabet \<or> c = CHR ''-''" using hex_digits_chars by blast
qed

section \<open>Symmetric semantic edges\<close>

text \<open>\<open>Contradicts\<close> and \<open>Synonymous\<close> are documented to be stored in both directions.\<close>

definition sem_symmetric ::
  "('s, 'a, 'b, 'c, 'd) lib \<Rightarrow> ('s, 'a, 'b, 'c, 'd, 'z) quad_scheme \<Rightarrow> bool" where
  "sem_symmetric L q \<longleftrightarrow> (\<forall>a b e. (a, b, e) \<in> set (sem_edges L q) \<longrightarrow> e \<noteq> Subsumes \<longrightarrow>
     (b, a, e) \<in> set (sem_edges L q))"

lemma sem_symmetric_cong: "set (sem_edges L q) = set (sem_edges L r) \<Longrightarrow> sem_symmetric L q = sem_symmetric L r"
  by (simp add: sem_symmetric_def)

lemma sem_symmetric_frame: "semantic q = semantic r \<Longrightarrow> sem_symmetric L q = sem_symmetric L r"
  by (simp add: sem_symmetric_def)

lemma modify_semantic [simp]: "semantic (quad_modify L q b f) = semantic q"
  by (simp add: quad_modify_def split: option.split)

lemma revise_semantic:
  "semantic (snd (revise L u now q b v p c)) = semantic q \<or>
   semantic (snd (revise L u now q b v p c)) = semantic (apply_contraction L q (minimal_contraction_set L q b))"
  by (auto simp: revise_def expand_only_def contract_expand_def Let_def split: prod.split option.split)

context belief_lib
begin

lemma sem_symmetric_insert:
  assumes "quad_wf L q" "sem_symmetric L q"
  shows "sem_symmetric L (snd (quad_insert L q n))"
  using insert_edges(1) [OF assms(1) prod.collapse [symmetric]] assms(2)
  by (metis sem_symmetric_cong set_mset_mset)

lemma sem_symmetric_remove:
  assumes "quad_wf L q" "sem_symmetric L q"
  shows "sem_symmetric L (snd (quad_remove L q b))"
proof -
  have "set (sem_edges L (snd (quad_remove L q b))) = {e \<in> set (sem_edges L q). \<not> incident b e}"
    using arg_cong [OF remove_edges(1) [OF assms(1), of b], of set_mset] by simp
  then show ?thesis using assms(2) by (auto simp: sem_symmetric_def incident_def)
qed

lemma sem_symmetric_contraction:
  "quad_wf L q \<Longrightarrow> sem_symmetric L q \<Longrightarrow> sem_symmetric L (apply_contraction L q S)"
  unfolding apply_contraction_def
  by (rule conjunct2 [OF fold_invariant [where I = "\<lambda>q. quad_wf L q \<and> sem_symmetric L q"]])
    (auto intro: remove_wf sem_symmetric_remove)

lemma sem_symmetric_add_edge:
  assumes "quad_wf L q" "sem_symmetric L q"
  shows "sem_symmetric L (add_semantic_edge L q a b e)"
proof -
  have "set (sem_edges L (add_semantic_edge L q a b e)) =
      (if a \<in> beliefs L q \<and> b \<in> beliefs L q
       then (if e = Subsumes then {} else {(b, a, e)}) \<union> {(a, b, e)} \<union> set (sem_edges L q)
       else set (sem_edges L q))"
    using arg_cong [OF add_semantic_edge_edges [OF assms(1), of a b e], of set_mset] by (auto split: if_splits)
  then show ?thesis using assms(2) by (auto simp: sem_symmetric_def split: if_splits)
qed

lemma sem_symmetric_revise:
  assumes "quad_wf L q" "sem_symmetric L q"
  shows "sem_symmetric L (snd (revise L u now q b v p c))"
  using revise_semantic [of L u now q b v p c] sem_symmetric_contraction [OF assms]
    sem_symmetric_frame assms(2) by metis

end

section \<open>Reachable states\<close>

text \<open>
  One rule per operation that changes a quad, with any arguments; \<open>modify\<close> is a write through
  \<open>get_mut\<close>, such as the slow confidence System 2 stores, which no code uses to change the id.
\<close>

inductive session_step ::
  "('s, 'a, 'b, 'c, 'd) lib \<Rightarrow> (string set \<Rightarrow> string list) \<Rightarrow> ('s, 'a, 'b, 'c, 'd) session_quad \<Rightarrow>
     ('s, 'a, 'b, 'c, 'd) session_quad \<Rightarrow> bool" for L kord where
  insert: "session_step L kord q (snd (quad_insert L q n))"
| remove: "session_step L kord q (snd (quad_remove L q b))"
| modify: "(\<And>n. id (f n) = id n) \<Longrightarrow> session_step L kord q (quad_modify L q b f)"
| semantic: "session_step L kord q (add_semantic_edge L q a b se)"
| temporal: "session_step L kord q (add_temporal_edge L q a b te)"
| causal: "session_step L kord q (add_causal_edge L q a b ce)"
| entity: "session_step L kord q (add_entity_edge L q a b ee)"
| provider: "session_step L kord q (set_embedding_provider q p)"
| no_provider: "session_step L kord q (clear_embedding_provider q)"
| thresholds: "session_step L kord q (set_semantic_equivalence q e)"
| prospective: "session_step L kord q (q\<lparr>prospective_index := i\<rparr>)"
| revise: "session_step L kord q (snd (revise L u now q b v p c))"
| system1: "(\<And>b S. finite S \<Longrightarrow> set (ord b S) = S) \<Longrightarrow> propagate_system1 L ord clock q b = Some q' \<Longrightarrow>
    session_step L kord q q'"
| checkpoint: "session_step L kord q (snd (take_checkpoint u now q))"
| rollback: "session_step L kord q (snd (rollback_to L kord q u))"
| clear: "session_step L kord q (clear_checkpoints q)"

inductive_cases session_stepE: "session_step L kord q q'"

inductive reachable ::
  "('s, 'a, 'b, 'c, 'd) lib \<Rightarrow> (string set \<Rightarrow> string list) \<Rightarrow> ('s, 'a, 'b, 'c, 'd) session_quad \<Rightarrow> bool"
  for L kord where
  start: "reachable L kord (session_new L)"
| step: "reachable L kord q \<Longrightarrow> session_step L kord q q' \<Longrightarrow> reachable L kord q'"

definition session_wf :: "('s, 'a, 'b, 'c, 'd) lib \<Rightarrow> ('s, 'a, 'b, 'c, 'd) session_quad \<Rightarrow> bool" where
  "session_wf L q \<longleftrightarrow> quad_wf L q \<and> sem_symmetric L q \<and>
     (\<forall>cp \<in> set (checkpoints q). quad_wf L (cp_quad cp) \<and> sem_symmetric L (cp_quad cp))"

text \<open>The well-formedness of a quad and the symmetry of its edges read these fields only.\<close>

lemma quad_wf_cong:
  "nodes q = nodes r \<Longrightarrow> semantic q = semantic r \<Longrightarrow> temporal q = temporal r \<Longrightarrow> causal q = causal r \<Longrightarrow>
   entity q = entity r \<Longrightarrow> quad_wf L q = quad_wf L r"
  by (simp add: quad_wf_def beliefs_def quad_get_fun)

lemma truncate_fields [simp]:
  "nodes (quad.truncate q) = nodes q" "semantic (quad.truncate q) = semantic q"
  "temporal (quad.truncate q) = temporal q" "causal (quad.truncate q) = causal q"
  "entity (quad.truncate q) = entity q" "version (quad.truncate q) = version q"
  by (simp_all add: quad.truncate_def)

lemma with_checkpoints_fields [simp]:
  "nodes (with_checkpoints q cps) = nodes q" "semantic (with_checkpoints q cps) = semantic q"
  "temporal (with_checkpoints q cps) = temporal q" "causal (with_checkpoints q cps) = causal q"
  "entity (with_checkpoints q cps) = entity q" "checkpoints (with_checkpoints q cps) = cps"
  by (simp_all add: with_checkpoints_def quad.extend_def)

lemma truncate_with_checkpoints [simp]: "quad.truncate (with_checkpoints q cps) = q"
  by (simp add: with_checkpoints_def quad.extend_def quad.truncate_def)

lemma modify_checkpoints [simp]: "checkpoints (quad_modify L q b f) = checkpoints q"
  by (simp add: quad_modify_def split: option.split)

lemma insert_checkpoints [simp]: "checkpoints (snd (quad_insert L q n)) = checkpoints q"
  by (simp add: quad_insert_def split: prod.split)

lemma remove_checkpoints [simp]: "checkpoints (snd (quad_remove L q b)) = checkpoints q"
  by (simp add: quad_remove_def split: prod.split option.split)

lemma contraction_checkpoints [simp]: "checkpoints (apply_contraction L q S) = checkpoints q"
  unfolding apply_contraction_def by (rule fold_invariant [where I = "\<lambda>r. checkpoints r = checkpoints q"]) simp_all

lemma revise_checkpoints [simp]: "checkpoints (snd (revise L u now q b v p c)) = checkpoints q"
  by (auto simp: revise_def expand_only_def contract_expand_def Let_def split: prod.split option.split)

lemma session_wf_frame:
  "session_wf L q \<Longrightarrow> quad_wf L q' \<Longrightarrow> sem_symmetric L q' \<Longrightarrow> checkpoints q' = checkpoints q \<Longrightarrow> session_wf L q'"
  by (simp add: session_wf_def)

context belief_lib
begin

lemma session_step_wf:
  assumes "session_step L kord q q'" "session_wf L q"
  shows "session_wf L q'"
proof -
  have w: "quad_wf L q" and y: "sem_symmetric L q" using assms(2) by (simp_all add: session_wf_def)
  note frame = session_wf_frame [OF assms(2)]
  from assms(1) show ?thesis
  proof (cases rule: session_step.cases)
    case (insert n)
    show ?thesis unfolding insert
      by (rule frame) (simp_all add: insert_wf [OF w prod.collapse [symmetric]] sem_symmetric_insert [OF w y])
  next
    case (remove b)
    show ?thesis unfolding remove by (rule frame) (simp_all add: remove_wf [OF w] sem_symmetric_remove [OF w y])
  next
    case (modify f b)
    show ?thesis unfolding modify(1)
      by (rule frame) (use y in \<open>simp_all add: modify_wf [OF w modify(2)] sem_symmetric_def\<close>)
  next
    case (semantic a b se)
    show ?thesis unfolding semantic
      by (rule frame) (simp_all add: add_edge_wf(1) [OF w] sem_symmetric_add_edge [OF w y],
        simp add: add_semantic_edge_def)
  next
    case (temporal a b te)
    show ?thesis unfolding temporal
      by (rule frame) (use y in \<open>simp_all add: add_edge_wf(2) [OF w, unfolded add_temporal_edge_def] add_temporal_edge_def sem_symmetric_def\<close>)
  next
    case (causal a b ce)
    show ?thesis unfolding causal
      by (rule frame) (use y in \<open>simp_all add: add_edge_wf(3) [OF w, unfolded add_causal_edge_def] add_causal_edge_def sem_symmetric_def\<close>)
  next
    case (entity a b ee)
    show ?thesis unfolding entity
      by (rule frame) (use y in \<open>simp_all add: add_edge_wf(4) [OF w, unfolded add_entity_edge_def] add_entity_edge_def sem_symmetric_def\<close>)
  next
    case (provider p)
    have "quad_wf L q' = quad_wf L q" unfolding provider by (rule quad_wf_cong) (simp_all add: set_embedding_provider_def)
    then show ?thesis using w y unfolding provider
      by (intro frame) (simp_all add: set_embedding_provider_def sem_symmetric_def)
  next
    case no_provider
    have "quad_wf L q' = quad_wf L q" unfolding no_provider by (rule quad_wf_cong) (simp_all add: clear_embedding_provider_def)
    then show ?thesis using w y unfolding no_provider
      by (intro frame) (simp_all add: clear_embedding_provider_def sem_symmetric_def)
  next
    case (thresholds e)
    have "quad_wf L q' = quad_wf L q" unfolding thresholds by (rule quad_wf_cong) (simp_all add: set_semantic_equivalence_def)
    then show ?thesis using w y unfolding thresholds
      by (intro frame) (simp_all add: set_semantic_equivalence_def sem_symmetric_def)
  next
    case (prospective i)
    have "quad_wf L q' = quad_wf L q" unfolding prospective by (rule quad_wf_cong) simp_all
    then show ?thesis using w y unfolding prospective by (intro frame) (simp_all add: sem_symmetric_def)
  next
    case (revise u now b v p c)
    show ?thesis unfolding revise by (rule frame) (simp_all add: revise_wf [OF w] sem_symmetric_revise [OF w y])
  next
    case (system1 ord clock b)
    obtain q2 V where "propagate_inner L ord clock (quad_len L q + 2) q {} b = Some (q2, V)"
      "only_fast L (causal_reach L (causal q) {b}) q q2"
      using propagate_system1_total [where ord = ord, OF _ w] system1(1) by blast
    then have o: "only_fast L (causal_reach L (causal q) {b}) q q'"
      using system1(2) by (simp add: propagate_system1_def)
    then have "q' = q\<lparr>nodes := nodes q'\<rparr>" "quad_wf L q'" by (simp_all add: only_fast_def)
    then have "semantic q' = semantic q" "checkpoints q' = checkpoints q"
      by (metis quad.select_convs(2) quad.surjective quad.update_convs(1),
          metis session_quad.select_convs(1) session_quad.surjective quad.update_convs(1))
    then show ?thesis using \<open>quad_wf L q'\<close> y sem_symmetric_frame [of q' q L] by (intro frame) simp_all
  next
    case (checkpoint u now)
    have "quad_wf L q' = quad_wf L q"
      unfolding checkpoint by (rule quad_wf_cong) (simp_all add: take_checkpoint_def Let_def)
    moreover have "quad_wf L (quad.truncate q) = quad_wf L q" by (rule quad_wf_cong) simp_all
    ultimately show ?thesis using assms(2) unfolding checkpoint
      by (auto simp: session_wf_def take_checkpoint_def Let_def capture_def sem_symmetric_def)
  next
    case (rollback u)
    show ?thesis
    proof (cases "List.find (\<lambda>c. cp_id c = u) (checkpoints q)")
      case None
      then show ?thesis using assms(2) by (simp add: rollback rollback_to_def)
    next
      case (Some c)
      then have c: "c \<in> set (checkpoints q)" by (simp add: find_Some_set)
      have "quad_wf L (with_checkpoints (cp_quad c) []) = quad_wf L (cp_quad c)" by (rule quad_wf_cong) simp_all
      then have "session_wf L (with_checkpoints (cp_quad c) [])"
        using assms(2) c by (simp add: session_wf_def sem_symmetric_def)
      then show ?thesis using Some assms(2) by (simp add: rollback rollback_to_def Let_def)
    qed
  next
    case clear
    have "quad_wf L q' = quad_wf L q" unfolding clear by (rule quad_wf_cong) (simp_all add: clear_checkpoints_def)
    then show ?thesis using w y unfolding clear
      by (simp add: session_wf_def clear_checkpoints_def sem_symmetric_def)
  qed
qed

lemma reachable_session_wf: "reachable L kord q \<Longrightarrow> session_wf L q"
proof (induction rule: reachable.induct)
  case start
  have "quad_wf L (session_new L) = quad_wf L (quad_new L)" by (rule quad_wf_cong) (simp_all add: session_new_def)
  moreover have "sem_edges L (session_new L) = []"
    using sem.proj_new_wf by (simp add: session_new_def quad_new_def graph_ops_defs)
  ultimately show ?case using new_wf by (simp add: session_wf_def sem_symmetric_def session_new_def)
next
  case (step q q')
  then show ?case using session_step_wf by blast
qed

end

section \<open>Properties\<close>

text \<open>
  C2. In every state a session can reach, by any sequence of its operations with any arguments
  and including rollbacks, the slot map and the four graphs hold exactly the same beliefs under
  consistent indices, every edge joins beliefs of the quad, contradictions and synonyms are
  stored in both directions, and the same is true of every snapshot.
\<close>

theorem reachable_synchronised:
  assumes "belief_lib L" "reachable L kord q"
  shows "quad_wf L q \<and> sem_symmetric L q \<and>
    (\<forall>a b e. (a, b, e) \<in> set (cau_edges L q) \<longrightarrow> a \<in> beliefs L q \<and> b \<in> beliefs L q) \<and>
    (\<forall>cp \<in> set (checkpoints q). quad_wf L (cp_quad cp) \<and> sem_symmetric L (cp_quad cp))"
proof -
  have s: "session_wf L q" by (rule belief_lib.reachable_session_wf [OF assms])
  then have w: "quad_wf L q" by (simp add: session_wf_def)
  have "a \<in> beliefs L q \<and> b \<in> beliefs L q" if "(a, b, e) \<in> set (cau_edges L q)" for a b e
    using that belief_lib.cau_rel_ends [OF assms(1) w, of a b] by (auto simp: proj_rel_def)
  then show ?thesis using s by (auto simp: session_wf_def)
qed

theorem reachable_synchronised_witness:
  "quad_wf ref_lib (snd (quad_insert ref_lib (session_new ref_lib) (demo_node ''a'' 1)))"
proof -
  have "reachable ref_lib sorted_list_of_set (snd (quad_insert ref_lib (session_new ref_lib) (demo_node ''a'' 1)))"
    by (rule reachable.step [OF reachable.start session_step.insert])
  from reachable_synchronised [OF ref_belief_lib this] show ?thesis by blast
qed

lemma rollback_captured:
  assumes "u \<notin> cp_id ` set (checkpoints q)"
    "checkpoints q2 = checkpoints (snd (take_checkpoint u now q)) @ later"
  shows "rollback_to L kord q2 u =
    (if has_contradictions (quad_diff L kord q2 (quad.truncate q))
     then (Inr (quad_diff L kord q2 (quad.truncate q)), with_checkpoints (quad.truncate q) [])
     else (Inl (UnnecessaryContraction (quad_diff L kord q2 (quad.truncate q))), q2))"
proof -
  have "List.find (\<lambda>c. cp_id c = u) (xs @ capture u now q # ys) = Some (capture u now q)"
    if "u \<notin> cp_id ` set xs" for xs ys
    using that by (induction xs) (auto simp: capture_def)
  then have "List.find (\<lambda>c. cp_id c = u) (checkpoints q2) = Some (capture u now q)"
    using assms by (simp add: take_checkpoint_def Let_def)
  then show ?thesis by (simp add: rollback_to_def Let_def capture_def)
qed

definition demo_session where
  "demo_session = with_checkpoints demo_quad []"

text \<open>
  C13. Rolling back to a checkpoint, after any changes that kept it, restores the quad exactly
  as it was when the checkpoint was taken, every field included; it is refused, and nothing
  changes, exactly when the diff shows no change (the K*4 guard).
\<close>

theorem rollback_restores:
  assumes "u \<notin> cp_id ` set (checkpoints q)"
    "checkpoints q2 = checkpoints (snd (take_checkpoint u now q)) @ later"
  shows "rollback_to L kord q2 u =
    (if has_contradictions (quad_diff L kord q2 (quad.truncate q))
     then (Inr (quad_diff L kord q2 (quad.truncate q)), with_checkpoints (quad.truncate q) [])
     else (Inl (UnnecessaryContraction (quad_diff L kord q2 (quad.truncate q))), q2))"
  using assms by (rule rollback_captured)

theorem rollback_restores_witness:
  "rollback_to ref_lib sorted_list_of_set (snd (take_checkpoint 7 0 demo_session)) 7 =
     (Inl (UnnecessaryContraction (quad_diff ref_lib sorted_list_of_set
         (snd (take_checkpoint 7 0 demo_session)) (quad.truncate demo_session))),
      snd (take_checkpoint 7 0 demo_session))"
proof -
  let ?q = "snd (take_checkpoint 7 0 demo_session)"
  have "(7 :: uuid) \<notin> cp_id ` set (checkpoints demo_session)" by (simp add: demo_session_def)
  moreover have "checkpoints ?q = checkpoints ?q @ []" by simp
  moreover have "\<not> has_contradictions (quad_diff ref_lib sorted_list_of_set ?q (quad.truncate demo_session))"
  proof -
    have n: "nodes ?q = nodes (quad.truncate demo_session)" by (simp add: take_checkpoint_def Let_def)
    show ?thesis
      using diff_reports [of sorted_list_of_set ref_lib ?q "quad.truncate demo_session"]
      unfolding by_key_nodes [OF n] by auto
  qed
  ultimately show ?thesis
    using rollback_restores [of 7 demo_session ?q 0 "[]" ref_lib sorted_list_of_set] by simp
qed

text \<open>
  A successful rollback leaves no checkpoint behind, although earlier ones are documented to
  stay accessible on the live quad: any further rollback fails with \<open>CheckpointNotFound\<close>.
\<close>

theorem rollback_forgets:
  assumes "rollback_to L kord q u = (Inr d, q')"
  shows "checkpoint_count q' = 0 \<and> (\<forall>w. rollback_to L kord q' w = (Inl (CheckpointNotFound w), q'))"
proof -
  obtain p where "q' = with_checkpoints p []"
  proof (cases "List.find (\<lambda>c. cp_id c = u) (checkpoints q)")
    case None
    then show ?thesis using assms by (simp add: rollback_to_def)
  next
    case (Some c)
    then show ?thesis using assms by (intro that [of "cp_quad c"]) (simp add: rollback_to_def Let_def split: if_splits)
  qed
  then have "checkpoints q' = []" by simp
  then show ?thesis by (simp add: checkpoint_count_def rollback_to_def)
qed

theorem rollback_forgets_witness:
  "\<exists>d q'. rollback_to ref_lib sorted_list_of_set
      (with_checkpoints (quad_new ref_lib) [capture 7 0 demo_quad]) 7 = (Inr d, q') \<and> checkpoint_count q' = 0"
proof -
  let ?q = "with_checkpoints (quad_new ref_lib) [capture 7 0 demo_quad]"
  define r where "r = rollback_to ref_lib sorted_list_of_set ?q 7"
  have "quad_keys ref_lib (quad_new ref_lib) \<noteq> quad_keys ref_lib demo_quad" by code_simp
  then have "quad_keys ref_lib ?q \<noteq> quad_keys ref_lib (quad.truncate demo_quad)"
    by (simp add: quad_keys_def quad_iter_def)
  then have "has_contradictions (quad_diff ref_lib sorted_list_of_set ?q (quad.truncate demo_quad))"
    using diff_reports [of sorted_list_of_set ref_lib ?q "quad.truncate demo_quad"] by simp
  then have "\<not> isl (fst r)" by (simp add: r_def rollback_to_def Let_def capture_def)
  then obtain d q' where "r = (Inr d, q')" by (cases r; cases "fst r") auto
  then show ?thesis using rollback_forgets [of ref_lib sorted_list_of_set ?q 7 d q'] unfolding r_def by blast
qed

text \<open>
  The text form of a checkpoint id reads back to the same id, with its prefix and without.
\<close>

theorem checkpoint_id_roundtrip:
  assumes "uuid_text show_uuid parse_uuid"
  shows "checkpoint_id_parse parse_uuid (checkpoint_id_display show_uuid u) = Some u \<and>
    checkpoint_id_parse parse_uuid (show_uuid u) = Some u"
  by (simp add: uuid_text.parse_display [OF assms] uuid_text.parse_bare [OF assms])

theorem checkpoint_id_roundtrip_witness:
  "checkpoint_id_parse canonical_parse (checkpoint_id_display canonical_show 7) = Some 7"
  using checkpoint_id_roundtrip [OF canonical_uuid.uuid_text_axioms] by blast

end
