(* ===== verification/Audit_Ledger.thy ===== *)
theory Audit_Ledger
  imports Belief
begin

text \<open>
  The tamper-evident audit ledger of \<open>epica-contracts/src/sovereignty/ledger.rs\<close> with the entry
  type of \<open>audit.rs\<close>: the hash chain with its verifier, the Merkle root over the entries, inclusion
  proofs and their check. BLAKE3 and the JSON encoder of serde are parameters, bundled in the record
  \<open>hashing\<close>; what is used of BLAKE3 is the length of its digests (locale \<open>digest_hash\<close>) and,
  where a theorem says so, that the inputs hashed in one computation do not collide.
\<close>

section \<open>Entries and ledgers\<close>

type_synonym digest = "u8 list"

datatype audit_event_type =
    BeliefWrite
  | BeliefUpdate
  | BeliefRead
  | BeliefForgotten
  | ContractViolationEvent
  | RecoveryExecuted
  | AuthDenied

record audit_entry =
  timestamp_ms :: u64
  event_type :: audit_event_type
  belief_key :: "string option"
  agent_id :: "string option"
  details :: json

text \<open>The clock reading is an argument.\<close>

definition audit_entry_now ::
  "u64 \<Rightarrow> audit_event_type \<Rightarrow> string option \<Rightarrow> string option \<Rightarrow> json \<Rightarrow> audit_entry" where
  "audit_entry_now now t k a d =
     \<lparr> timestamp_ms = now, event_type = t, belief_key = k, agent_id = a, details = d \<rparr>"

record ledger_entry =
  seq :: u64
  entry :: audit_entry
  prev_hash :: digest
  self_hash :: digest

datatype ledger_tamper_error = EntryHashMismatch nat | ChainLinkBroken nat

record audit_ledger =
  entries :: "ledger_entry list"
  last_hash :: digest

record hashing =
  blake3 :: "u8 list \<Rightarrow> digest"
  to_vec :: "audit_entry \<Rightarrow> u8 list option"

definition zero_digest :: digest where
  "zero_digest = replicate 32 0"

definition ledger_new :: audit_ledger where
  "ledger_new = \<lparr> entries = [], last_hash = zero_digest \<rparr>"

definition ledger_len :: "audit_ledger \<Rightarrow> nat" where
  "ledger_len l = length (entries l)"

definition ledger_is_empty :: "audit_ledger \<Rightarrow> bool" where
  "ledger_is_empty l \<longleftrightarrow> entries l = []"

definition head_hash :: "audit_ledger \<Rightarrow> digest" where
  "head_hash l = last_hash l"

section \<open>Hashing\<close>

definition leaf_hash :: "hashing \<Rightarrow> digest \<Rightarrow> digest" where
  "leaf_hash H d = blake3 H (0 # d)"

definition node_hash :: "hashing \<Rightarrow> digest \<Rightarrow> digest \<Rightarrow> digest" where
  "node_hash H l r = blake3 H (1 # l @ r)"

definition canonical :: "hashing \<Rightarrow> audit_entry \<Rightarrow> u8 list" where
  "canonical H e = (case to_vec H e of None \<Rightarrow> [] | Some bytes \<Rightarrow> bytes)"

definition hash_entry :: "hashing \<Rightarrow> digest \<Rightarrow> audit_entry \<Rightarrow> digest" where
  "hash_entry H prev e = blake3 H (prev @ canonical H e)"

section \<open>The chain\<close>

definition ledger_append :: "hashing \<Rightarrow> audit_entry \<Rightarrow> audit_ledger \<Rightarrow> ledger_entry \<times> audit_ledger" where
  "ledger_append H e l =
     (let sealed = \<lparr> seq = of_nat (length (entries l)), entry = e, prev_hash = last_hash l,
                     self_hash = hash_entry H (last_hash l) e \<rparr>
      in (sealed, l \<lparr> entries := entries l @ [sealed], last_hash := self_hash sealed \<rparr>))"

fun verify_from :: "hashing \<Rightarrow> nat \<Rightarrow> digest \<Rightarrow> ledger_entry list \<Rightarrow> ledger_tamper_error + unit" where
  "verify_from H i expected [] = Inr ()"
| "verify_from H i expected (e # es) =
     (if seq e \<noteq> of_nat i then Inl (ChainLinkBroken i)
      else if prev_hash e \<noteq> expected then Inl (ChainLinkBroken i)
      else if hash_entry H (prev_hash e) (entry e) \<noteq> self_hash e then Inl (EntryHashMismatch i)
      else verify_from H (Suc i) (self_hash e) es)"

definition verify_chain :: "hashing \<Rightarrow> audit_ledger \<Rightarrow> ledger_tamper_error + unit" where
  "verify_chain H l = verify_from H 0 zero_digest (entries l)"

section \<open>The Merkle tree\<close>

text \<open>One pass of the reduction: neighbours are paired, an odd tail with itself.\<close>

fun next_level :: "hashing \<Rightarrow> digest list \<Rightarrow> digest list" where
  "next_level H [] = []"
| "next_level H [x] = [node_hash H x x]"
| "next_level H (x # y # zs) = node_hash H x y # next_level H zs"

text \<open>The inputs hashed by one pass.\<close>

fun level_inputs :: "digest list \<Rightarrow> u8 list list" where
  "level_inputs [] = []"
| "level_inputs [x] = [1 # x @ x]"
| "level_inputs (x # y # zs) = (1 # x @ y) # level_inputs zs"

lemma next_level_map: "next_level H level = map (blake3 H) (level_inputs level)"
  by (induction H level rule: next_level.induct) (auto simp: node_hash_def)

lemma length_next_level [simp]: "length (next_level H level) = (length level + 1) div 2"
  by (induction H level rule: next_level.induct) auto

function reduce_levels :: "hashing \<Rightarrow> digest list \<Rightarrow> digest" where
  "reduce_levels H level =
     (if 1 < length level then reduce_levels H (next_level H level) else level ! 0)"
  by auto
termination by (relation "measure (\<lambda>(H, level). length level)") auto

declare reduce_levels.simps [simp del]

definition leaf_level :: "hashing \<Rightarrow> audit_ledger \<Rightarrow> digest list" where
  "leaf_level H l = map (\<lambda>e. leaf_hash H (self_hash e)) (entries l)"

lemma length_leaf_level [simp]: "length (leaf_level H l) = length (entries l)"
  by (simp add: leaf_level_def)

definition merkle_root :: "hashing \<Rightarrow> audit_ledger \<Rightarrow> digest" where
  "merkle_root H l = (if entries l = [] then zero_digest else reduce_levels H (leaf_level H l))"

definition sibling :: "nat \<Rightarrow> nat \<Rightarrow> nat" where
  "sibling path n = (if path mod 2 = 0 then (if path + 1 < n then path + 1 else path) else path - 1)"

function proof_levels :: "hashing \<Rightarrow> digest list \<Rightarrow> nat \<Rightarrow> digest list" where
  "proof_levels H level path =
     (if 1 < length level
      then level ! sibling path (length level) # proof_levels H (next_level H level) (path div 2)
      else [])"
  by auto
termination by (relation "measure (\<lambda>(H, level, path). length level)") auto

declare proof_levels.simps [simp del]

definition merkle_proof :: "hashing \<Rightarrow> audit_ledger \<Rightarrow> u64 \<Rightarrow> digest list option" where
  "merkle_proof H l s =
     (let idx = unat s
      in if length (entries l) \<le> idx then None else Some (proof_levels H (leaf_level H l) idx))"

text \<open>\<open>div_ceil\<close> of a \<open>usize\<close> does not overflow, so \<open>nat\<close> is exact.\<close>

definition verify_step :: "hashing \<Rightarrow> digest \<times> nat \<times> nat \<Rightarrow> digest \<Rightarrow> digest \<times> nat \<times> nat" where
  "verify_step H st sib =
     (case st of (acc, path, level_size) \<Rightarrow>
        (if path mod 2 = 0 then node_hash H acc sib else node_hash H sib acc,
         path div 2, (level_size + 1) div 2))"

definition verify_merkle_proof ::
  "hashing \<Rightarrow> digest \<Rightarrow> u64 \<Rightarrow> u64 \<Rightarrow> digest list \<Rightarrow> digest \<Rightarrow> bool" where
  "verify_merkle_proof H leaf s n sibs rt =
     (if n = 0 \<or> n \<le> s then False
      else (case foldl (verify_step H) (leaf_hash H leaf, unat s, unat n) sibs of
              (acc, path, level_size) \<Rightarrow> level_size = 1 \<and> acc = rt))"

section \<open>The digest function as an interface\<close>

locale digest_hash =
  fixes h :: "u8 list \<Rightarrow> digest"
  assumes digest_length: "length (h x) = 32"
begin

lemma split_digest: "h x @ a = h y @ b \<longleftrightarrow> h x = h y \<and> a = b"
  by (simp add: digest_length)

end

text \<open>An executable digest function for concrete runs: a one-byte checksum after a fixed prefix.\<close>

definition sum_digest :: "u8 list \<Rightarrow> digest" where
  "sum_digest x = replicate 31 1 @ [foldl (\<lambda>a b. 3 * a + b + 1) 0 x]"

interpretation summed: digest_hash sum_digest
  by unfold_locales (simp add: sum_digest_def)

section \<open>Correctness of the chain\<close>

text \<open>The four documented invariants, position by position.\<close>

definition entry_ok :: "hashing \<Rightarrow> ledger_entry list \<Rightarrow> nat \<Rightarrow> bool" where
  "entry_ok H es i \<longleftrightarrow>
     seq (es ! i) = of_nat i \<and>
     prev_hash (es ! i) = (if i = 0 then zero_digest else self_hash (es ! (i - 1))) \<and>
     self_hash (es ! i) = hash_entry H (prev_hash (es ! i)) (entry (es ! i))"

text \<open>The head the chain ends with, as opposed to the recorded \<open>last_hash\<close>.\<close>

definition chain_head :: "digest \<Rightarrow> ledger_entry list \<Rightarrow> digest" where
  "chain_head d es = (if es = [] then d else self_hash (last es))"

lemma chain_head_simps [simp]:
  "chain_head d [] = d" "chain_head d (es @ [e]) = self_hash e"
  "chain_head d (e # es) = chain_head (self_hash e) es"
  by (auto simp: chain_head_def)

lemma verify_from_append:
  "verify_from H i d (es @ fs) =
     (case verify_from H i d es of
        Inl e \<Rightarrow> Inl e
      | Inr _ \<Rightarrow> verify_from H (i + length es) (chain_head d es) fs)"
  by (induction es arbitrary: i d) (auto split: sum.split)

definition link_ok :: "hashing \<Rightarrow> nat \<Rightarrow> digest \<Rightarrow> ledger_entry \<Rightarrow> bool" where
  "link_ok H i d e \<longleftrightarrow> seq e = of_nat i \<and> prev_hash e = d \<and> self_hash e = hash_entry H d (entry e)"

lemma verify_from_Inr:
  "verify_from H i d es = Inr u \<longleftrightarrow>
     (\<forall>k < length es. link_ok H (i + k) (chain_head d (take k es)) (es ! k))"
proof (induction es arbitrary: i d)
  case (Cons e es)
  have "(\<forall>k < length (e # es). link_ok H (i + k) (chain_head d (take k (e # es))) ((e # es) ! k)) \<longleftrightarrow>
    link_ok H i d e \<and> (\<forall>k < length es. link_ok H (Suc i + k) (chain_head (self_hash e) (take k es)) (es ! k))"
    by (simp add: All_less_Suc2)
  then show ?case using Cons [of "Suc i" "self_hash e"] by (auto simp: link_ok_def)
qed simp

lemma chain_head_take:
  "k < length es \<Longrightarrow> chain_head d (take k es) = (if k = 0 then d else self_hash (es ! (k - 1)))"
  by (cases k) (auto simp: chain_head_def last_conv_nth min_def)

lemma entry_ok_link: "k < length es \<Longrightarrow> entry_ok H es k \<longleftrightarrow> link_ok H k (chain_head zero_digest (take k es)) (es ! k)"
  by (auto simp: entry_ok_def link_ok_def chain_head_take)

lemma verify_chain_Inr:
  "verify_chain H l = Inr u \<longleftrightarrow> (\<forall>k < length (entries l). entry_ok H (entries l) k)"
  by (simp add: verify_chain_def verify_from_Inr entry_ok_link)

lemma verify_from_Inl:
  "verify_from H i d es = Inl err \<Longrightarrow> \<exists>k < length es.
     (\<forall>j < k. link_ok H (i + j) (chain_head d (take j es)) (es ! j)) \<and>
     \<not> link_ok H (i + k) (chain_head d (take k es)) (es ! k) \<and>
     err = (if seq (es ! k) = of_nat (i + k) \<and> prev_hash (es ! k) = chain_head d (take k es)
            then EntryHashMismatch (i + k) else ChainLinkBroken (i + k))"
proof (induction es arbitrary: i d)
  case (Cons e es)
  show ?case
  proof (cases "link_ok H i d e")
    case True
    then have "verify_from H (Suc i) (self_hash e) es = Inl err"
      using Cons.prems by (auto simp: link_ok_def)
    from Cons.IH [OF this] obtain k where k: "k < length es"
      "\<forall>j < k. link_ok H (Suc i + j) (chain_head (self_hash e) (take j es)) (es ! j)"
      "\<not> link_ok H (Suc i + k) (chain_head (self_hash e) (take k es)) (es ! k)"
      "err = (if seq (es ! k) = of_nat (Suc i + k) \<and> prev_hash (es ! k) = chain_head (self_hash e) (take k es)
              then EntryHashMismatch (Suc i + k) else ChainLinkBroken (Suc i + k))" by blast
    with True show ?thesis by (intro exI [of _ "Suc k"]) (simp add: All_less_Suc2)
  next
    case False
    then show ?thesis using Cons.prems by (intro exI [of _ 0]) (auto simp: link_ok_def split: if_splits)
  qed
qed simp

lemma ledger_append_simps [simp]:
  "entries (snd (ledger_append H e l)) = entries l @ [fst (ledger_append H e l)]"
  "last_hash (snd (ledger_append H e l)) = self_hash (fst (ledger_append H e l))"
  "entry (fst (ledger_append H e l)) = e"
  "seq (fst (ledger_append H e l)) = of_nat (length (entries l))"
  "prev_hash (fst (ledger_append H e l)) = last_hash l"
  "self_hash (fst (ledger_append H e l)) = hash_entry H (last_hash l) e"
  by (simp_all add: ledger_append_def Let_def)

text \<open>
  C26. The verifier is exact: it accepts when every entry satisfies the four documented invariants,
  and otherwise reports the first entry that violates them, with the error that names the cause.
\<close>

theorem verify_chain_exact:
  "case verify_chain H l of
     Inr _ \<Rightarrow> \<forall>k < length (entries l). entry_ok H (entries l) k
   | Inl err \<Rightarrow> \<exists>i < length (entries l). (\<forall>k < i. entry_ok H (entries l) k) \<and>
       \<not> entry_ok H (entries l) i \<and>
       (err = EntryHashMismatch i \<and>
          self_hash (entries l ! i) \<noteq> hash_entry H (prev_hash (entries l ! i)) (entry (entries l ! i)) \<or>
        err = ChainLinkBroken i \<and>
          (seq (entries l ! i) \<noteq> of_nat i \<or>
           prev_hash (entries l ! i) \<noteq> (if i = 0 then zero_digest else self_hash (entries l ! (i - 1)))))"
proof (cases "verify_chain H l")
  case (Inl err)
  from verify_from_Inl [OF this [unfolded verify_chain_def]] obtain i where i: "i < length (entries l)"
    "\<forall>j < i. link_ok H j (chain_head zero_digest (take j (entries l))) (entries l ! j)"
    "\<not> link_ok H i (chain_head zero_digest (take i (entries l))) (entries l ! i)"
    "err = (if seq (entries l ! i) = of_nat i \<and> prev_hash (entries l ! i) = chain_head zero_digest (take i (entries l))
            then EntryHashMismatch i else ChainLinkBroken i)" by auto
  then have "\<forall>k < i. entry_ok H (entries l) k" "\<not> entry_ok H (entries l) i" by (auto simp: entry_ok_link)
  with i(1,4) Inl show ?thesis
    by (auto simp: entry_ok_def chain_head_take intro!: exI [of _ i] split: if_splits)
next
  case (Inr u)
  then have "\<forall>k < length (entries l). entry_ok H (entries l) k" by (simp only: verify_chain_Inr)
  with Inr show ?thesis by simp
qed

section \<open>Ledgers built by appending\<close>

definition ledger_of :: "hashing \<Rightarrow> audit_entry list \<Rightarrow> audit_ledger" where
  "ledger_of H es = fold (\<lambda>e l. snd (ledger_append H e l)) es ledger_new"

definition sealed_ok :: "hashing \<Rightarrow> audit_ledger \<Rightarrow> bool" where
  "sealed_ok H l \<longleftrightarrow> verify_chain H l = Inr () \<and> head_hash l = chain_head zero_digest (entries l)"

lemma sealed_ok_new [simp]: "sealed_ok H ledger_new"
  by (simp add: sealed_ok_def verify_chain_def ledger_new_def head_hash_def)

lemma sealed_ok_append:
  assumes "sealed_ok H l"
  shows "sealed_ok H (snd (ledger_append H e l))"
proof -
  show ?thesis using assms
    by (simp add: sealed_ok_def verify_chain_def verify_from_append head_hash_def)
qed

lemma sealed_ok_fold: "sealed_ok H l \<Longrightarrow> sealed_ok H (fold (\<lambda>e l. snd (ledger_append H e l)) es l)"
  by (induction es arbitrary: l) (simp_all add: sealed_ok_append)

lemma entries_fold_append:
  "map entry (entries (fold (\<lambda>e l. snd (ledger_append H e l)) es l)) = map entry (entries l) @ es"
  by (induction es arbitrary: l) simp_all

text \<open>
  C27. A ledger built by appends records exactly the appended entries in order, passes its own
  verification, and its head hash is the hash of its last entry.
\<close>

theorem appended_ledger_verifies:
  "map entry (entries (ledger_of H es)) = es \<and>
   verify_chain H (ledger_of H es) = Inr () \<and>
   head_hash (ledger_of H es) = (if es = [] then zero_digest else self_hash (last (entries (ledger_of H es))))"
proof -
  have "sealed_ok H (ledger_of H es)" by (simp add: ledger_of_def sealed_ok_fold)
  moreover have m: "map entry (entries (ledger_of H es)) = es"
    by (simp add: ledger_of_def entries_fold_append) (simp add: ledger_new_def)
  moreover have "entries (ledger_of H es) = [] \<longleftrightarrow> es = []" using m by (metis map_is_Nil_conv)
  ultimately show ?thesis by (simp add: sealed_ok_def chain_head_def)
qed

section \<open>Tamper evidence\<close>

definition entry_inputs :: "hashing \<Rightarrow> ledger_entry list \<Rightarrow> u8 list set" where
  "entry_inputs H es = (\<lambda>e. prev_hash e @ canonical H (entry e)) ` set es"

lemma verify_from_snoc:
  "verify_from H 0 zero_digest (es @ [e]) = Inr () \<longleftrightarrow>
     verify_from H 0 zero_digest es = Inr () \<and> link_ok H (length es) (chain_head zero_digest es) e"
  by (auto simp: verify_from_append link_ok_def split: sum.split)

context digest_hash begin

lemma chain_head_length:
  assumes "blake3 H = h" "verify_from H 0 zero_digest es = Inr ()"
  shows "length (chain_head zero_digest es) = 32"
  using assms
  by (cases es rule: rev_cases)
     (auto simp: zero_digest_def digest_length hash_entry_def link_ok_def verify_from_snoc [unfolded zero_digest_def])

lemma chain_determined:
  assumes "blake3 H = h"
    and "verify_from H 0 zero_digest es = Inr ()" "verify_from H 0 zero_digest fs = Inr ()"
    and "chain_head zero_digest es = chain_head zero_digest fs"
    and "inj_on h S" "zero_digest \<notin> h ` S" "entry_inputs H es \<subseteq> S" "entry_inputs H fs \<subseteq> S"
    and "inj_on (canonical H) A" "entry ` set es \<subseteq> A" "entry ` set fs \<subseteq> A"
  shows "es = fs"
  using assms(2-4,7,8,10,11)
proof (induction es arbitrary: fs rule: rev_induct)
  case Nil
  then show ?case using assms(1,6)
    by (cases fs rule: rev_cases) (auto simp: verify_from_snoc link_ok_def hash_entry_def entry_inputs_def)
next
  case (snoc e es)
  note e = snoc.prems(1) [unfolded verify_from_snoc]
  show ?case
  proof (cases fs rule: rev_cases)
    case Nil
    then show ?thesis using snoc.prems e assms(1,6)
      by (auto simp: link_ok_def hash_entry_def entry_inputs_def)
  next
    case (snoc gs g)
    note g = snoc.prems(2) [unfolded snoc verify_from_snoc]
    have "prev_hash e @ canonical H (entry e) = prev_hash g @ canonical H (entry g)"
    proof (rule inj_onD [OF assms(5)])
      have "self_hash e = self_hash g" using snoc.prems(3) snoc by simp
      then show "h (prev_hash e @ canonical H (entry e)) = h (prev_hash g @ canonical H (entry g))"
        using e g by (simp add: link_ok_def hash_entry_def assms(1))
      show "prev_hash e @ canonical H (entry e) \<in> S" "prev_hash g @ canonical H (entry g) \<in> S"
        using snoc.prems(4,5) snoc by (auto simp: entry_inputs_def)
    qed
    moreover have "length (prev_hash e) = 32" "length (prev_hash g) = 32"
      using e g chain_head_length [OF assms(1)] by (auto simp: link_ok_def)
    ultimately have eq: "prev_hash e = prev_hash g" "canonical H (entry e) = canonical H (entry g)" by auto
    then have "es = gs" using snoc.prems e g snoc
      by (intro snoc.IH) (auto simp: link_ok_def entry_inputs_def)
    moreover have "entry e = entry g"
      using inj_onD [OF assms(9) eq(2)] snoc.prems snoc by auto
    moreover have "e = g"
      using eq e g calculation snoc.prems(3) snoc by (intro ledger_entry.equality) (auto simp: link_ok_def)
    ultimately show ?thesis using snoc by simp
  qed
qed

end

text \<open>
  C9. Tamper evidence: a ledger that differs anywhere from a verified one but ends in the same
  head hash is rejected, as long as the inputs hashed in the two ledgers do not collide, none of
  them hashes to the genesis value, and the entries have different encodings.
\<close>

theorem tampering_detected:
  assumes "digest_hash (blake3 H)"
    and "verify_chain H l = Inr ()" "head_hash l = chain_head zero_digest (entries l)"
    and "entries l' \<noteq> entries l" "chain_head zero_digest (entries l') = head_hash l"
    and "inj_on (blake3 H) (entry_inputs H (entries l) \<union> entry_inputs H (entries l'))"
    and "zero_digest \<notin> blake3 H ` (entry_inputs H (entries l) \<union> entry_inputs H (entries l'))"
    and "inj_on (canonical H) (entry ` set (entries l) \<union> entry ` set (entries l'))"
  shows "verify_chain H l' \<noteq> Inr ()"
proof
  assume "verify_chain H l' = Inr ()"
  then have "verify_from H 0 zero_digest (entries l') = Inr ()" by (simp only: verify_chain_def)
  note determined = digest_hash.chain_determined [where S = "entry_inputs H (entries l) \<union> entry_inputs H (entries l')"
      and A = "entry ` set (entries l) \<union> entry ` set (entries l')"]
  have "entries l' = entries l"
  proof (rule determined)
    show "digest_hash (blake3 H)" by (rule assms(1))
    show "blake3 H = blake3 H" ..
    show "verify_from H 0 zero_digest (entries l') = Inr ()" by fact
    show "verify_from H 0 zero_digest (entries l) = Inr ()" using assms(2) by (simp only: verify_chain_def)
    show "chain_head zero_digest (entries l') = chain_head zero_digest (entries l)" using assms(3,5) by simp
  qed (use assms(6-8) in simp_all)
  with assms(4) show False ..
qed

definition demo_hashing :: hashing where
  "demo_hashing = \<lparr> blake3 = sum_digest, to_vec = (\<lambda>e. Some [ucast (timestamp_ms e), 7]) \<rparr>"

definition demo_entry :: "u64 \<Rightarrow> audit_entry" where
  "demo_entry t = audit_entry_now t BeliefWrite (Some ''k'') None JNull"

definition demo_ledger :: audit_ledger where
  "demo_ledger = ledger_of demo_hashing [demo_entry 1, demo_entry 2, demo_entry 3]"

definition demo_tampered :: audit_ledger where
  "demo_tampered = demo_ledger \<lparr> entries := (entries demo_ledger) [0 := (entries demo_ledger ! 0) \<lparr> entry := demo_entry 9 \<rparr>] \<rparr>"

theorem verify_chain_exact_witness:
  "verify_chain demo_hashing demo_tampered = Inl (EntryHashMismatch 0) \<and> \<not> entry_ok demo_hashing (entries demo_tampered) 0"
proof -
  have v: "verify_chain demo_hashing demo_tampered = Inl (EntryHashMismatch 0)" by code_simp
  with verify_chain_exact [where H = demo_hashing and l = demo_tampered] show ?thesis by auto
qed

lemma inj_on_list: "distinct (map f (remdups xs)) \<Longrightarrow> inj_on f (set xs)"
  by (simp add: distinct_map)

lemma entry_inputs_list:
  "entry_inputs H es \<union> entry_inputs H fs = set (map (\<lambda>e. prev_hash e @ canonical H (entry e)) (es @ fs))"
  by (auto simp: entry_inputs_def)

theorem tampering_detected_witness: "verify_chain demo_hashing demo_tampered \<noteq> Inr ()"
proof (rule tampering_detected [where l = demo_ledger])
  let ?xs = "map (\<lambda>e. prev_hash e @ canonical demo_hashing (entry e)) (entries demo_ledger @ entries demo_tampered)"
  show "digest_hash (blake3 demo_hashing)" by (simp add: demo_hashing_def summed.digest_hash_axioms)
  show "verify_chain demo_hashing demo_ledger = Inr ()" by code_simp
  show "head_hash demo_ledger = chain_head zero_digest (entries demo_ledger)" by code_simp
  show "entries demo_tampered \<noteq> entries demo_ledger" by code_simp
  show "chain_head zero_digest (entries demo_tampered) = head_hash demo_ledger" by code_simp
  show "inj_on (blake3 demo_hashing) (entry_inputs demo_hashing (entries demo_ledger) \<union> entry_inputs demo_hashing (entries demo_tampered))"
    unfolding entry_inputs_list by (rule inj_on_list) code_simp
  have "zero_digest \<notin> set (map (blake3 demo_hashing) ?xs)" by code_simp
  then show "zero_digest \<notin> blake3 demo_hashing ` (entry_inputs demo_hashing (entries demo_ledger) \<union> entry_inputs demo_hashing (entries demo_tampered))"
    unfolding entry_inputs_list set_map .
  have "inj_on (canonical demo_hashing) (set (map entry (entries demo_ledger @ entries demo_tampered)))"
    by (rule inj_on_list) code_simp
  then show "inj_on (canonical demo_hashing) (entry ` set (entries demo_ledger) \<union> entry ` set (entries demo_tampered))"
    unfolding set_map set_append image_Un .
qed

text \<open>
  Removing entries from the end is not detected: the truncated ledger still verifies, even
  with the recorded head of the full one, because the verifier never reads the recorded head.
\<close>

theorem truncation_undetected:
  assumes "verify_chain H l = Inr ()"
  shows "verify_chain H (l \<lparr> entries := take k (entries l) \<rparr>) = Inr ()"
proof -
  have "verify_from H 0 zero_digest (take k (entries l) @ drop k (entries l)) = Inr ()"
    using assms by (simp add: verify_chain_def)
  then show ?thesis unfolding verify_from_append
    by (cases "verify_from H 0 zero_digest (take k (entries l))") (simp_all add: verify_chain_def)
qed

theorem truncation_undetected_witness:
  "verify_chain demo_hashing (demo_ledger \<lparr> entries := take 2 (entries demo_ledger) \<rparr>) = Inr () \<and>
   head_hash (demo_ledger \<lparr> entries := take 2 (entries demo_ledger) \<rparr>) \<noteq>
     chain_head zero_digest (take 2 (entries demo_ledger))"
proof
  have "verify_chain demo_hashing demo_ledger = Inr ()" by code_simp
  then show "verify_chain demo_hashing (demo_ledger \<lparr> entries := take 2 (entries demo_ledger) \<rparr>) = Inr ()"
    by (rule truncation_undetected)
qed code_simp

end
