(* ===== verification/Merkle_Proofs.thy ===== *)
theory Merkle_Proofs
  imports Audit_Ledger
begin

text \<open>
  Inclusion proofs of the audit ledger: what \<open>merkle_proof\<close> produces is accepted by
  \<open>verify_merkle_proof\<close> and has logarithmic length, and an accepted proof can only be the one
  the ledger produces, for the entry at that position.
\<close>

section \<open>One level\<close>

lemma single_level [simp]: "reduce_levels H [d] = d" "proof_levels H [d] path = []"
  by (simp_all add: reduce_levels.simps [of H "[d]"] proof_levels.simps [of H "[d]"])

lemma length_level_inputs [simp]: "length (level_inputs level) = (length level + 1) div 2"
  by (induction level rule: level_inputs.induct) auto

lemma level_inputs_nth:
  "i < (length level + 1) div 2 \<Longrightarrow>
     level_inputs level ! i =
       1 # level ! (2 * i) @ level ! (if 2 * i + 1 < length level then 2 * i + 1 else 2 * i)"
proof (induction level arbitrary: i rule: level_inputs.induct)
  case (3 x y zs)
  then show ?case by (cases i) auto
qed auto

lemma next_level_nth:
  "i < (length level + 1) div 2 \<Longrightarrow>
     next_level H level ! i =
       node_hash H (level ! (2 * i)) (level ! (if 2 * i + 1 < length level then 2 * i + 1 else 2 * i))"
  by (simp add: next_level_map level_inputs_nth node_hash_def)

lemma even_path: "even p \<Longrightarrow> 2 * (p div 2) = (p :: nat)" and odd_path: "odd p \<Longrightarrow> Suc (2 * (p div 2)) = p"
  by simp_all

lemma verify_step_honest:
  assumes "path < length level" "1 < length level"
  shows "verify_step H (level ! path, path, length level) (level ! sibling path (length level)) =
    (next_level H level ! (path div 2), path div 2, length (next_level H level))"
proof (cases "even path")
  case True
  have "path div 2 < (length level + 1) div 2" using assms by simp
  from next_level_nth [OF this] True show ?thesis
    by (auto simp: verify_step_def sibling_def even_path)
next
  case False
  have "path div 2 < (length level + 1) div 2" "2 * (path div 2) + 1 < length level"
    using assms odd_path [OF False] by simp_all
  from next_level_nth [OF this(1)] this(2) False show ?thesis
    using odd_path [OF False] by (auto simp: verify_step_def sibling_def odd_iff_mod_2_eq_one)
qed

lemma proof_levels_accepted:
  assumes "path < length level"
  shows "foldl (verify_step H) (level ! path, path, length level) (proof_levels H level path) =
    (reduce_levels H level, 0, 1)"
  using assms
proof (induction H level path rule: proof_levels.induct)
  case (1 H level path)
  show ?case
  proof (cases "1 < length level")
    case True
    moreover have "path div 2 < length (next_level H level)" using 1(2) by simp
    ultimately show ?thesis
      using 1(1) verify_step_honest [OF 1(2) True, of H]
      by (simp add: proof_levels.simps [of H level path] reduce_levels.simps [of H level])
  next
    case False
    then obtain d where "level = [d]" "path = 0" using 1(2) by (cases level) auto
    then show ?thesis by simp
  qed
qed

lemma proof_levels_length:
  assumes "0 < length level"
  shows "length level \<le> 2 ^ length (proof_levels H level path) \<and>
    2 ^ length (proof_levels H level path) < 2 * length level"
  using assms
proof (induction H level path rule: proof_levels.induct)
  case (1 H level path)
  show ?case
  proof (cases "1 < length level")
    case True
    let ?n = "length (proof_levels H (next_level H level) (path div 2))"
    have "(length level + 1) div 2 \<le> 2 ^ ?n" "2 ^ ?n < 2 * ((length level + 1) div 2)"
      using 1 True by auto
    moreover have "even ((2 :: nat) ^ ?n) \<or> (2 :: nat) ^ ?n = 1" by simp
    ultimately have "length level \<le> 2 * 2 ^ ?n" "2 ^ ?n < length level" using True by presburger+
    then show ?thesis using True by (simp add: proof_levels.simps [of H level path])
  next
    case False
    then obtain d where "level = [d]" using 1(2) by (cases level) auto
    then show ?thesis by simp
  qed
qed

section \<open>Completeness\<close>

lemma merkle_proof_accepted:
  assumes "length (entries l) < 2 ^ 64" "unat s < length (entries l)"
  shows "\<exists>sibs. merkle_proof H l s = Some sibs \<and>
    verify_merkle_proof H (self_hash (entries l ! unat s)) s (of_nat (length (entries l))) sibs (merkle_root H l) \<and>
    length (entries l) \<le> 2 ^ length sibs \<and> 2 ^ length sibs < 2 * length (entries l)"
proof -
  let ?sibs = "proof_levels H (leaf_level H l) (unat s)"
  have n: "unat (of_nat (length (entries l)) :: u64) = length (entries l)"
    using assms(1) by (simp add: unat_of_nat take_bit_nat_eq_self)
  have "s < of_nat (length (entries l))" using assms(2) n by (simp add: word_less_nat_alt)
  moreover have "foldl (verify_step H) (leaf_hash H (self_hash (entries l ! unat s)), unat s, length (entries l)) ?sibs =
      (merkle_root H l, 0, 1)"
    using proof_levels_accepted [of "unat s" "leaf_level H l" H] assms(2)
    by (simp add: leaf_level_def merkle_root_def) auto
  moreover have "merkle_proof H l s = Some ?sibs" using assms(2) by (simp add: merkle_proof_def)
  moreover have "0 < length (leaf_level H l)" using assms(2) by (simp add: leaf_level_def) (cases "entries l"; simp)
  ultimately show ?thesis
    using proof_levels_length [of "leaf_level H l" H "unat s"] n
    by (auto simp: verify_merkle_proof_def leaf_level_def)
qed

text \<open>
  C28. For every position of a ledger the inclusion proof exists, is accepted against the root, and
  its length is the logarithm of the ledger's length, rounded up.
\<close>

theorem merkle_proof_complete:
  assumes "length (entries l) < 2 ^ 64" "unat s < length (entries l)"
  shows "\<exists>sibs. merkle_proof H l s = Some sibs \<and>
    verify_merkle_proof H (self_hash (entries l ! unat s)) s (of_nat (length (entries l))) sibs (merkle_root H l) \<and>
    length (entries l) \<le> 2 ^ length sibs \<and> 2 ^ length sibs < 2 * length (entries l)"
  using assms by (rule merkle_proof_accepted)

theorem merkle_proof_complete_witness:
  "\<exists>sibs. merkle_proof demo_hashing demo_ledger 2 = Some sibs \<and>
     verify_merkle_proof demo_hashing (self_hash (entries demo_ledger ! 2)) 2 3 sibs (merkle_root demo_hashing demo_ledger) \<and>
     length sibs = 2"
proof -
  have n: "length (entries demo_ledger) = 3" by code_simp
  obtain sibs where ex: "merkle_proof demo_hashing demo_ledger 2 = Some sibs"
      "verify_merkle_proof demo_hashing (self_hash (entries demo_ledger ! 2)) 2 3 sibs (merkle_root demo_hashing demo_ledger)"
      "(3 :: nat) \<le> 2 ^ length sibs" "(2 :: nat) ^ length sibs < 6"
    using merkle_proof_complete [of demo_ledger 2 demo_hashing] unfolding n by auto
  have "length sibs = 2"
  proof (rule ccontr)
    assume "length sibs \<noteq> 2"
    then consider "length sibs \<le> 1" | "3 \<le> length sibs" by linarith
    then show False
      using ex(3,4) power_increasing [of "length sibs" 1 "2 :: nat"] power_increasing [of 3 "length sibs" "2 :: nat"]
      by cases simp_all
  qed
  with ex(1,2) show ?thesis by blast
qed

section \<open>Soundness\<close>

fun path_inputs :: "hashing \<Rightarrow> digest \<Rightarrow> nat \<Rightarrow> digest list \<Rightarrow> u8 list list" where
  "path_inputs H acc path [] = []"
| "path_inputs H acc path (sib # sibs) =
     (let x = (if path mod 2 = 0 then 1 # acc @ sib else 1 # sib @ acc)
      in x # path_inputs H (blake3 H x) (path div 2) sibs)"

function tree_inputs :: "hashing \<Rightarrow> digest list \<Rightarrow> u8 list list" where
  "tree_inputs H level =
     (if 1 < length level then level_inputs level @ tree_inputs H (next_level H level) else [])"
  by auto
termination by (relation "measure (\<lambda>(H, level). length level)") auto

declare tree_inputs.simps [simp del]

definition merkle_inputs :: "hashing \<Rightarrow> audit_ledger \<Rightarrow> u8 list list" where
  "merkle_inputs H l = map (\<lambda>e. 0 # self_hash e) (entries l) @ tree_inputs H (leaf_level H l)"

definition check_inputs :: "hashing \<Rightarrow> digest \<Rightarrow> u64 \<Rightarrow> digest list \<Rightarrow> u8 list list" where
  "check_inputs H leaf s sibs = (0 # leaf) # path_inputs H (leaf_hash H leaf) (unat s) sibs"

text \<open>Digests by height: every path down a \<open>perfect\<close> one has that height, some path down a \<open>built\<close> one.\<close>

primrec perfect :: "hashing \<Rightarrow> u8 list set \<Rightarrow> nat \<Rightarrow> digest \<Rightarrow> bool" where
  "perfect H S 0 d = (\<exists>x. 0 # x \<in> S \<and> d = blake3 H (0 # x))"
| "perfect H S (Suc i) d =
     (\<exists>l r. length l = 32 \<and> length r = 32 \<and> 1 # l @ r \<in> S \<and> d = node_hash H l r \<and>
        perfect H S i l \<and> perfect H S i r)"

primrec built :: "hashing \<Rightarrow> u8 list set \<Rightarrow> nat \<Rightarrow> digest \<Rightarrow> bool" where
  "built H S 0 d = (\<exists>x. 0 # x \<in> S \<and> d = blake3 H (0 # x))"
| "built H S (Suc i) d =
     (\<exists>l r. length l = 32 \<and> length r = 32 \<and> 1 # l @ r \<in> S \<and> d = node_hash H l r \<and>
        (built H S i l \<or> built H S i r))"

lemma node_hash_inj:
  assumes "inj_on (blake3 H) S" "1 # l @ r \<in> S" "1 # l' @ r' \<in> S" "length l = length l'"
    and "node_hash H l r = node_hash H l' r'"
  shows "l = l' \<and> r = r'"
  using inj_onD [OF assms(1) assms(5) [unfolded node_hash_def] assms(2,3)] assms(4) by simp

lemma leaf_not_node:
  assumes "inj_on (blake3 H) S" "0 # x \<in> S" "1 # y \<in> S"
  shows "blake3 H (0 # x) \<noteq> blake3 H (1 # y)"
proof
  assume "blake3 H (0 # x) = blake3 H (1 # y)"
  then have "0 # x = 1 # y" using assms(2,3) by (rule inj_onD [OF assms(1)])
  then show False by simp
qed

lemma perfect_built:
  assumes "inj_on (blake3 H) S" "perfect H S i d" "built H S n d"
  shows "n = i"
  using assms(2,3)
proof (induction i arbitrary: n d)
  case 0
  then obtain x where x: "0 # x \<in> S" "d = blake3 H (0 # x)" by auto
  show ?case
  proof (cases n)
    case (Suc m)
    then obtain l r where "1 # l @ r \<in> S" "d = node_hash H l r" using 0 by auto
    then show ?thesis using leaf_not_node [OF assms(1) x(1)] x(2) by (simp add: node_hash_def)
  qed simp
next
  case (Suc i)
  then obtain l r where lr: "length l = 32" "1 # l @ r \<in> S" "d = node_hash H l r" "perfect H S i l" "perfect H S i r"
    by auto
  show ?case
  proof (cases n)
    case 0
    then obtain x where x: "0 # x \<in> S" "d = blake3 H (0 # x)" using Suc.prems by auto
    show ?thesis using leaf_not_node [OF assms(1) x(1) lr(2)] x(2) lr(3) by (simp add: node_hash_def)
  next
    case (Suc m)
    then obtain l' r' where l': "length l' = 32" "1 # l' @ r' \<in> S" "d = node_hash H l' r'" "built H S m l' \<or> built H S m r'"
      using Suc.prems by auto
    have "l = l' \<and> r = r'"
    proof (rule node_hash_inj [OF assms(1) lr(2) l'(2)])
      show "length l = length l'" by (simp only: lr(1) l'(1))
      show "node_hash H l r = node_hash H l' r'" by (simp only: lr(3) [symmetric] l'(3) [symmetric])
    qed
    with l'(4) have "m = i" using Suc.IH [OF lr(4)] Suc.IH [OF lr(5)] by blast
    then show ?thesis using Suc by simp
  qed
qed

lemma verify_step_eq:
  "verify_step H (acc, path, n) d =
     (blake3 H (if path mod 2 = 0 then 1 # acc @ d else 1 # d @ acc), path div 2, (n + 1) div 2)"
  by (simp add: verify_step_def node_hash_def)

lemma built_fold:
  assumes "built H S i acc" "set (path_inputs H acc path sibs) \<subseteq> S" "length acc = 32" "\<forall>d \<in> set sibs. length d = 32"
    and "digest_hash (blake3 H)"
  shows "built H S (i + length sibs) (fst (foldl (verify_step H) (acc, path, n) sibs))"
  using assms(1-4)
proof (induction sibs arbitrary: acc path i n)
  case (Cons d sibs)
  let ?x = "if path mod 2 = 0 then 1 # acc @ d else 1 # d @ acc"
  have "built H S (Suc i) (blake3 H ?x)"
    using Cons.prems by (auto simp: node_hash_def Let_def split: if_splits)
  moreover have "length (blake3 H ?x) = 32" by (rule digest_hash.digest_length [OF assms(5)])
  ultimately have "built H S (Suc i + length sibs) (fst (foldl (verify_step H) (blake3 H ?x, path div 2, (n + 1) div 2) sibs))"
    using Cons.prems by (intro Cons.IH) (auto simp: Let_def)
  then show ?case by (simp del: built.simps add: verify_step_eq)
qed simp

lemma next_level_perfect:
  assumes "digest_hash (blake3 H)" "\<forall>d \<in> set level. length d = 32 \<and> perfect H S i d" "set (level_inputs level) \<subseteq> S"
  shows "\<forall>d \<in> set (next_level H level). length d = 32 \<and> perfect H S (Suc i) d"
  using assms(2,3)
  by (induction level rule: level_inputs.induct)
     (auto simp: node_hash_def digest_hash.digest_length [OF assms(1)])

lemma verify_step_size: "snd (snd (foldl (verify_step H) (acc, path, n) sibs)) = snd (snd (foldl (verify_step H) (acc', path', n) sibs))"
  by (induction sibs arbitrary: acc path acc' path' n) (simp_all add: verify_step_def)

lemma node_of_level:
  assumes "inj_on (blake3 H) S" "set (level_inputs level) \<subseteq> S" "path < length level" "\<forall>d \<in> set level. length d = 32"
    and "length acc = 32" "length sib = 32"
    and "(if path mod 2 = 0 then 1 # acc @ sib else 1 # sib @ acc) \<in> S"
    and "blake3 H (if path mod 2 = 0 then 1 # acc @ sib else 1 # sib @ acc) = next_level H level ! (path div 2)"
  shows "acc = level ! path \<and> sib = level ! sibling path (length level)"
proof -
  have i: "path div 2 < (length level + 1) div 2" using assms(3) by simp
  have "level_inputs level ! (path div 2) \<in> S" using assms(2) i nth_mem by fastforce
  moreover have "next_level H level ! (path div 2) = blake3 H (level_inputs level ! (path div 2))"
    using i by (simp add: next_level_map)
  ultimately have eq: "(if path mod 2 = 0 then 1 # acc @ sib else 1 # sib @ acc) = level_inputs level ! (path div 2)"
    by (intro inj_onD [OF assms(1) trans [OF assms(8)] assms(7)])
  show ?thesis
  proof (cases "even path")
    case True
    then have "1 # acc @ sib = 1 # level ! path @ level ! sibling path (length level)"
      using eq i by (simp add: level_inputs_nth even_path sibling_def)
    then show ?thesis using assms(3-5) by (simp add: append_eq_append_conv)
  next
    case False
    then have s: "Suc (2 * (path div 2)) = path" "2 * (path div 2) = path - 1" by (auto simp: odd_path)
    then have "1 # sib @ acc = 1 # level ! (path - 1) @ level ! path"
      using eq i assms(3) False by (simp add: level_inputs_nth odd_iff_mod_2_eq_one)
    moreover have "length (level ! (path - 1)) = 32" using assms(3,4) by simp
    ultimately show ?thesis using assms(6) False by (simp add: append_eq_append_conv sibling_def odd_iff_mod_2_eq_one)
  qed
qed

lemma proof_determined:
  assumes "digest_hash (blake3 H)" "inj_on (blake3 H) S"
    and "\<forall>d \<in> set level. length d = 32 \<and> perfect H S i d" "set (tree_inputs H level) \<subseteq> S"
    and "built H S i acc" "length acc = 32" "\<forall>d \<in> set sibs. length d = 32"
    and "set (path_inputs H acc path sibs) \<subseteq> S" "path < length level"
    and "foldl (verify_step H) (acc, path, length level) sibs = (reduce_levels H level, p, 1)"
  shows "acc = level ! path \<and> sibs = proof_levels H level path"
  using assms
proof (induction H level path arbitrary: i acc sibs rule: proof_levels.induct)
  case (1 H level path)
  show ?case
  proof (cases "1 < length level")
    case False
    then obtain d where d: "level = [d]" "path = 0" using 1(10) by (cases level) auto
    have "built H S (i + length sibs) d"
      using built_fold [OF 1(6,9,7,8,2), of "length level"] 1(11) d by simp
    moreover have "perfect H S i d" using 1(4) d by simp
    ultimately have "i + length sibs = i" by (intro perfect_built [OF 1(3)])
    then show ?thesis using 1(11) d by simp
  next
    case True
    then obtain sib rest where sibs: "sibs = sib # rest" using 1(11) by (cases sibs) auto
    let ?x = "if path mod 2 = 0 then 1 # acc @ sib else 1 # sib @ acc"
    have x: "?x \<in> S" "set (path_inputs H (blake3 H ?x) (path div 2) rest) \<subseteq> S" and sib: "length sib = 32"
      using 1(8,9) sibs by (simp_all add: Let_def)
    have tree: "set (level_inputs level) \<subseteq> S" "set (tree_inputs H (next_level H level)) \<subseteq> S"
      using 1(5) True by (simp_all add: tree_inputs.simps [of H level])
    have "built H S (Suc i) (blake3 H ?x)"
      using 1(6,7) sib x(1) by (auto simp: node_hash_def split: if_splits)
    moreover have "length (blake3 H ?x) = 32" by (rule digest_hash.digest_length [OF 1(2)])
    moreover have "foldl (verify_step H) (blake3 H ?x, path div 2, length (next_level H level)) rest =
        (reduce_levels H (next_level H level), p, 1)"
      using 1(11) True sibs by (simp add: verify_step_eq reduce_levels.simps [of H level])
    moreover have "path div 2 < length (next_level H level)" using 1(10) by simp
    ultimately have rest: "blake3 H ?x = next_level H level ! (path div 2)"
        "rest = proof_levels H (next_level H level) (path div 2)"
      using 1(1) [OF True 1(2,3) next_level_perfect [OF 1(2,4) tree(1)] tree(2), of "blake3 H ?x" rest] 1(8) sibs x(2)
      by simp_all
    then have "acc = level ! path \<and> sib = level ! sibling path (length level)"
      using 1(4,7) sib by (intro node_of_level [OF 1(3) tree(1) 1(10) _ _ _ x(1)]) simp_all
    then show ?thesis using rest(2) sibs True by (simp add: proof_levels.simps [of H level path])
  qed
qed

text \<open>
  C10. An accepted inclusion proof is genuine: the claimed hash is the one recorded at that position
  and the path is the ledger's own, as long as the inputs hashed for the root and for the check do
  not collide.
\<close>

theorem merkle_proof_sound:
  assumes "digest_hash (blake3 H)"
    and "inj_on (blake3 H) (set (merkle_inputs H l) \<union> set (check_inputs H leaf s sibs))"
    and "\<forall>e \<in> set (entries l). length (self_hash e) = 32" "\<forall>d \<in> set sibs. length d = 32" "length leaf = 32"
    and "length (entries l) < 2 ^ 64"
    and "verify_merkle_proof H leaf s (of_nat (length (entries l))) sibs (merkle_root H l)"
  shows "unat s < length (entries l) \<and> leaf = self_hash (entries l ! unat s) \<and> merkle_proof H l s = Some sibs"
proof -
  let ?S = "set (merkle_inputs H l) \<union> set (check_inputs H leaf s sibs)"
  have n: "unat (of_nat (length (entries l)) :: u64) = length (entries l)"
    using assms(6) by (simp add: unat_of_nat take_bit_nat_eq_self)
  have s: "unat s < length (entries l)"
    using assms(7) n by (auto simp: verify_merkle_proof_def not_le word_less_nat_alt split: if_splits)
  then have "leaf_level H l \<noteq> []" by (auto simp: leaf_level_def)
  then obtain q where q: "foldl (verify_step H) (leaf_hash H leaf, unat s, length (leaf_level H l)) sibs =
      (reduce_levels H (leaf_level H l), q, 1)"
    using assms(7) n by (auto simp: verify_merkle_proof_def leaf_level_def merkle_root_def split: if_splits prod.splits)
  have perf: "\<forall>d \<in> set (leaf_level H l). length d = 32 \<and> perfect H ?S 0 d"
    by (auto simp: leaf_level_def leaf_hash_def digest_hash.digest_length [OF assms(1)] merkle_inputs_def)
  have found: "leaf_hash H leaf = leaf_level H l ! unat s \<and> sibs = proof_levels H (leaf_level H l) (unat s)"
    by (rule proof_determined [OF assms(1,2) perf _ _ _ assms(4) _ _ q])
       (use s in \<open>auto simp: merkle_inputs_def check_inputs_def leaf_hash_def leaf_level_def digest_hash.digest_length [OF assms(1)]\<close>)
  from found have eq: "blake3 H (0 # leaf) = blake3 H (0 # self_hash (entries l ! unat s))"
    using s by (simp add: leaf_hash_def leaf_level_def)
  have "0 # leaf \<in> ?S" "0 # self_hash (entries l ! unat s) \<in> ?S"
    using s by (auto simp: check_inputs_def merkle_inputs_def)
  then have "0 # leaf = 0 # self_hash (entries l ! unat s)" by (rule inj_onD [OF assms(2) eq])
  then show ?thesis
    using s found by (simp add: merkle_proof_def)
qed

definition small_ledger :: audit_ledger where
  "small_ledger = ledger_of demo_hashing [demo_entry 1, demo_entry 2]"

theorem merkle_proof_sound_witness:
  "let p = the (merkle_proof demo_hashing small_ledger 1)
   in verify_merkle_proof demo_hashing (self_hash (entries small_ledger ! 1)) 1 2 p (merkle_root demo_hashing small_ledger)
      \<and> merkle_proof demo_hashing small_ledger 1 = Some p"
proof -
  define p where "p = the (merkle_proof demo_hashing small_ledger 1)"
  let ?leaf = "self_hash (entries small_ledger ! 1)"
  have n: "length (entries small_ledger) = 2" by code_simp
  have v: "verify_merkle_proof demo_hashing ?leaf 1 2 p (merkle_root demo_hashing small_ledger)"
    unfolding p_def by code_simp
  have "unat (1 :: u64) < length (entries small_ledger) \<and> ?leaf = self_hash (entries small_ledger ! unat (1 :: u64)) \<and>
    merkle_proof demo_hashing small_ledger 1 = Some p"
  proof (rule merkle_proof_sound)
    show "digest_hash (blake3 demo_hashing)" by (simp add: demo_hashing_def summed.digest_hash_axioms)
    have "set (check_inputs demo_hashing ?leaf 1 p) = set (drop 1 (merkle_inputs demo_hashing small_ledger))"
      unfolding p_def by (rule arg_cong [where f = set]) code_simp
    moreover have "inj_on (blake3 demo_hashing) (set (merkle_inputs demo_hashing small_ledger))"
      by (rule inj_on_list) code_simp
    ultimately show "inj_on (blake3 demo_hashing) (set (merkle_inputs demo_hashing small_ledger) \<union> set (check_inputs demo_hashing ?leaf 1 p))"
      by (metis Un_absorb2 set_drop_subset)
    show "\<forall>e \<in> set (entries small_ledger). length (self_hash e) = 32" by code_simp
    show "\<forall>d \<in> set p. length d = 32" unfolding p_def by code_simp
    show "length ?leaf = 32" by code_simp
    show "length (entries small_ledger) < 2 ^ 64" by (simp add: n)
    show "verify_merkle_proof demo_hashing ?leaf 1 (of_nat (length (entries small_ledger))) p (merkle_root demo_hashing small_ledger)"
      unfolding n using v by simp
  qed
  with v show ?thesis unfolding Let_def p_def [symmetric] by blast
qed

end
