(* ===== verification/Evidence.thy ===== *)
theory Evidence
  imports Merkle_Proofs Hex_Text
begin

text \<open>
  Evidence receipts, crate \<open>epica-zk-evidence\<close>: the wire format and its signing payload
  (\<open>receipt.rs\<close>), sealing (\<open>prover.rs\<close>), verification (\<open>verifier.rs\<close>) and the command line tool
  (\<open>bin/verify.rs\<close>). Ed25519 and the hexadecimal codec are parameters, bundled in a record with
  the laws of the locale \<open>signing_laws\<close>; file contents and clock readings are arguments.
\<close>

section \<open>Parameters\<close>

record ('sk, 'vk) signing_lib =
  sign :: "'sk \<Rightarrow> u8 list \<Rightarrow> u8 list"
  vk_of :: "'sk \<Rightarrow> 'vk"
  vk_bytes :: "'vk \<Rightarrow> u8 list"
  vk_from_bytes :: "u8 list \<Rightarrow> 'vk option"
  sig_ok :: "'vk \<Rightarrow> u8 list \<Rightarrow> u8 list \<Rightarrow> bool"
  sk_from_bytes :: "u8 list \<Rightarrow> 'sk"
  sk_bytes :: "'sk \<Rightarrow> u8 list"
  hex_encode :: "u8 list \<Rightarrow> string"
  hex_decode :: "string \<Rightarrow> hex_error + u8 list"

locale signing_laws =
  fixes X :: "('sk, 'vk) signing_lib"
  assumes hex_roundtrip: "hex_decode X (hex_encode X bs) = Inr bs"
    and vk_roundtrip: "vk_from_bytes X (vk_bytes X v) = Some v"
    and vk_length: "length (vk_bytes X v) = 32"
    and sign_length: "length (sign X sk m) = 64"
    and sign_ok: "sig_ok X (vk_of X sk) m (sign X sk m)"
    and sk_length: "length (sk_bytes X sk) = 32"
    and sk_roundtrip: "sk_from_bytes X (sk_bytes X sk) = sk"

section \<open>The receipt\<close>

record receipt_metadata =
  label :: "string option"
  sealed_at_ms :: u64
  schema_version :: u32

record merkle_inclusion_proof =
  inc_seq :: u64
  self_hash_hex :: string
  path_hex :: "string list"

record evidence_receipt =
  meta :: receipt_metadata
  merkle_root_hex :: string
  start_seq :: u64
  end_seq :: u64
  ledger_length :: u64
  prover_pubkey_hex :: string
  signature_hex :: string
  inclusions :: "merkle_inclusion_proof list"

definition RECEIPT_SCHEMA_VERSION :: u32 where
  "RECEIPT_SCHEMA_VERSION = 1"

datatype receipt_error = HexError string hex_error | InvalidLength string nat nat

text \<open>The text \<open>epica-evidence-receipt-v1\<close> with its final zero byte.\<close>

definition receipt_domain :: "u8 list" where
  "receipt_domain = map of_char ''epica-evidence-receipt-v1'' @ [0]"

definition receipt_binding ::
  "hashing \<Rightarrow> digest \<Rightarrow> u64 \<Rightarrow> u64 \<Rightarrow> u64 \<Rightarrow> u8 list \<Rightarrow> u32 \<Rightarrow> digest" where
  "receipt_binding H rt start_s end_s len pk version =
     blake3 H (receipt_domain @ rt @ le_bytes 8 start_s @ le_bytes 8 end_s @ le_bytes 8 len @ pk @
               le_bytes 4 version)"

definition decode_fixed_hex :: "('sk, 'vk) signing_lib \<Rightarrow> nat \<Rightarrow> string \<Rightarrow> string \<Rightarrow> receipt_error + u8 list" where
  "decode_fixed_hex X n s field =
     (case hex_decode X s of
        Inl e \<Rightarrow> Inl (HexError field e)
      | Inr raw \<Rightarrow> if length raw \<noteq> n then Inl (InvalidLength field n (length raw)) else Inr raw)"

section \<open>The prover\<close>

datatype prover_error = InvalidRange u64 u64 u64 | SecretKeyLength nat nat

record 'sk prover = signing :: 'sk

definition from_secret_bytes :: "('sk, 'vk) signing_lib \<Rightarrow> u8 list \<Rightarrow> prover_error + 'sk prover" where
  "from_secret_bytes X bytes =
     (if length bytes \<noteq> 32 then Inl (SecretKeyLength 32 (length bytes))
      else Inr \<lparr> signing = sk_from_bytes X bytes \<rparr>)"

definition public_key_bytes :: "('sk, 'vk) signing_lib \<Rightarrow> 'sk prover \<Rightarrow> u8 list" where
  "public_key_bytes X p = vk_bytes X (vk_of X (signing p))"

definition public_key_hex :: "('sk, 'vk) signing_lib \<Rightarrow> 'sk prover \<Rightarrow> string" where
  "public_key_hex X p = hex_encode X (public_key_bytes X p)"

definition export_secret_bytes :: "('sk, 'vk) signing_lib \<Rightarrow> 'sk prover \<Rightarrow> u8 list" where
  "export_secret_bytes X p = sk_bytes X (signing p)"

record seal_options =
  opt_label :: "string option"
  opt_inclusions :: "u64 list"

definition seal_options_default :: seal_options where
  "seal_options_default = \<lparr> opt_label = None, opt_inclusions = [] \<rparr>"

definition window_level :: "hashing \<Rightarrow> audit_ledger \<Rightarrow> nat \<Rightarrow> nat \<Rightarrow> digest list" where
  "window_level H l s e = map (\<lambda>x. blake3 H (0 # self_hash x)) (drop s (take (e + 1) (entries l)))"

definition window_merkle_root :: "hashing \<Rightarrow> audit_ledger \<Rightarrow> u64 \<Rightarrow> u64 \<Rightarrow> digest" where
  "window_merkle_root H l start_s end_s =
     (let s = unat start_s; e = unat end_s
      in if length (entries l) \<le> e \<or> e < s then zero_digest
         else reduce_levels H (window_level H l s e))"

definition seal_inclusion ::
  "('sk, 'vk) signing_lib \<Rightarrow> hashing \<Rightarrow> audit_ledger \<Rightarrow> u64 \<Rightarrow> merkle_inclusion_proof option" where
  "seal_inclusion X H l s =
     (case merkle_proof H l s of
        None \<Rightarrow> None
      | Some sibs \<Rightarrow>
          if length (entries l) \<le> unat s then None
          else Some \<lparr> inc_seq = s, self_hash_hex = hex_encode X (self_hash (entries l ! unat s)),
                      path_hex = map (hex_encode X) sibs \<rparr>)"

definition seal_with_options ::
  "('sk, 'vk) signing_lib \<Rightarrow> hashing \<Rightarrow> u64 \<Rightarrow> 'sk prover \<Rightarrow> audit_ledger \<Rightarrow> u64 \<Rightarrow> u64 \<Rightarrow> seal_options \<Rightarrow>
     prover_error + evidence_receipt" where
  "seal_with_options X H now p l start_s end_s opts =
     (let len = of_nat (ledger_len l)
      in if end_s < start_s \<or> ledger_len l \<le> unat end_s then Inl (InvalidRange start_s end_s len)
         else
           (let rt = window_merkle_root H l start_s end_s;
                pubkey = public_key_bytes X p;
                binding = receipt_binding H rt start_s end_s len pubkey RECEIPT_SCHEMA_VERSION;
                signature = sign X (signing p) binding
            in Inr \<lparr> meta = \<lparr> label = opt_label opts, sealed_at_ms = now, schema_version = RECEIPT_SCHEMA_VERSION \<rparr>,
                     merkle_root_hex = hex_encode X rt, start_seq = start_s, end_seq = end_s, ledger_length = len,
                     prover_pubkey_hex = hex_encode X pubkey, signature_hex = hex_encode X signature,
                     inclusions = filter_map (seal_inclusion X H l) (opt_inclusions opts) \<rparr>))"

definition seal_receipt ::
  "('sk, 'vk) signing_lib \<Rightarrow> hashing \<Rightarrow> u64 \<Rightarrow> 'sk prover \<Rightarrow> audit_ledger \<Rightarrow> u64 \<Rightarrow> u64 \<Rightarrow>
     prover_error + evidence_receipt" where
  "seal_receipt X H now p l start_s end_s = seal_with_options X H now p l start_s end_s seal_options_default"

section \<open>The verifier\<close>

datatype verification_error =
    Decode receipt_error
  | UnsupportedSchemaVersion u32 u32
  | RangeInvalid u64 u64 u64
  | LedgerLengthMismatch u64 u64
  | MerkleRootMismatch string string
  | SignatureInvalid
  | Inclusion u64
  | InclusionOutOfBounds u64
  | InclusionLeafMismatch u64

record 'vk verifier = pubkey :: 'vk

definition verifier_from_receipt ::
  "('sk, 'vk) signing_lib \<Rightarrow> evidence_receipt \<Rightarrow> verification_error + 'vk verifier" where
  "verifier_from_receipt X r =
     (case decode_fixed_hex X 32 (prover_pubkey_hex r) ''prover_pubkey_hex'' of
        Inl e \<Rightarrow> Inl (Decode e)
      | Inr pk \<Rightarrow> (case vk_from_bytes X pk of None \<Rightarrow> Inl SignatureInvalid | Some v \<Rightarrow> Inr \<lparr> pubkey = v \<rparr>))"

definition with_pubkey :: "'vk \<Rightarrow> 'vk verifier" where
  "with_pubkey v = \<lparr> pubkey = v \<rparr>"

fun decode_path :: "('sk, 'vk) signing_lib \<Rightarrow> string list \<Rightarrow> receipt_error + digest list" where
  "decode_path X [] = Inr []"
| "decode_path X (s # ss) =
     (case decode_fixed_hex X 32 s ''inclusion.path'' of
        Inl e \<Rightarrow> Inl e
      | Inr d \<Rightarrow> (case decode_path X ss of Inl e \<Rightarrow> Inl e | Inr ds \<Rightarrow> Inr (d # ds)))"

definition verify_one ::
  "('sk, 'vk) signing_lib \<Rightarrow> hashing \<Rightarrow> audit_ledger \<Rightarrow> merkle_inclusion_proof \<Rightarrow> verification_error + unit" where
  "verify_one X H l inc =
     (if ledger_len l \<le> unat (inc_seq inc) then Inl (InclusionOutOfBounds (inc_seq inc))
      else
        (let observed = self_hash (entries l ! unat (inc_seq inc))
         in case decode_fixed_hex X 32 (self_hash_hex inc) ''inclusion.self_hash_hex'' of
              Inl e \<Rightarrow> Inl (Decode e)
            | Inr claimed \<Rightarrow>
                if observed \<noteq> claimed then Inl (InclusionLeafMismatch (inc_seq inc))
                else
                  (case decode_path X (path_hex inc) of
                     Inl e \<Rightarrow> Inl (Decode e)
                   | Inr sibs \<Rightarrow>
                       if \<not> verify_merkle_proof H claimed (inc_seq inc) (of_nat (ledger_len l)) sibs (merkle_root H l)
                       then Inl (Inclusion (inc_seq inc)) else Inr ())))"

fun verify_inclusions ::
  "('sk, 'vk) signing_lib \<Rightarrow> hashing \<Rightarrow> audit_ledger \<Rightarrow> merkle_inclusion_proof list \<Rightarrow> verification_error + unit" where
  "verify_inclusions X H l [] = Inr ()"
| "verify_inclusions X H l (inc # incs) =
     (case verify_one X H l inc of Inl e \<Rightarrow> Inl e | Inr _ \<Rightarrow> verify_inclusions X H l incs)"

definition verify_signature ::
  "('sk, 'vk) signing_lib \<Rightarrow> hashing \<Rightarrow> 'vk verifier \<Rightarrow> evidence_receipt \<Rightarrow> digest \<Rightarrow> verification_error + unit" where
  "verify_signature X H v r reconstructed =
     (case decode_fixed_hex X 32 (prover_pubkey_hex r) ''prover_pubkey_hex'' of
        Inl e \<Rightarrow> Inl (Decode e)
      | Inr pk \<Rightarrow>
          (let binding = receipt_binding H reconstructed (start_seq r) (end_seq r) (ledger_length r) pk
                           (schema_version (meta r))
           in case decode_fixed_hex X 64 (signature_hex r) ''signature_hex'' of
                Inl e \<Rightarrow> Inl (Decode e)
              | Inr sig \<Rightarrow> if sig_ok X (pubkey v) binding sig then Inr () else Inl SignatureInvalid))"

definition verify_receipt ::
  "('sk, 'vk) signing_lib \<Rightarrow> hashing \<Rightarrow> 'vk verifier \<Rightarrow> evidence_receipt \<Rightarrow> audit_ledger \<Rightarrow>
     verification_error + unit" where
  "verify_receipt X H v r l =
     (let len = of_nat (ledger_len l)
      in if schema_version (meta r) \<noteq> RECEIPT_SCHEMA_VERSION
         then Inl (UnsupportedSchemaVersion (schema_version (meta r)) RECEIPT_SCHEMA_VERSION)
         else if ledger_length r \<noteq> len then Inl (LedgerLengthMismatch (ledger_length r) len)
         else if end_seq r < start_seq r \<or> ledger_len l \<le> unat (end_seq r)
         then Inl (RangeInvalid (start_seq r) (end_seq r) len)
         else
           (let reconstructed = window_merkle_root H l (start_seq r) (end_seq r)
            in case decode_fixed_hex X 32 (merkle_root_hex r) ''merkle_root_hex'' of
                 Inl e \<Rightarrow> Inl (Decode e)
               | Inr rt \<Rightarrow>
                   if reconstructed \<noteq> rt
                   then Inl (MerkleRootMismatch (hex_encode X rt) (hex_encode X reconstructed))
                   else
                     (case verify_signature X H v r reconstructed of
                        Inl e \<Rightarrow> Inl e
                      | Inr _ \<Rightarrow> verify_inclusions X H l (inclusions r))))"

section \<open>Sealing and verifying\<close>

lemma window_level_leaf: "window_level H l s e = drop s (take (e + 1) (leaf_level H l))"
  by (simp add: window_level_def leaf_level_def leaf_hash_def take_map drop_map)

text \<open>Over the whole ledger the window root is the ledger's own Merkle root.\<close>

lemma window_root_whole:
  assumes "start_s = 0" "unat end_s + 1 = length (entries l)"
  shows "window_merkle_root H l start_s end_s = merkle_root H l"
proof -
  have "take (unat end_s + 1) (leaf_level H l) = leaf_level H l" using assms(2) by (simp add: leaf_level_def)
  then show ?thesis using assms
    by (auto simp: window_merkle_root_def merkle_root_def window_level_leaf Let_def)
qed

lemma reduce_levels_length:
  assumes "digest_hash (blake3 H)" "level \<noteq> []" "\<forall>d \<in> set level. length d = 32"
  shows "length (reduce_levels H level) = 32"
  using assms
proof (induction H level rule: reduce_levels.induct)
  case (1 H level)
  show ?case
  proof (cases "1 < length level")
    case True
    have "\<forall>d \<in> set (next_level H level). length d = 32"
      by (auto simp: next_level_map digest_hash.digest_length [OF 1(2)])
    moreover have "length (next_level H level) \<noteq> 0" using True by simp
    then have "next_level H level \<noteq> []" by (simp only: length_0_conv) simp
    ultimately show ?thesis using 1(1) [OF True 1(2)] True by (simp add: reduce_levels.simps [of H level])
  next
    case False
    then obtain d where "level = [d]" using 1(3) by (cases level) auto
    then show ?thesis using 1(4) by simp
  qed
qed

lemma window_root_length:
  assumes "digest_hash (blake3 H)"
  shows "length (window_merkle_root H l s e) = 32"
proof (cases "length (entries l) \<le> unat e \<or> unat e < unat s")
  case True
  then show ?thesis by (simp add: window_merkle_root_def Let_def zero_digest_def)
next
  case False
  then have "window_level H l (unat s) (unat e) \<noteq> []" by (simp add: window_level_def)
  moreover have "\<forall>d \<in> set (window_level H l (unat s) (unat e)). length d = 32"
    by (auto simp: window_level_def digest_hash.digest_length [OF assms])
  ultimately show ?thesis using False reduce_levels_length [OF assms]
    by (simp add: window_merkle_root_def Let_def)
qed

lemma proof_levels_digests:
  assumes "digest_hash (blake3 H)" "\<forall>d \<in> set level. length d = 32" "path < length level"
  shows "\<forall>d \<in> set (proof_levels H level path). length d = 32"
  using assms
proof (induction H level path rule: proof_levels.induct)
  case (1 H level path)
  show ?case
  proof (cases "1 < length level")
    case True
    have "\<forall>d \<in> set (next_level H level). length d = 32"
      by (auto simp: next_level_map digest_hash.digest_length [OF 1(2)])
    moreover have "path div 2 < length (next_level H level)" using 1(4) by simp
    moreover have "sibling path (length level) < length level" using 1(4) by (auto simp: sibling_def)
    ultimately show ?thesis using 1(1) [OF True 1(2)] 1(3) True
      by (simp add: proof_levels.simps [of H level path])
  next
    case False
    then show ?thesis by (simp add: proof_levels.simps [of H level path])
  qed
qed

lemma verify_inclusions_ok:
  "(\<And>inc. inc \<in> set incs \<Longrightarrow> verify_one X H l inc = Inr ()) \<Longrightarrow> verify_inclusions X H l incs = Inr ()"
  by (induction incs) simp_all

context signing_laws begin

lemma decode_encoded [simp]:
  "length bs = n \<Longrightarrow> decode_fixed_hex X n (hex_encode X bs) field = Inr bs"
  by (simp add: decode_fixed_hex_def hex_roundtrip)

lemma decode_encoded_path: "\<forall>d \<in> set ds. length d = 32 \<Longrightarrow> decode_path X (map (hex_encode X) ds) = Inr ds"
  by (induction ds) simp_all

lemma sealed_inclusion_path:
  assumes "seal_inclusion X H l s = Some inc" "length (entries l) < 2 ^ 64"
  obtains path where "inc = \<lparr> inc_seq = s, self_hash_hex = hex_encode X (self_hash (entries l ! unat s)),
      path_hex = map (hex_encode X) path \<rparr>"
    "unat s < length (entries l)" "path = proof_levels H (leaf_level H l) (unat s)"
    "\<And>root. verify_merkle_proof H (self_hash (entries l ! unat s)) s (of_nat (length (entries l))) path root \<longleftrightarrow>
       root = merkle_root H l"
proof -
  obtain path where path: "merkle_proof H l s = Some path" "unat s < length (entries l)"
      "inc = \<lparr> inc_seq = s, self_hash_hex = hex_encode X (self_hash (entries l ! unat s)),
               path_hex = map (hex_encode X) path \<rparr>"
    using assms(1) by (auto simp: seal_inclusion_def split: option.splits if_splits)
  have "verify_merkle_proof H (self_hash (entries l ! unat s)) s (of_nat (length (entries l))) path (merkle_root H l)"
    using merkle_proof_accepted [OF assms(2) path(2), of H] path(1) by auto
  then have "verify_merkle_proof H (self_hash (entries l ! unat s)) s (of_nat (length (entries l))) path root \<longleftrightarrow>
      root = merkle_root H l" for root
    by (auto simp: verify_merkle_proof_def split: prod.splits if_splits)
  moreover have "path = proof_levels H (leaf_level H l) (unat s)"
    using path(1,2) by (auto simp: merkle_proof_def Let_def split: if_splits)
  ultimately show thesis using that path(2,3) by blast
qed

lemma sealed_inclusion_ok:
  assumes "seal_inclusion X H l s = Some inc" "digest_hash (blake3 H)"
    and "length (entries l) < 2 ^ 64" "\<forall>e \<in> set (entries l). length (self_hash e) = 32"
  shows "verify_one X H l inc = Inr ()"
proof (rule sealed_inclusion_path [OF assms(1,3)])
  fix path
  assume path: "inc = \<lparr> inc_seq = s, self_hash_hex = hex_encode X (self_hash (entries l ! unat s)),
      path_hex = map (hex_encode X) path \<rparr>"
    "unat s < length (entries l)" "path = proof_levels H (leaf_level H l) (unat s)"
    and ok: "\<And>root. verify_merkle_proof H (self_hash (entries l ! unat s)) s (of_nat (length (entries l))) path root \<longleftrightarrow>
       root = merkle_root H l"
  have "\<forall>d \<in> set (leaf_level H l). length d = 32"
    by (auto simp: leaf_level_def leaf_hash_def digest_hash.digest_length [OF assms(2)])
  then have "\<forall>d \<in> set path. length d = 32"
    using proof_levels_digests [OF assms(2)] path(2,3) by simp
  then show ?thesis using path(1,2) assms(4)
    by (simp add: verify_one_def ledger_len_def decode_encoded_path ok)
qed

lemma seal_inclusion_range: "seal_inclusion X H l s \<noteq> None \<longleftrightarrow> unat s < length (entries l)"
  by (auto simp: seal_inclusion_def merkle_proof_def Let_def split: option.splits)

lemma sealed_inclusions:
  assumes "length (entries l) < 2 ^ 64"
  shows "map inc_seq (filter_map (seal_inclusion X H l) ss) = filter (\<lambda>s. unat s < length (entries l)) ss"
    and "\<forall>inc \<in> set (filter_map (seal_inclusion X H l) ss). \<exists>path.
      self_hash_hex inc = hex_encode X (self_hash (entries l ! unat (inc_seq inc))) \<and>
      path_hex inc = map (hex_encode X) path \<and>
      (\<forall>root. verify_merkle_proof H (self_hash (entries l ! unat (inc_seq inc))) (inc_seq inc)
         (of_nat (length (entries l))) path root \<longleftrightarrow> root = merkle_root H l)"
proof -
  show "map inc_seq (filter_map (seal_inclusion X H l) ss) = filter (\<lambda>s. unat s < length (entries l)) ss"
  proof (induction ss)
    case (Cons s ss)
    show ?case
    proof (cases "seal_inclusion X H l s")
      case None
      then show ?thesis using Cons seal_inclusion_range [of H l s] by simp
    next
      case (Some inc)
      then have "inc_seq inc = s" by (auto simp: seal_inclusion_def split: option.splits if_splits)
      then show ?thesis using Cons Some seal_inclusion_range [of H l s] by simp
    qed
  qed simp
  show "\<forall>inc \<in> set (filter_map (seal_inclusion X H l) ss). \<exists>path.
      self_hash_hex inc = hex_encode X (self_hash (entries l ! unat (inc_seq inc))) \<and>
      path_hex inc = map (hex_encode X) path \<and>
      (\<forall>root. verify_merkle_proof H (self_hash (entries l ! unat (inc_seq inc))) (inc_seq inc)
         (of_nat (length (entries l))) path root \<longleftrightarrow> root = merkle_root H l)"
  proof
    fix inc assume "inc \<in> set (filter_map (seal_inclusion X H l) ss)"
    then obtain s where s: "seal_inclusion X H l s = Some inc" by (auto simp: set_filter_map)
    show "\<exists>path. self_hash_hex inc = hex_encode X (self_hash (entries l ! unat (inc_seq inc))) \<and>
      path_hex inc = map (hex_encode X) path \<and>
      (\<forall>root. verify_merkle_proof H (self_hash (entries l ! unat (inc_seq inc))) (inc_seq inc)
         (of_nat (length (entries l))) path root \<longleftrightarrow> root = merkle_root H l)"
      by (rule sealed_inclusion_path [OF s assms]) auto
  qed
qed

lemma verify_signature_ok:
  assumes "prover_pubkey_hex r = hex_encode X pk" "length pk = 32" "pubkey v = vk_of X sk"
    and "signature_hex r = hex_encode X (sign X sk (receipt_binding H rt (start_seq r) (end_seq r) (ledger_length r) pk
           (schema_version (meta r))))"
  shows "verify_signature X H v r rt = Inr ()"
  using assms by (simp add: verify_signature_def Let_def sign_length sign_ok)

lemma seal_verifies_aux:
  assumes "digest_hash (blake3 H)" "length (entries l) < 2 ^ 64" "\<forall>e \<in> set (entries l). length (self_hash e) = 32"
    and "seal_with_options X H now p l start_s end_s opts = Inr r"
  shows "verifier_from_receipt X r = Inr \<lparr> pubkey = vk_of X (signing p) \<rparr>"
    and "verify_receipt X H \<lparr> pubkey = vk_of X (signing p) \<rparr> r l = Inr ()"
    and "merkle_root_hex r = hex_encode X (window_merkle_root H l start_s end_s)"
    and "inclusions r = filter_map (seal_inclusion X H l) (opt_inclusions opts)"
proof -
  note seal = assms(4) [unfolded seal_with_options_def Let_def]
  have range: "\<not> (end_s < start_s \<or> ledger_len l \<le> unat end_s)" using seal by (auto split: if_splits)
  with seal have r: "start_seq r = start_s" "end_seq r = end_s" "ledger_length r = of_nat (ledger_len l)"
      "schema_version (meta r) = RECEIPT_SCHEMA_VERSION"
      "merkle_root_hex r = hex_encode X (window_merkle_root H l start_s end_s)"
      "prover_pubkey_hex r = hex_encode X (public_key_bytes X p)"
      "signature_hex r = hex_encode X (sign X (signing p) (receipt_binding H (window_merkle_root H l start_s end_s)
         start_s end_s (of_nat (ledger_len l)) (public_key_bytes X p) RECEIPT_SCHEMA_VERSION))"
      "inclusions r = filter_map (seal_inclusion X H l) (opt_inclusions opts)"
    by auto
  then show "merkle_root_hex r = hex_encode X (window_merkle_root H l start_s end_s)"
    "inclusions r = filter_map (seal_inclusion X H l) (opt_inclusions opts)" by blast+
  have pk: "length (public_key_bytes X p) = 32" by (simp add: public_key_bytes_def vk_length)
  show "verifier_from_receipt X r = Inr \<lparr> pubkey = vk_of X (signing p) \<rparr>"
    using pk by (simp add: verifier_from_receipt_def r) (simp add: public_key_bytes_def vk_roundtrip)
  have "verify_inclusions X H l (inclusions r) = Inr ()"
    unfolding r using sealed_inclusion_ok [OF _ assms(1-3)]
    by (intro verify_inclusions_ok) (auto simp: set_filter_map)
  moreover have "verify_signature X H \<lparr> pubkey = vk_of X (signing p) \<rparr> r (window_merkle_root H l start_s end_s) = Inr ()"
    by (rule verify_signature_ok [OF r(6) pk]) (simp_all add: r)
  ultimately show "verify_receipt X H \<lparr> pubkey = vk_of X (signing p) \<rparr> r l = Inr ()"
    using range by (auto simp: verify_receipt_def Let_def r window_root_length [OF assms(1)])
qed

end

section \<open>An executable instance\<close>

text \<open>Keys of one byte whose signatures repeat the key and the message; the codec of \<open>Hex_Text\<close>.\<close>

definition echo_lib :: "(u8, u8) signing_lib" where
  "echo_lib = \<lparr> sign = (\<lambda>sk m. replicate 32 sk @ take 32 (m @ replicate 32 0)),
     vk_of = (\<lambda>sk. sk), vk_bytes = (\<lambda>v. replicate 32 v),
     vk_from_bytes = (\<lambda>bs. if bs = replicate 32 (hd bs) then Some (hd bs) else None),
     sig_ok = (\<lambda>v m s. s = replicate 32 v @ take 32 (m @ replicate 32 0)),
     sk_from_bytes = hd, sk_bytes = (\<lambda>sk. replicate 32 sk),
     hex_encode = bytes_to_hex, hex_decode = hex_to_bytes \<rparr>"

interpretation echo: signing_laws echo_lib
  by unfold_locales (simp_all add: echo_lib_def)

section \<open>Properties\<close>

lemma seal_defined:
  assumes "start_s \<le> end_s" "unat end_s < length (entries l)"
  shows "\<exists>r. seal_with_options X H now p l start_s end_s opts = Inr r"
  using assms by (simp add: seal_with_options_def Let_def ledger_len_def not_less not_le)

text \<open>
  C11. Every valid window of a ledger can be sealed, and the receipt verifies against that ledger
  under the key it carries. Its root is that of the window. Its inclusion proofs are those asked
  for that lie in the ledger, in order, inside the window or not; the path of each leads from the
  hash of its entry to the root of the whole ledger, and to no other root, so against the
  receipt's own root it is good only if the window's root and the ledger's are the same.
\<close>

theorem seal_verifies:
  assumes "signing_laws X" "digest_hash (blake3 H)" "length (entries l) < 2 ^ 64"
    and "\<forall>e \<in> set (entries l). length (self_hash e) = 32"
    and "start_s \<le> end_s" "unat end_s < length (entries l)"
  shows "\<exists>r v. seal_with_options X H now p l start_s end_s opts = Inr r \<and>
    verifier_from_receipt X r = Inr v \<and> verify_receipt X H v r l = Inr () \<and>
    merkle_root_hex r = hex_encode X (window_merkle_root H l start_s end_s) \<and>
    map inc_seq (inclusions r) = filter (\<lambda>s. unat s < length (entries l)) (opt_inclusions opts) \<and>
    (\<forall>inc \<in> set (inclusions r). \<exists>path.
       self_hash_hex inc = hex_encode X (self_hash (entries l ! unat (inc_seq inc))) \<and>
       path_hex inc = map (hex_encode X) path \<and>
       (\<forall>root. verify_merkle_proof H (self_hash (entries l ! unat (inc_seq inc))) (inc_seq inc)
          (of_nat (length (entries l))) path root \<longleftrightarrow> root = merkle_root H l))"
proof -
  obtain r where r: "seal_with_options X H now p l start_s end_s opts = Inr r"
    using seal_defined [OF assms(5,6)] by blast
  note aux = signing_laws.seal_verifies_aux [OF assms(1-4) r]
  show ?thesis
    using r aux(1-3) signing_laws.sealed_inclusions [OF assms(1,3), of H "opt_inclusions opts"]
    unfolding aux(4) [symmetric] by blast
qed

theorem seal_verifies_witness:
  "\<exists>r v. seal_with_options echo_lib demo_hashing 5 \<lparr> signing = 3 \<rparr> demo_ledger 0 1
       \<lparr> opt_label = None, opt_inclusions = [2, 7] \<rparr> = Inr r \<and>
     verifier_from_receipt echo_lib r = Inr v \<and> verify_receipt echo_lib demo_hashing v r demo_ledger = Inr () \<and>
     map inc_seq (inclusions r) = [2] \<and>
     window_merkle_root demo_hashing demo_ledger 0 1 \<noteq> merkle_root demo_hashing demo_ledger"
proof -
  have n: "length (entries demo_ledger) = 3" by code_simp
  have "signing_laws echo_lib" by (rule echo.signing_laws_axioms)
  moreover have "digest_hash (blake3 demo_hashing)" by (simp add: demo_hashing_def summed.digest_hash_axioms)
  moreover have "length (entries demo_ledger) < 2 ^ 64" "unat (1 :: u64) < length (entries demo_ledger)" "(0 :: u64) \<le> 1"
    by (simp_all add: n)
  moreover have "\<forall>e \<in> set (entries demo_ledger). length (self_hash e) = 32" by code_simp
  ultimately obtain r v where "seal_with_options echo_lib demo_hashing 5 \<lparr> signing = 3 \<rparr> demo_ledger 0 1
       \<lparr> opt_label = None, opt_inclusions = [2, 7] \<rparr> = Inr r" "verifier_from_receipt echo_lib r = Inr v"
     "verify_receipt echo_lib demo_hashing v r demo_ledger = Inr ()" "map inc_seq (inclusions r) = [2]"
    using seal_verifies [of echo_lib demo_hashing demo_ledger 0 1 5 "\<lparr> signing = 3 \<rparr>"
        "\<lparr> opt_label = None, opt_inclusions = [2, 7] \<rparr>"]
    by (fastforce simp: n)
  moreover have "window_merkle_root demo_hashing demo_ledger 0 1 \<noteq> merkle_root demo_hashing demo_ledger" by code_simp
  ultimately show ?thesis by (intro exI conjI)
qed

text \<open>
  The key printed in a receipt is not checked against the trusted key: a holder of the trusted
  key can issue a receipt that names any other public key, and the verifier built from the trusted
  key accepts it.
\<close>

theorem embedded_key_unchecked:
  assumes "signing_laws X" "digest_hash (blake3 H)" "length (entries l) < 2 ^ 64"
    and "\<forall>e \<in> set (entries l). length (self_hash e) = 32"
    and "seal_receipt X H now p l start_s end_s = Inr r" "length other = 32"
  shows "verify_receipt X H (with_pubkey (vk_of X (signing p)))
     (r \<lparr> prover_pubkey_hex := hex_encode X other,
          signature_hex := hex_encode X (sign X (signing p)
            (receipt_binding H (window_merkle_root H l start_s end_s) start_s end_s (ledger_length r) other
              (schema_version (meta r)))) \<rparr>) l = Inr ()"
    (is "verify_receipt X H _ ?r l = _")
proof -
  let ?v = "\<lparr> pubkey = vk_of X (signing p) \<rparr>"
  have seal: "seal_with_options X H now p l start_s end_s seal_options_default = Inr r"
    using assms(5) by (simp add: seal_receipt_def)
  then have r: "start_seq r = start_s" "end_seq r = end_s"
    by (auto simp: seal_with_options_def Let_def split: if_splits)
  have "verify_receipt X H ?v r l = Inr ()"
    by (rule signing_laws.seal_verifies_aux(2) [OF assms(1-4) seal])
  moreover have "verify_signature X H ?v ?r (window_merkle_root H l start_s end_s) = Inr ()"
    by (rule signing_laws.verify_signature_ok [OF assms(1) _ assms(6)]) (simp_all add: r)
  ultimately show ?thesis
    by (auto simp: verify_receipt_def Let_def with_pubkey_def r split: if_splits sum.splits)
qed

theorem embedded_key_unchecked_witness:
  "\<exists>r. verify_receipt echo_lib demo_hashing (with_pubkey (vk_of echo_lib 3)) r demo_ledger = Inr () \<and>
     prover_pubkey_hex r = hex_encode echo_lib (replicate 32 9) \<and> vk_bytes echo_lib (vk_of echo_lib 3) \<noteq> replicate 32 9"
proof -
  have n: "length (entries demo_ledger) = 3" by code_simp
  have lib: "signing_laws echo_lib" by (rule echo.signing_laws_axioms)
  have hash: "digest_hash (blake3 demo_hashing)" by (simp add: demo_hashing_def summed.digest_hash_axioms)
  have len: "length (entries demo_ledger) < 2 ^ 64" "\<forall>e \<in> set (entries demo_ledger). length (self_hash e) = 32"
    by (simp add: n, code_simp)
  obtain r where "seal_receipt echo_lib demo_hashing 5 \<lparr> signing = 3 \<rparr> demo_ledger 0 1 = Inr r"
    unfolding seal_receipt_def using seal_defined [of 0 1 demo_ledger echo_lib demo_hashing 5 "\<lparr> signing = 3 \<rparr>" seal_options_default]
    by (auto simp: n)
  from embedded_key_unchecked [OF lib hash len this, of "replicate 32 9"] show ?thesis
    by (intro exI conjI) (assumption | simp add: echo_lib_def)+
qed

section \<open>What a receipt commits to\<close>

lemma level_inputs_inj:
  "level_inputs level = level_inputs level' \<Longrightarrow> length level = length level' \<Longrightarrow>
     \<forall>d \<in> set level \<union> set level'. length d = 32 \<Longrightarrow> level = level'"
proof (induction level arbitrary: level' rule: level_inputs.induct)
  case (2 x)
  then obtain y where "level' = [y]" by (cases level') auto
  with 2 show ?case by simp
next
  case (3 x y zs)
  then obtain a b cs where l: "level' = a # b # cs" by (cases level' rule: level_inputs.cases) auto
  have "x @ y = a @ b" "length x = 32" "length a = 32" using 3 l by simp_all
  then have "x = a \<and> y = b" by simp
  moreover have "zs = cs" using 3(1) [of cs] 3(2-) l by simp
  ultimately show ?case using l by simp
qed simp

lemma map_inj_eq: "map f xs = map f ys \<Longrightarrow> inj_on f (set xs \<union> set ys) \<Longrightarrow> xs = ys"
  by (rule map_inj_on) auto

lemma reduce_levels_inj:
  assumes "digest_hash (blake3 H)" "inj_on (blake3 H) S"
    and "set (tree_inputs H level) \<subseteq> S" "set (tree_inputs H level') \<subseteq> S"
    and "length level = length level'" "\<forall>d \<in> set level \<union> set level'. length d = 32"
    and "reduce_levels H level = reduce_levels H level'" "level \<noteq> []"
  shows "level = level'"
  using assms
proof (induction H level arbitrary: level' rule: reduce_levels.induct)
  case (1 H level)
  show ?case
  proof (cases "1 < length level")
    case True
    then have S: "set (level_inputs level) \<subseteq> S" "set (tree_inputs H (next_level H level)) \<subseteq> S"
        "set (level_inputs level') \<subseteq> S" "set (tree_inputs H (next_level H level')) \<subseteq> S"
      using 1(4-6) by (auto simp: tree_inputs.simps [of H level] tree_inputs.simps [of H level'])
    have d: "\<forall>d \<in> set (next_level H level) \<union> set (next_level H level'). length d = 32"
      by (auto simp: next_level_map digest_hash.digest_length [OF 1(2)])
    have len: "length (next_level H level) = length (next_level H level')" using 1(6) by simp
    have red: "reduce_levels H (next_level H level) = reduce_levels H (next_level H level')"
      using 1(6,8) True by (simp add: reduce_levels.simps [of H level] reduce_levels.simps [of H level'])
    have "length (next_level H level) \<noteq> 0" using True by simp
    then have "next_level H level \<noteq> []" by (simp only: length_0_conv) simp
    from 1(1) [OF True 1(2,3) S(2,4) len d red this]
    have eq: "map (blake3 H) (level_inputs level) = map (blake3 H) (level_inputs level')" by (simp add: next_level_map)
    have "level_inputs level = level_inputs level'"
      by (rule map_inj_eq [OF eq inj_on_subset [OF 1(3)]]) (use S in blast)
    then show ?thesis by (rule level_inputs_inj [OF _ 1(6,7)])
  next
    case False
    then obtain d where "level = [d]" using 1(9) by (cases level) auto
    moreover then obtain d' where "level' = [d']" using 1(6) by (cases level') auto
    ultimately show ?thesis using 1(8) by simp
  qed
qed

definition window_hashes :: "audit_ledger \<Rightarrow> u64 \<Rightarrow> u64 \<Rightarrow> digest list" where
  "window_hashes l s e = map self_hash (drop (unat s) (take (unat e + 1) (entries l)))"

definition window_inputs :: "hashing \<Rightarrow> audit_ledger \<Rightarrow> u64 \<Rightarrow> u64 \<Rightarrow> u8 list list" where
  "window_inputs H l s e = map (\<lambda>d. 0 # d) (window_hashes l s e) @ tree_inputs H (window_level H l (unat s) (unat e))"

lemma verify_receipt_Inr:
  assumes "verify_receipt X H v r l = Inr ()"
  shows "decode_fixed_hex X 32 (merkle_root_hex r) ''merkle_root_hex'' =
      Inr (window_merkle_root H l (start_seq r) (end_seq r))"
    and "start_seq r \<le> end_seq r" "unat (end_seq r) < length (entries l)"
    and "ledger_length r = of_nat (length (entries l))"
proof -
  have "end_seq r \<ge> start_seq r \<and> unat (end_seq r) < length (entries l) \<and> ledger_length r = of_nat (length (entries l)) \<and>
    decode_fixed_hex X 32 (merkle_root_hex r) ''merkle_root_hex'' = Inr (window_merkle_root H l (start_seq r) (end_seq r))"
    using assms unfolding verify_receipt_def Let_def ledger_len_def
    by (simp add: not_less not_le split: if_split_asm sum.split_asm)
  then show "decode_fixed_hex X 32 (merkle_root_hex r) ''merkle_root_hex'' =
      Inr (window_merkle_root H l (start_seq r) (end_seq r))"
    and "start_seq r \<le> end_seq r" "unat (end_seq r) < length (entries l)"
    and "ledger_length r = of_nat (length (entries l))" by blast+
qed

text \<open>
  C12. A receipt pins its window: two ledgers that verify against the same receipt carry the same
  entry hashes throughout the sealed window, as long as the inputs hashed for the two roots do not
  collide.
\<close>

theorem receipt_pins_window:
  assumes "digest_hash (blake3 H)"
    and "verify_receipt X H v r l = Inr ()" "verify_receipt X H v' r l' = Inr ()"
    and "inj_on (blake3 H) (set (window_inputs H l (start_seq r) (end_seq r)) \<union>
                           set (window_inputs H l' (start_seq r) (end_seq r)))"
  shows "window_hashes l (start_seq r) (end_seq r) = window_hashes l' (start_seq r) (end_seq r)"
proof -
  let ?s = "unat (start_seq r)" and ?e = "unat (end_seq r)"
  let ?S = "set (window_inputs H l (start_seq r) (end_seq r)) \<union> set (window_inputs H l' (start_seq r) (end_seq r))"
  note v = verify_receipt_Inr [OF assms(2)] and v' = verify_receipt_Inr [OF assms(3)]
  have w: "\<not> (length (entries l) \<le> ?e \<or> ?e < ?s)" "\<not> (length (entries l') \<le> ?e \<or> ?e < ?s)"
    using v(2,3) v'(3) by (auto simp: word_le_nat_alt)
  have "window_merkle_root H l (start_seq r) (end_seq r) = window_merkle_root H l' (start_seq r) (end_seq r)"
    using v(1) v'(1) by simp
  then have red: "reduce_levels H (window_level H l ?s ?e) = reduce_levels H (window_level H l' ?s ?e)"
    using w by (simp add: window_merkle_root_def Let_def)
  have len: "length (window_level H l ?s ?e) = length (window_level H l' ?s ?e)" "window_level H l ?s ?e \<noteq> []"
    using w by (simp_all add: window_level_def)
  have lev: "window_level H k ?s ?e = map (blake3 H) (map (\<lambda>d. 0 # d) (window_hashes k (start_seq r) (end_seq r)))" for k
    by (simp add: window_level_def window_hashes_def)
  have d: "\<forall>d \<in> set (window_level H l ?s ?e) \<union> set (window_level H l' ?s ?e). length d = 32"
    by (auto simp: window_level_def digest_hash.digest_length [OF assms(1)])
  have "window_level H l ?s ?e = window_level H l' ?s ?e"
    by (rule reduce_levels_inj [OF assms(1,4) _ _ len(1) d red len(2)]) (auto simp: window_inputs_def)
  then have "map (blake3 H) (map (\<lambda>d. 0 # d) (window_hashes l (start_seq r) (end_seq r))) =
      map (blake3 H) (map (\<lambda>d. 0 # d) (window_hashes l' (start_seq r) (end_seq r)))"
    by (simp only: lev)
  then have "map (\<lambda>d. 0 # d :: u8 list) (window_hashes l (start_seq r) (end_seq r)) =
      map (\<lambda>d. 0 # d) (window_hashes l' (start_seq r) (end_seq r))"
    by (rule map_inj_eq) (rule inj_on_subset [OF assms(4)], auto simp: window_inputs_def)
  then show ?thesis by (simp add: inj_map_eq_map inj_def)
qed

text \<open>Two ledgers that differ before the window, sealed on their common last entry's hash.\<close>

definition other_ledger :: audit_ledger where
  "other_ledger = small_ledger \<lparr> entries := (entries small_ledger) [0 := (entries small_ledger ! 0) \<lparr> entry := demo_entry 9 \<rparr>] \<rparr>"

theorem receipt_pins_window_witness:
  "other_ledger \<noteq> small_ledger \<and> window_hashes small_ledger 1 1 = window_hashes other_ledger 1 1"
proof -
  have lib: "signing_laws echo_lib" by (rule echo.signing_laws_axioms)
  have hash: "digest_hash (blake3 demo_hashing)" by (simp add: demo_hashing_def summed.digest_hash_axioms)
  have n: "length (entries small_ledger) = 2" "length (entries other_ledger) = 2" by code_simp+
  have len: "length (entries small_ledger) < 2 ^ 64" "\<forall>e \<in> set (entries small_ledger). length (self_hash e) = 32"
    by (simp add: n, code_simp)
  obtain r where r: "seal_with_options echo_lib demo_hashing 5 \<lparr> signing = 3 \<rparr> small_ledger 1 1 seal_options_default = Inr r"
    using seal_defined [of 1 1 small_ledger echo_lib demo_hashing 5 "\<lparr> signing = 3 \<rparr>" seal_options_default] by (auto simp: n)
  then have s: "start_seq r = 1" "end_seq r = 1" "inclusions r = []"
    by (auto simp: seal_with_options_def Let_def seal_options_default_def split: if_splits)
  let ?v = "\<lparr> pubkey = vk_of echo_lib (3 :: u8) \<rparr>"
  have v: "verify_receipt echo_lib demo_hashing ?v r small_ledger = Inr ()"
    using signing_laws.seal_verifies_aux(2) [OF lib hash len r] by simp
  have same: "window_merkle_root demo_hashing other_ledger 1 1 = window_merkle_root demo_hashing small_ledger 1 1"
    by code_simp
  have "verify_receipt echo_lib demo_hashing ?v r other_ledger = Inr ()"
    using v by (auto simp: verify_receipt_def Let_def s same ledger_len_def n split: if_splits sum.splits)
  moreover have "window_inputs demo_hashing small_ledger 1 1 = [0 # replicate 31 1 @ [self_hash (entries small_ledger ! 1) ! 31]]"
      "window_inputs demo_hashing other_ledger 1 1 = window_inputs demo_hashing small_ledger 1 1"
    by code_simp+
  ultimately have "window_hashes small_ledger 1 1 = window_hashes other_ledger 1 1"
    using receipt_pins_window [OF hash v, of ?v other_ledger] by (simp add: s)
  moreover have "other_ledger \<noteq> small_ledger" by code_simp
  ultimately show ?thesis by simp
qed

end
