(* ===== verification/Evidence_Cli.thy ===== *)
theory Evidence_Cli
  imports Evidence
begin

text \<open>
  The command line tool \<open>epica-verify\<close> (\<open>epica-zk-evidence/src/bin/verify.rs\<close>) over an explicit
  file store. The JSON readers and the printer of serde are parameters; an error is a constructor
  with the arguments of its message, and the lines printed on success are left out.
\<close>

section \<open>The environment\<close>

text \<open>\<open>writable\<close> tells which paths \<open>std::fs::write\<close> can write; a failed write leaves the store alone.\<close>

record cli_env =
  parse_ledger :: "string \<Rightarrow> (u64 \<times> audit_entry) list option"
  parse_receipt :: "string \<Rightarrow> evidence_receipt option"
  show_receipt :: "evidence_receipt \<Rightarrow> string option"
  writable :: "string \<Rightarrow> bool"

type_synonym file_store = "string \<rightharpoonup> string"

datatype cli_error =
    SecretExists string
  | WriteSecret
  | LedgerEmpty
  | ReadSecret
  | DecodeSecretHex hex_error
  | LoadProver prover_error
  | SealFailed prover_error
  | SerialiseReceipt
  | WriteReceipt
  | ReadReceipt
  | ParseReceipt
  | BuildVerifier verification_error
  | VerificationFailed verification_error
  | ReadLedger string
  | ParseLedger
  | NonMonotonicSeq nat u64

text \<open>\<open>str::trim\<close> on ASCII white space, which is all a secret file can hold around its digits.\<close>

definition is_space :: "char \<Rightarrow> bool" where
  "is_space c \<longleftrightarrow> c \<in> {CHR '' '', CHR 0x09, CHR 0x0A, CHR 0x0B, CHR 0x0C, CHR 0x0D}"

definition trim :: "string \<Rightarrow> string" where
  "trim s = rev (dropWhile is_space (rev (dropWhile is_space s)))"

section \<open>Reading a ledger\<close>

fun rebuild_from :: "hashing \<Rightarrow> nat \<Rightarrow> audit_ledger \<Rightarrow> (u64 \<times> audit_entry) list \<Rightarrow> cli_error + audit_ledger" where
  "rebuild_from H i l [] = Inr l"
| "rebuild_from H i l ((s, e) # ws) =
     (if s \<noteq> of_nat i then Inl (NonMonotonicSeq i s)
      else rebuild_from H (Suc i) (snd (ledger_append H e l)) ws)"

definition rebuild_ledger :: "hashing \<Rightarrow> (u64 \<times> audit_entry) list \<Rightarrow> cli_error + audit_ledger" where
  "rebuild_ledger H ws = rebuild_from H 0 ledger_new ws"

definition read_ledger :: "cli_env \<Rightarrow> hashing \<Rightarrow> file_store \<Rightarrow> string \<Rightarrow> cli_error + audit_ledger" where
  "read_ledger E H fs path =
     (case fs path of
        None \<Rightarrow> Inl (ReadLedger path)
      | Some raw \<Rightarrow>
          (case parse_ledger E raw of
             None \<Rightarrow> Inl ParseLedger
           | Some ws \<Rightarrow> rebuild_ledger H ws))"

section \<open>The commands\<close>

definition write_file :: "cli_env \<Rightarrow> file_store \<Rightarrow> string \<Rightarrow> string \<Rightarrow> file_store option" where
  "write_file E fs path content = (if writable E path then Some (fs(path \<mapsto> content)) else None)"

text \<open>\<open>sk\<close> is the key the operating system's generator yields.\<close>

definition keygen ::
  "cli_env \<Rightarrow> ('sk, 'vk) signing_lib \<Rightarrow> 'sk \<Rightarrow> string \<Rightarrow> file_store \<Rightarrow> (cli_error + unit) \<times> file_store" where
  "keygen E X sk secret_out fs =
     (if fs secret_out \<noteq> None then (Inl (SecretExists secret_out), fs)
      else
        (let secret_hex = hex_encode X (export_secret_bytes X \<lparr> signing = sk \<rparr>)
         in case write_file E fs secret_out (secret_hex @ [CHR 0x0A]) of
              None \<Rightarrow> (Inl WriteSecret, fs)
            | Some fs' \<Rightarrow> (Inr (), fs')))"

definition load_prover ::
  "('sk, 'vk) signing_lib \<Rightarrow> file_store \<Rightarrow> string \<Rightarrow> cli_error + 'sk prover" where
  "load_prover X fs secret_path =
     (case fs secret_path of
        None \<Rightarrow> Inl ReadSecret
      | Some secret_hex \<Rightarrow>
          (case hex_decode X (trim secret_hex) of
             Inl e \<Rightarrow> Inl (DecodeSecretHex e)
           | Inr bytes \<Rightarrow>
               (case from_secret_bytes X bytes of Inl e \<Rightarrow> Inl (LoadProver e) | Inr p \<Rightarrow> Inr p)))"

definition seal_cmd ::
  "cli_env \<Rightarrow> ('sk, 'vk) signing_lib \<Rightarrow> hashing \<Rightarrow> u64 \<Rightarrow> string \<Rightarrow> string \<Rightarrow> u64 \<Rightarrow> u64 option \<Rightarrow> string option \<Rightarrow>
     string \<Rightarrow> file_store \<Rightarrow> (cli_error + unit) \<times> file_store" where
  "seal_cmd E X H now ledger_path secret_path start_s end_opt lbl out_path fs =
     (case read_ledger E H fs ledger_path of
        Inl e \<Rightarrow> (Inl e, fs)
      | Inr l \<Rightarrow>
          if ledger_is_empty l then (Inl LedgerEmpty, fs)
          else
            (let end_s = (case end_opt of Some x \<Rightarrow> x | None \<Rightarrow> of_nat (ledger_len l) - 1)
             in case load_prover X fs secret_path of
                  Inl e \<Rightarrow> (Inl e, fs)
                | Inr p \<Rightarrow>
                    (case seal_with_options X H now p l start_s end_s \<lparr> opt_label = lbl, opt_inclusions = [] \<rparr> of
                       Inl e \<Rightarrow> (Inl (SealFailed e), fs)
                     | Inr r \<Rightarrow>
                         (case show_receipt E r of
                            None \<Rightarrow> (Inl SerialiseReceipt, fs)
                          | Some js \<Rightarrow>
                              (case write_file E fs out_path js of
                                 None \<Rightarrow> (Inl WriteReceipt, fs)
                               | Some fs' \<Rightarrow> (Inr (), fs'))))))"

definition verify_cmd ::
  "cli_env \<Rightarrow> ('sk, 'vk) signing_lib \<Rightarrow> hashing \<Rightarrow> string \<Rightarrow> string \<Rightarrow> file_store \<Rightarrow> cli_error + unit" where
  "verify_cmd E X H ledger_path receipt_path fs =
     (case read_ledger E H fs ledger_path of
        Inl e \<Rightarrow> Inl e
      | Inr l \<Rightarrow>
          (case fs receipt_path of
             None \<Rightarrow> Inl ReadReceipt
           | Some js \<Rightarrow>
               (case parse_receipt E js of
                  None \<Rightarrow> Inl ParseReceipt
                | Some r \<Rightarrow>
                    (case verifier_from_receipt X r of
                       Inl e \<Rightarrow> Inl (BuildVerifier e)
                     | Inr v \<Rightarrow>
                         (case verify_receipt X H v r l of
                            Inl e \<Rightarrow> Inl (VerificationFailed e)
                          | Inr _ \<Rightarrow> Inr ())))))"

section \<open>Rebuilding\<close>

lemma rebuild_from_Inr:
  assumes "rebuild_from H i l ws = Inr l'" "sealed_ok H l" "length (entries l) = i"
    and "\<forall>e \<in> set (entries l). length (self_hash e) = 32" "digest_hash (blake3 H)"
  shows "sealed_ok H l' \<and> map entry (entries l') = map entry (entries l) @ map snd ws \<and>
    (\<forall>e \<in> set (entries l'). length (self_hash e) = 32)"
  using assms
proof (induction H i l ws rule: rebuild_from.induct)
  case (2 H i l s e ws)
  have s: "s = of_nat i" and r: "rebuild_from H (Suc i) (snd (ledger_append H e l)) ws = Inr l'"
    using 2(2) by (simp_all split: if_splits)
  have "\<forall>x \<in> set (entries (snd (ledger_append H e l))). length (self_hash x) = 32"
    using 2(5) by (auto simp: hash_entry_def digest_hash.digest_length [OF 2(6)])
  moreover have "sealed_ok H (snd (ledger_append H e l))" by (rule sealed_ok_append) (rule 2(3))
  moreover have "length (entries (snd (ledger_append H e l))) = Suc i" using 2(4) by simp
  ultimately have "sealed_ok H l' \<and> map entry (entries l') = map entry (entries (snd (ledger_append H e l))) @ map snd ws \<and>
    (\<forall>e \<in> set (entries l'). length (self_hash e) = 32)"
    using 2(1) [OF _ r _ _ _ 2(6)] s by blast
  then show ?case by simp
qed simp

text \<open>Whatever file is read, the ledger rebuilt from it verifies and holds the entries of the file.\<close>

lemma read_ledger_sealed:
  assumes "read_ledger E H fs path = Inr l" "digest_hash (blake3 H)"
  shows "sealed_ok H l" "\<forall>e \<in> set (entries l). length (self_hash e) = 32"
proof -
  obtain ws where "rebuild_from H 0 ledger_new ws = Inr l"
    using assms(1) by (auto simp: read_ledger_def rebuild_ledger_def split: option.splits)
  from rebuild_from_Inr [OF this _ _ _ assms(2)] show "sealed_ok H l" "\<forall>e \<in> set (entries l). length (self_hash e) = 32"
    by (simp_all add: ledger_new_def sealed_ok_new [unfolded ledger_new_def])
qed

lemma rebuild_recorded:
  assumes "verify_from H i (last_hash l) es = Inr ()" "length (entries l) = i"
  shows "\<exists>l'. rebuild_from H i l (map (\<lambda>e. (seq e, entry e)) es) = Inr l' \<and>
    entries l' = entries l @ es \<and> last_hash l' = chain_head (last_hash l) es"
  using assms
proof (induction es arbitrary: i l)
  case (Cons e es)
  let ?l = "snd (ledger_append H (entry e) l)"
  have e: "seq e = of_nat i" "prev_hash e = last_hash l" "self_hash e = hash_entry H (last_hash l) (entry e)"
    using Cons.prems(1) by (auto split: if_splits)
  then have "fst (ledger_append H (entry e) l) = e"
    using Cons.prems(2) by (intro ledger_entry.equality) simp_all
  then have l: "entries ?l = entries l @ [e]" "last_hash ?l = self_hash e" by simp_all
  have "verify_from H (Suc i) (last_hash ?l) es = Inr ()" using Cons.prems(1) l(2) by (auto split: if_splits)
  then obtain l' where "rebuild_from H (Suc i) ?l (map (\<lambda>e. (seq e, entry e)) es) = Inr l'"
      "entries l' = entries ?l @ es" "last_hash l' = chain_head (last_hash ?l) es"
    using Cons.IH [of "Suc i" ?l] Cons.prems(2) l(1) by auto
  then show ?case using e(1,3) l by simp
qed simp

text \<open>Exporting sequence numbers and contents of a verified ledger and rebuilding gives the same ledger, hashes included.\<close>

lemma rebuild_exported:
  assumes "verify_chain H l = Inr ()" "head_hash l = chain_head zero_digest (entries l)"
  shows "rebuild_ledger H (map (\<lambda>e. (seq e, entry e)) (entries l)) = Inr l"
proof -
  have "verify_from H 0 (last_hash ledger_new) (entries l) = Inr ()"
    using assms(1) by (simp add: verify_chain_def ledger_new_def)
  from rebuild_recorded [OF this] obtain l' where
    l': "rebuild_ledger H (map (\<lambda>e. (seq e, entry e)) (entries l)) = Inr l'"
    "entries l' = entries l" "last_hash l' = chain_head zero_digest (entries l)"
    by (auto simp: rebuild_ledger_def ledger_new_def)
  then have "l' = l" using assms(2) by (intro audit_ledger.equality) (simp_all add: head_hash_def)
  with l'(1) show ?thesis by simp
qed

text \<open>
  What \<open>seal\<close> writes \<open>verify\<close> accepts: after a successful seal into a file of its own, verifying
  that file against the same ledger succeeds.
\<close>

theorem seal_then_verify:
  assumes "signing_laws X" "digest_hash (blake3 H)"
    and "\<And>r js. show_receipt E r = Some js \<Longrightarrow> parse_receipt E js = Some r"
    and "\<And>l. read_ledger E H fs ledger_path = Inr l \<Longrightarrow> length (entries l) < 2 ^ 64"
    and "out_path \<noteq> ledger_path"
    and "seal_cmd E X H now ledger_path secret_path start_s end_opt lbl out_path fs = (Inr (), fs')"
  shows "verify_cmd E X H ledger_path out_path fs' = Inr ()"
proof -
  note cmd = assms(6) [unfolded seal_cmd_def Let_def]
  obtain l where l: "read_ledger E H fs ledger_path = Inr l" using cmd by (auto split: sum.splits)
  obtain p where p: "load_prover X fs secret_path = Inr p" using cmd l by (auto split: sum.splits if_splits)
  obtain end_s r where r: "seal_with_options X H now p l start_s end_s \<lparr> opt_label = lbl, opt_inclusions = [] \<rparr> = Inr r"
      and w: "\<exists>js. show_receipt E r = Some js \<and> write_file E fs out_path js = Some fs'"
    using cmd l p by (auto split: sum.splits if_splits option.splits)
  from w obtain js where js: "show_receipt E r = Some js" "fs' = fs(out_path \<mapsto> js)"
    by (auto simp: write_file_def split: if_splits)
  have "read_ledger E H fs' ledger_path = Inr l" using l js(2) assms(5) by (simp add: read_ledger_def)
  then show ?thesis
    using signing_laws.seal_verifies_aux [OF assms(1,2) assms(4) [OF l] read_ledger_sealed(2) [OF l assms(2)] r]
      assms(3) [OF js(1)] js(2)
    by (simp add: verify_cmd_def)
qed

lemma demo_rebuilt: "rebuild_ledger demo_hashing (map (\<lambda>e. (seq e, entry e)) (entries demo_ledger)) = Inr demo_ledger"
proof (rule rebuild_exported)
  show "verify_chain demo_hashing demo_ledger = Inr ()" by code_simp
  show "head_hash demo_ledger = chain_head zero_digest (entries demo_ledger)" by code_simp
qed

definition demo_env :: "evidence_receipt \<Rightarrow> cli_env" where
  "demo_env r = \<lparr> parse_ledger = (\<lambda>s. if s = ''ledger'' then Some (map (\<lambda>e. (seq e, entry e)) (entries demo_ledger)) else None),
     parse_receipt = (\<lambda>s. if s = ''receipt'' then Some r else None),
     show_receipt = (\<lambda>x. if x = r then Some ''receipt'' else None), writable = (\<lambda>s. True) \<rparr>"

definition demo_files :: file_store where
  "demo_files = [''l.json'' \<mapsto> ''ledger'', ''key'' \<mapsto> bytes_to_hex (replicate 32 3) @ [CHR 0x0A]]"

theorem seal_then_verify_witness:
  "\<exists>r fs'. seal_cmd (demo_env r) echo_lib demo_hashing 5 ''l.json'' ''key'' 0 None None ''r.json'' demo_files = (Inr (), fs') \<and>
     verify_cmd (demo_env r) echo_lib demo_hashing ''l.json'' ''r.json'' fs' = Inr ()"
proof -
  have n: "length (entries demo_ledger) = 3" by code_simp
  obtain r where r: "seal_with_options echo_lib demo_hashing 5 \<lparr> signing = 3 \<rparr> demo_ledger 0 2
      \<lparr> opt_label = None, opt_inclusions = [] \<rparr> = Inr r"
    using seal_defined [of 0 2 demo_ledger echo_lib demo_hashing 5 "\<lparr> signing = 3 \<rparr>" "\<lparr> opt_label = None, opt_inclusions = [] \<rparr>"]
    by (auto simp: n)
  have l: "read_ledger (demo_env r) demo_hashing demo_files ''l.json'' = Inr demo_ledger"
    using demo_rebuilt by (simp add: read_ledger_def demo_env_def demo_files_def)
  have p: "load_prover echo_lib demo_files ''key'' = Inr \<lparr> signing = 3 \<rparr>"
    by code_simp
  have ne: "entries demo_ledger \<noteq> []" using n by auto
  have w: "write_file (demo_env r) fs path c = Some (fs(path \<mapsto> c))" for fs path c
    by (simp add: write_file_def demo_env_def)
  have j: "show_receipt (demo_env r) r = Some ''receipt''" by (simp add: demo_env_def)
  have cmd: "seal_cmd (demo_env r) echo_lib demo_hashing 5 ''l.json'' ''key'' 0 None None ''r.json'' demo_files =
      (Inr (), demo_files(''r.json'' \<mapsto> ''receipt''))"
    using r ne by (simp add: seal_cmd_def l p w j ledger_len_def ledger_is_empty_def n)
  have "verify_cmd (demo_env r) echo_lib demo_hashing ''l.json'' ''r.json'' (demo_files(''r.json'' \<mapsto> ''receipt'')) = Inr ()"
  proof (rule seal_then_verify [OF echo.signing_laws_axioms _ _ _ _ cmd])
    show "digest_hash (blake3 demo_hashing)" by (simp add: demo_hashing_def summed.digest_hash_axioms)
  qed (use l in \<open>auto simp: demo_env_def n split: if_splits\<close>)
  with cmd show ?thesis by blast
qed

end
