(* ===== verification/Sovereignty.thy ===== *)
theory Sovereignty
  imports Quad_Session Audit_Ledger
begin

text \<open>
  Mnemonic sovereignty (\<open>epica-contracts/src/sovereignty\<close>): authorization (\<open>auth.rs\<close>), retention
  (\<open>retention.rs\<close>), sharing (\<open>cross_agent.rs\<close>), erasure (\<open>forget.rs\<close>), audit emission
  (\<open>audit.rs\<close>) and the record that bundles the nine primitives (\<open>mod.rs\<close>).
\<close>

section \<open>Authorization, retention, sharing\<close>

datatype allowed_agents = Any | Allowlist "string list" | Denylist "string list" | HumanApprovalRequired

record auth_policy =
  allowed_agents :: allowed_agents
  require_audit :: bool

definition auth_policy_default :: auth_policy where
  "auth_policy_default = \<lparr> allowed_agents = Any, require_audit = False \<rparr>"

definition allows :: "auth_policy \<Rightarrow> string \<Rightarrow> bool" where
  "allows p agent =
     (case allowed_agents p of
        Any \<Rightarrow> True
      | Allowlist ids \<Rightarrow> list_ex (\<lambda>i. i = agent) ids
      | Denylist ids \<Rightarrow> \<not> list_ex (\<lambda>i. i = agent) ids
      | HumanApprovalRequired \<Rightarrow> False)"

definition requires_human_approval :: "auth_policy \<Rightarrow> bool" where
  "requires_human_approval p = (case allowed_agents p of HumanApprovalRequired \<Rightarrow> True | _ \<Rightarrow> False)"

datatype retention_policy = Permanent | Duration u64 | Until string | SessionScoped

definition retention_is_expired :: "retention_policy \<Rightarrow> u64 \<Rightarrow> u64 \<Rightarrow> bool" where
  "retention_is_expired p created now =
     (case p of
        Permanent \<Rightarrow> False
      | Duration ms \<Rightarrow> ms < saturating_sub now created
      | SessionScoped \<Rightarrow> False
      | Until _ \<Rightarrow> False)"

datatype sharing_mode = Isolated | SharedWith "string list" | SessionShared | Global

record cross_agent_policy =
  sharing_mode :: sharing_mode
  require_consent :: bool

definition cross_agent_default :: cross_agent_policy where
  "cross_agent_default = \<lparr> sharing_mode = SessionShared, require_consent = False \<rparr>"

definition allows_share_with :: "cross_agent_policy \<Rightarrow> string \<Rightarrow> bool" where
  "allows_share_with p agent =
     (case sharing_mode p of
        Isolated \<Rightarrow> False
      | SharedWith ids \<Rightarrow> list_ex (\<lambda>i. i = agent) ids
      | SessionShared \<Rightarrow> True
      | Global \<Rightarrow> True)"

section \<open>Erasure\<close>

datatype forget_trigger =
    TtlExpired
  | ContractRevoked
  | ExplicitRequest string
  | CrossAgentContamination string
  | GovernanceMandated string

datatype forget_result =
    ForgetVerified
  | PersistenceNotVerified "string list"
  | PartialDeletion "belief_id list list"
  | VerificationError string

record 'q forget_policy =
  triggers :: "forget_trigger list"
  verify_fn :: "belief_id \<Rightarrow> 'q \<Rightarrow> forget_result"

fun same_variant :: "forget_trigger \<Rightarrow> forget_trigger \<Rightarrow> bool" where
  "same_variant TtlExpired TtlExpired = True"
| "same_variant ContractRevoked ContractRevoked = True"
| "same_variant (ExplicitRequest _) (ExplicitRequest _) = True"
| "same_variant (CrossAgentContamination _) (CrossAgentContamination _) = True"
| "same_variant (GovernanceMandated _) (GovernanceMandated _) = True"
| "same_variant _ _ = False"

definition is_triggered_by :: "'q forget_policy \<Rightarrow> forget_trigger \<Rightarrow> bool" where
  "is_triggered_by P t = list_ex (\<lambda>u. same_variant u t) (triggers P)"

definition forget_execute ::
  "('s, 'a, 'b, 'c, 'd) lib \<Rightarrow> ('s, 'a, 'b, 'c, 'd) session_quad forget_policy \<Rightarrow> belief_id \<Rightarrow>
     ('s, 'a, 'b, 'c, 'd) session_quad \<Rightarrow> forget_result \<times> ('s, 'a, 'b, 'c, 'd) session_quad" where
  "forget_execute L P b q = (verify_fn P b q, snd (quad_remove L q b))"

definition execute_with_backends ::
  "('s, 'a, 'b, 'c, 'd) lib \<Rightarrow> ('s, 'a, 'b, 'c, 'd) session_quad forget_policy \<Rightarrow> belief_id \<Rightarrow>
     ('s, 'a, 'b, 'c, 'd) session_quad \<Rightarrow> string list \<Rightarrow> forget_result \<times> ('s, 'a, 'b, 'c, 'd) session_quad" where
  "execute_with_backends L P b q backends =
     (case forget_execute L P b q of
        (r, q') \<Rightarrow>
          (if backends = [] then r
           else (case r of ForgetVerified \<Rightarrow> PersistenceNotVerified backends | other \<Rightarrow> other), q'))"

text \<open>The order in which the hash set yields the descendants is the library's \<open>l_ord\<close>.\<close>

definition default_causal_verify_fn ::
  "('s, 'a, 'b, 'c, 'd) lib \<Rightarrow> belief_id \<Rightarrow> ('s, 'a, 'b, 'c, 'd, 'z) quad_scheme \<Rightarrow> forget_result" where
  "default_causal_verify_fn L b q =
     (if quad_get L q b = None then VerificationError ''belief not found in quad - already removed?''
      else
        (let descendants = l_ord L (descendants_of (l_cau L) (causal q) b)
         in if descendants = [] then ForgetVerified else PartialDeletion [descendants]))"

section \<open>Audit emission\<close>

datatype audit_mode = AuditFull | AuditSelective | AuditViolationsOnly
datatype audit_destination = ToTracing | ToFile string | ToOtlp string
datatype audit_format = FormatJson | FormatOtel

text \<open>
  A shared ledger is a handle into the store of the process; a poisoned lock is a handle without a
  ledger. \<open>append_line\<close> of the store is the file system's answer to opening and writing a line.
\<close>

type_synonym ledger_handle = nat

record audit_policy =
  audit_mode :: audit_mode
  destination :: audit_destination
  format :: audit_format
  ledger :: "ledger_handle option"

definition audit_policy_default :: audit_policy where
  "audit_policy_default =
     \<lparr> audit_mode = AuditSelective, destination = ToTracing, format = FormatJson, ledger = None \<rparr>"

record audit_store =
  ledgers :: "ledger_handle \<rightharpoonup> audit_ledger"
  next_handle :: ledger_handle
  traced :: "(string \<times> u8 list) list"
  file_bytes :: "string \<Rightarrow> u8 list"

definition new_shared_ledger :: "audit_store \<Rightarrow> ledger_handle \<times> audit_store" where
  "new_shared_ledger w =
     (next_handle w, w \<lparr> ledgers := (ledgers w)(next_handle w \<mapsto> ledger_new), next_handle := next_handle w + 1 \<rparr>)"

definition with_ledger :: "audit_policy \<Rightarrow> audit_store \<Rightarrow> audit_policy \<times> audit_store" where
  "with_ledger p w = (case new_shared_ledger w of (h, w') \<Rightarrow> (p \<lparr> ledger := Some h \<rparr>, w'))"

definition with_shared_ledger :: "audit_policy \<Rightarrow> ledger_handle \<Rightarrow> audit_policy" where
  "with_shared_ledger p h = p \<lparr> ledger := Some h \<rparr>"

definition ledger_handle :: "audit_policy \<Rightarrow> ledger_handle option" where
  "ledger_handle p = ledger p"

definition seal_entry :: "hashing \<Rightarrow> audit_policy \<Rightarrow> audit_entry \<Rightarrow> audit_store \<Rightarrow> audit_store" where
  "seal_entry H p e w =
     (case ledger p of
        None \<Rightarrow> w
      | Some h \<Rightarrow>
          (case ledgers w h of
             None \<Rightarrow> w
           | Some l \<Rightarrow> w \<lparr> ledgers := (ledgers w)(h \<mapsto> snd (ledger_append H e l)) \<rparr>))"

definition dispatch_entry ::
  "hashing \<Rightarrow> (string \<Rightarrow> u8 list \<Rightarrow> u8 list \<Rightarrow> u8 list) \<Rightarrow> audit_policy \<Rightarrow> audit_entry \<Rightarrow> audit_store \<Rightarrow> audit_store" where
  "dispatch_entry H append_line p e w =
     (case destination p of
        ToTracing \<Rightarrow> w \<lparr> traced := traced w @ [(''[epica-audit]'', canonical H e)] \<rparr>
      | ToFile path \<Rightarrow>
          w \<lparr> file_bytes := (file_bytes w)(path := append_line path (canonical H e) (file_bytes w path)) \<rparr>
      | ToOtlp _ \<Rightarrow> w \<lparr> traced := traced w @ [(''[epica-audit:otlp-pending]'', canonical H e)] \<rparr>)"

definition emit ::
  "hashing \<Rightarrow> (string \<Rightarrow> u8 list \<Rightarrow> u8 list \<Rightarrow> u8 list) \<Rightarrow> audit_policy \<Rightarrow> audit_entry \<Rightarrow> audit_store \<Rightarrow> audit_store" where
  "emit H append_line p e w = dispatch_entry H append_line p e (seal_entry H p e w)"

section \<open>The nine primitives\<close>

datatype recovery_verification = RecoveryVerified | RecoveryVerificationFailed string

record 'q mnemonic_sovereignty =
  write_auth :: auth_policy
  read_auth :: auth_policy
  update_auth :: auth_policy
  retention :: retention_policy
  forget :: "'q forget_policy option"
  audit :: audit_policy
  cross_agent :: cross_agent_policy
  rollback_auth :: auth_policy
  recovery_verify :: "'q \<Rightarrow> recovery_verification"

definition permissive :: "'q mnemonic_sovereignty" where
  "permissive =
     \<lparr> write_auth = auth_policy_default, read_auth = auth_policy_default, update_auth = auth_policy_default,
       retention = Permanent, forget = None, audit = audit_policy_default, cross_agent = cross_agent_default,
       rollback_auth = auth_policy_default, recovery_verify = (\<lambda>q. RecoveryVerified) \<rparr>"

text \<open>\<open>violation_class\<close> is \<open>invariant.rs\<close>'s, which the error type mentions.\<close>

datatype violation_class = Soft | Hard | Critical

datatype contract_error =
    ContractPreconditionFailed string
  | InvariantViolation string violation_class
  | SovereigntyViolation string

fun class_text :: "violation_class \<Rightarrow> string" where
  "class_text Soft = ''Soft''"
| "class_text Hard = ''Hard''"
| "class_text Critical = ''Critical''"

fun contract_error_text :: "contract_error \<Rightarrow> string" where
  "contract_error_text (ContractPreconditionFailed d) = ''precondition failed: '' @ d"
| "contract_error_text (InvariantViolation d c) = ''invariant violation: '' @ d @ '' (class: '' @ class_text c @ '')''"
| "contract_error_text (SovereigntyViolation m) = ''sovereignty violation: '' @ m"

definition denied :: "string \<Rightarrow> string \<Rightarrow> contract_error" where
  "denied what agent = SovereigntyViolation (what @ '' denied for agent '' @ [CHR 0x27] @ agent @ [CHR 0x27])"

definition check_write_auth :: "'q mnemonic_sovereignty \<Rightarrow> string \<Rightarrow> contract_error + unit" where
  "check_write_auth sov agent =
     (if allows (write_auth sov) agent then Inr () else Inl (denied ''write_auth'' agent))"

definition check_update_auth :: "'q mnemonic_sovereignty \<Rightarrow> string \<Rightarrow> contract_error + unit" where
  "check_update_auth sov agent =
     (if allows (update_auth sov) agent then Inr () else Inl (denied ''update_auth'' agent))"

definition check_read_auth :: "'q mnemonic_sovereignty \<Rightarrow> string \<Rightarrow> contract_error + unit" where
  "check_read_auth sov agent =
     (if allows (read_auth sov) agent then Inr () else Inl (denied ''read_auth'' agent))"

definition check_rollback_auth :: "'q mnemonic_sovereignty \<Rightarrow> string \<Rightarrow> contract_error + unit" where
  "check_rollback_auth sov agent =
     (if allows (rollback_auth sov) agent then Inr () else Inl (denied ''rollback_auth'' agent))"

definition is_belief_expired :: "'q mnemonic_sovereignty \<Rightarrow> u64 \<Rightarrow> u64 \<Rightarrow> bool" where
  "is_belief_expired sov created now = retention_is_expired (retention sov) created now"

definition allows_cross_agent_share :: "'q mnemonic_sovereignty \<Rightarrow> string \<Rightarrow> bool" where
  "allows_cross_agent_share sov agent = allows_share_with (cross_agent sov) agent"

definition emit_audit ::
  "hashing \<Rightarrow> (string \<Rightarrow> u8 list \<Rightarrow> u8 list \<Rightarrow> u8 list) \<Rightarrow> 'q mnemonic_sovereignty \<Rightarrow> audit_entry \<Rightarrow> audit_store \<Rightarrow> audit_store" where
  "emit_audit H append_line sov e w = emit H append_line (audit sov) e w"

definition verify_recovery :: "'q mnemonic_sovereignty \<Rightarrow> 'q \<Rightarrow> recovery_verification" where
  "verify_recovery sov q = recovery_verify sov q"

section \<open>Erasure is complete\<close>

context belief_lib begin

lemma default_verdict:
  assumes "quad_wf L q"
  shows "b \<notin> beliefs L q \<Longrightarrow> \<exists>m. default_causal_verify_fn L b q = VerificationError m"
    and "b \<in> beliefs L q \<Longrightarrow> descendants_of (l_cau L) (causal q) b = {} \<Longrightarrow>
      default_causal_verify_fn L b q = ForgetVerified"
    and "b \<in> beliefs L q \<Longrightarrow> descendants_of (l_cau L) (causal q) b \<noteq> {} \<Longrightarrow>
      \<exists>ds. default_causal_verify_fn L b q = PartialDeletion [ds] \<and> set ds = descendants_of (l_cau L) (causal q) b"
proof -
  have "finite (descendants_of (l_cau L) (causal q) b)"
    using descendants_beliefs [OF assms] finite_beliefs [OF assms] by (rule finite_subset)
  then have o: "set (l_ord L (descendants_of (l_cau L) (causal q) b)) = descendants_of (l_cau L) (causal q) b"
    using ord by blast
  then have "l_ord L (descendants_of (l_cau L) (causal q) b) = [] \<longleftrightarrow> descendants_of (l_cau L) (causal q) b = {}"
    by (metis set_empty)
  then show "b \<notin> beliefs L q \<Longrightarrow> \<exists>m. default_causal_verify_fn L b q = VerificationError m"
    "b \<in> beliefs L q \<Longrightarrow> descendants_of (l_cau L) (causal q) b = {} \<Longrightarrow>
      default_causal_verify_fn L b q = ForgetVerified"
    "b \<in> beliefs L q \<Longrightarrow> descendants_of (l_cau L) (causal q) b \<noteq> {} \<Longrightarrow>
      \<exists>ds. default_causal_verify_fn L b q = PartialDeletion [ds] \<and> set ds = descendants_of (l_cau L) (causal q) b"
    using o by (auto simp: default_causal_verify_fn_def Let_def beliefs_def domIff)
qed

lemma erased:
  assumes "quad_wf L q"
  shows "quad_wf L (snd (quad_remove L q b))" "quad_get L (snd (quad_remove L q b)) = (quad_get L q)(b := None)"
  using remove_wf [OF assms] remove_get [OF assms] by simp_all

end

section \<open>Properties\<close>

lemma forget_execute_simps:
  "execute_with_backends L P b q backends =
     ((if backends = [] then verify_fn P b q
       else (case verify_fn P b q of ForgetVerified \<Rightarrow> PersistenceNotVerified backends | other \<Rightarrow> other)),
      snd (quad_remove L q b))"
  by (simp add: execute_with_backends_def forget_execute_def)

text \<open>
  C29. Erasing a belief removes it and exactly the edges at it from the four graphs, keeps every
  other belief, every other edge and the well-formedness of the quad, whatever the verifier answered.
  The answer of the default verifier is about the quad before the erasure: an error for a belief
  that is not there; \<open>Verified\<close>, demoted to \<open>PersistenceNotVerified\<close> when back ends are named, for
  one without causal descendants; otherwise \<open>PartialDeletion\<close> with the descendants as its one
  path, although the belief is erased all the same.
\<close>

theorem forget_erases:
  assumes "belief_lib L" "quad_wf L q" "verify_fn P = default_causal_verify_fn L"
    and "execute_with_backends L P b q backends = (r, q')"
  shows "quad_wf L q' \<and> quad_get L q' = (quad_get L q)(b := None) \<and>
    mset (sem_edges L q') = filter_mset (\<lambda>(x, y, _). x \<noteq> b \<and> y \<noteq> b) (mset (sem_edges L q)) \<and>
    mset (tmp_edges L q') = filter_mset (\<lambda>(x, y, _). x \<noteq> b \<and> y \<noteq> b) (mset (tmp_edges L q)) \<and>
    mset (cau_edges L q') = filter_mset (\<lambda>(x, y, _). x \<noteq> b \<and> y \<noteq> b) (mset (cau_edges L q)) \<and>
    mset (ent_edges L q') = filter_mset (\<lambda>(x, y, _). x \<noteq> b \<and> y \<noteq> b) (mset (ent_edges L q)) \<and>
    (let D = descendants_of (l_cau L) (causal q) b
     in if b \<notin> beliefs L q then \<exists>m. r = VerificationError m
        else if D = {} then r = (if backends = [] then ForgetVerified else PersistenceNotVerified backends)
        else \<exists>ds. r = PartialDeletion [ds] \<and> set ds = D)"
proof -
  have q': "q' = snd (quad_remove L q b)"
    and r: "r = (if backends = [] then default_causal_verify_fn L b q
      else (case default_causal_verify_fn L b q of ForgetVerified \<Rightarrow> PersistenceNotVerified backends | other \<Rightarrow> other))"
    using assms(3,4) by (auto simp: forget_execute_simps)
  have away: "(\<lambda>e :: belief_id \<times> belief_id \<times> 'w. \<not> incident b e) = (\<lambda>(x, y, _). x \<noteq> b \<and> y \<noteq> b)"
    by (auto simp: incident_def)
  note edges = belief_lib.remove_edges [OF assms(1,2), of b, folded q', unfolded away]
  note verdict = belief_lib.default_verdict [OF assms(1,2), of b]
  have "let D = descendants_of (l_cau L) (causal q) b
     in if b \<notin> beliefs L q then \<exists>m. r = VerificationError m
        else if D = {} then r = (if backends = [] then ForgetVerified else PersistenceNotVerified backends)
        else \<exists>ds. r = PartialDeletion [ds] \<and> set ds = D"
  proof (cases "b \<in> beliefs L q \<and> descendants_of (l_cau L) (causal q) b \<noteq> {}")
    case True
    then obtain ds where "default_causal_verify_fn L b q = PartialDeletion [ds]"
      "set ds = descendants_of (l_cau L) (causal q) b" using verdict(3) by blast
    then show ?thesis using True by (simp add: r Let_def)
  next
    case False
    then show ?thesis using verdict(1,2) by (auto simp: r Let_def)
  qed
  then show ?thesis
    using edges belief_lib.erased [OF assms(1,2), where b = b, folded q'] by simp
qed

definition demo_forget where
  "demo_forget = \<lparr> triggers = [TtlExpired], verify_fn = default_causal_verify_fn ref_lib \<rparr>"

theorem forget_erases_witness:
  "\<exists>r q'. execute_with_backends ref_lib demo_forget key_c demo_session [''redis''] = (r, q') \<and>
     quad_get ref_lib q' key_c = None \<and> quad_wf ref_lib q'"
proof -
  have "quad_wf ref_lib demo_session = quad_wf ref_lib demo_quad"
    by (rule quad_wf_cong) (simp_all add: demo_session_def)
  then have w: "quad_wf ref_lib demo_session" using demo_wf(2) by simp
  obtain r q' where e: "execute_with_backends ref_lib demo_forget key_c demo_session [''redis''] = (r, q')" by fastforce
  from forget_erases [OF ref_belief_lib w _ e] have "quad_wf ref_lib q' \<and> quad_get ref_lib q' key_c = None"
    by (simp add: demo_forget_def)
  with e show ?thesis by blast
qed

text \<open>
  C30. Erasure does not reach the checkpoints the quad itself holds: a belief erased with the verdict
  \<open>Verified\<close> is back, value and all, after a rollback to a checkpoint taken before.
\<close>

theorem forgotten_belief_returns:
  assumes "belief_lib L" "quad_wf L q" "\<And>K. finite K \<Longrightarrow> set (kord K) = K" "u \<notin> cp_id ` set (checkpoints q)"
    and "quad_get L q b = Some n" "\<And>c m. quad_get L q c = Some m \<Longrightarrow> key m = key n \<Longrightarrow> c = b"
    and "forget_execute L P b (snd (take_checkpoint u now q)) = (r, q')"
  shows "quad_get L q' b = None \<and> quad_get L (snd (rollback_to L kord q' u)) b = Some n"
proof -
  let ?q = "snd (take_checkpoint u now q)"
  have q': "q' = snd (quad_remove L ?q b)" using assms(7) by (simp add: forget_execute_def)
  have n: "nodes ?q = nodes q" by (simp add: take_checkpoint_def Let_def)
  then have g: "quad_get L ?q = quad_get L q" by (simp add: quad_get_fun)
  have "quad_wf L ?q = quad_wf L q" by (rule quad_wf_cong) (simp_all add: take_checkpoint_def Let_def)
  then have w: "quad_wf L ?q" using assms(2) by simp
  note get' = belief_lib.erased(2) [OF assms(1) w, of b, folded q']
  have w': "quad_wf L q'" unfolding q' by (rule belief_lib.erased(1) [OF assms(1) w])
  have keys: "quad_keys L p = {key m |c m. quad_get L p c = Some m}" if "quad_wf L p" for p :: "('a, 'b, 'c, 'd, 'e, 'z) quad_scheme"
    using belief_lib.iter_mem [OF assms(1) that] by (force simp: quad_keys_def)
  have wt: "quad_wf L (quad.truncate q)" using assms(2) quad_wf_cong [of "quad.truncate q" q L] by simp
  have gt: "quad_get L (quad.truncate q) = quad_get L q" by (simp add: quad_get_fun)
  have "key n \<in> quad_keys L (quad.truncate q)" using assms(5) unfolding keys [OF wt] gt by blast
  moreover have "key n \<notin> quad_keys L q'"
    using assms(6) unfolding keys [OF w'] get' g by (auto split: if_splits)
  ultimately have "quad_keys L q' \<noteq> quad_keys L (quad.truncate q)" by blast
  then have "has_contradictions (quad_diff L kord q' (quad.truncate q))"
    using diff_reports [of kord L q' "quad.truncate q"] assms(3) by blast
  moreover have cps: "checkpoints q' = checkpoints ?q @ []" by (simp add: q')
  ultimately have "rollback_to L kord q' u =
      (Inr (quad_diff L kord q' (quad.truncate q)), with_checkpoints (quad.truncate q) [])"
    unfolding rollback_captured [OF assms(4) cps] by simp
  then show ?thesis using get' assms(5) by (simp add: quad_get_fun)
qed

theorem forgotten_belief_returns_witness:
  "\<exists>r q' n. forget_execute ref_lib demo_forget key_concl (snd (take_checkpoint 7 0 demo_session)) = (r, q') \<and>
     quad_get ref_lib q' key_concl = None \<and> quad_get ref_lib demo_session key_concl = Some n \<and>
     quad_get ref_lib (snd (rollback_to ref_lib sorted_list_of_set q' 7)) key_concl = Some n"
proof -
  have eq: "quad_wf ref_lib demo_session = quad_wf ref_lib demo_quad"
    by (rule quad_wf_cong) (simp_all add: demo_session_def)
  have w: "quad_wf ref_lib demo_session" using demo_wf(2) eq by simp
  have it: "quad_iter ref_lib demo_session = quad_iter ref_lib demo_quad" by (simp add: quad_iter_def demo_session_def)
  have keys: "map (\<lambda>(b, n). key n) (quad_iter ref_lib demo_quad) = [''a'', ''b'', ''c'', ''concl'']" by code_simp
  have "\<not> Option.is_none (quad_get ref_lib demo_quad key_concl)" by code_simp
  moreover have "quad_get ref_lib demo_session = quad_get ref_lib demo_quad" by (simp add: quad_get_fun demo_session_def)
  ultimately obtain n where n: "quad_get ref_lib demo_session key_concl = Some n"
    by (auto simp: Option.is_none_def)
  obtain r q' where e: "forget_execute ref_lib demo_forget key_concl (snd (take_checkpoint 7 0 demo_session)) = (r, q')"
    by fastforce
  have "quad_get ref_lib q' key_concl = None \<and>
    quad_get ref_lib (snd (rollback_to ref_lib sorted_list_of_set q' 7)) key_concl = Some n"
  proof (rule forgotten_belief_returns [OF ref_belief_lib w _ _ n _ e])
    show "(7 :: uuid) \<notin> cp_id ` set (checkpoints demo_session)" by (simp add: demo_session_def)
  next
    fix c m assume c: "quad_get ref_lib demo_session c = Some m" "key m = key n"
    have "distinct (map (\<lambda>(b, n). key n) (quad_iter ref_lib demo_session))" unfolding it keys by simp
    then have "inj_on (\<lambda>(b, n). key n) (set (quad_iter ref_lib demo_session))" by (simp only: distinct_map)
    moreover have "(c, m) \<in> set (quad_iter ref_lib demo_session)" "(key_concl, n) \<in> set (quad_iter ref_lib demo_session)"
      unfolding belief_lib.iter_mem [OF ref_belief_lib w] by (rule c(1), rule n)
    moreover have "(\<lambda>(b, n). key n) (c, m) = (\<lambda>(b, n). key n) (key_concl, n)" using c(2) by (simp only: prod.case)
    ultimately have "(c, m) = (key_concl, n)" using inj_onD by metis
    then show "c = key_concl" by blast
  qed simp
  with n e show ?thesis by blast
qed

section \<open>The audit trail\<close>

lemma emit_ledgers:
  "ledgers (emit H al p e w) =
     (case ledger p of None \<Rightarrow> ledgers w
      | Some h \<Rightarrow> (case ledgers w h of None \<Rightarrow> ledgers w
                  | Some l \<Rightarrow> (ledgers w)(h \<mapsto> snd (ledger_append H e l))))"
  by (simp add: emit_def dispatch_entry_def seal_entry_def split: audit_destination.split option.split)

text \<open>
  C31. Policies that share a ledger seal every entry they emit into it, in the order of the calls and
  whatever their modes, destinations and file errors; the ledger keeps verifying.
\<close>

theorem shared_ledger_complete:
  assumes "ledgers w h = Some l" "verify_chain H l = Inr ()" "head_hash l = chain_head zero_digest (entries l)"
    and "\<And>p e. (p, e) \<in> set calls \<Longrightarrow> ledger p = Some h"
  shows "\<exists>l'. ledgers (fold (\<lambda>(p, e). emit H al p e) calls w) h = Some l' \<and>
    map entry (entries l') = map entry (entries l) @ map snd calls \<and> verify_chain H l' = Inr ()"
proof -
  have "\<exists>l'. ledgers (fold (\<lambda>(p, e). emit H al p e) calls w) h = Some l' \<and>
      map entry (entries l') = map entry (entries l) @ map snd calls \<and> sealed_ok H l'"
    if "ledgers w h = Some l" "sealed_ok H l" "\<forall>(p, e) \<in> set calls. ledger p = Some h" for w l
    using that
  proof (induction calls arbitrary: w l)
    case (Cons c calls)
    obtain p e where c: "c = (p, e)" by fastforce
    then have "ledgers (emit H al p e w) h = Some (snd (ledger_append H e l))"
      using Cons.prems by (simp add: emit_ledgers)
    from Cons.IH [OF this sealed_ok_append [OF Cons.prems(2)]] Cons.prems(3) c show ?case by simp
  qed simp
  then show ?thesis using assms by (fastforce simp: sealed_ok_def)
qed

theorem shared_ledger_complete_witness:
  "\<exists>l. ledgers (emit demo_hashing (\<lambda>path line old. old) (audit_policy_default \<lparr> ledger := Some 0 \<rparr>) (demo_entry 2)
      (emit demo_hashing (\<lambda>path line old. old) \<lparr> audit_mode = AuditFull, destination = ToFile ''f'', format = FormatJson, ledger = Some 0 \<rparr>
         (demo_entry 1) \<lparr> ledgers = [0 \<mapsto> ledger_new], next_handle = 1, traced = [], file_bytes = (\<lambda>path. []) \<rparr>)) 0 = Some l \<and>
     map entry (entries l) = [demo_entry 1, demo_entry 2]"
proof -
  let ?p = "\<lparr> audit_mode = AuditFull, destination = ToFile ''f'', format = FormatJson, ledger = Some 0 \<rparr>"
  let ?p' = "audit_policy_default \<lparr> ledger := Some 0 \<rparr>"
  let ?w = "\<lparr> ledgers = [0 \<mapsto> ledger_new], next_handle = 1, traced = [], file_bytes = (\<lambda>path. []) \<rparr>"
  have "\<exists>l'. ledgers (fold (\<lambda>(p, e). emit demo_hashing (\<lambda>path line old. old) p e) [(?p, demo_entry 1), (?p', demo_entry 2)] ?w) 0 = Some l' \<and>
    map entry (entries l') = map entry (entries ledger_new) @ map snd [(?p, demo_entry 1), (?p', demo_entry 2)] \<and>
    verify_chain demo_hashing l' = Inr ()"
  proof (rule shared_ledger_complete)
    show "verify_chain demo_hashing ledger_new = Inr ()" "head_hash ledger_new = chain_head zero_digest (entries ledger_new)"
      by (simp_all add: ledger_new_def verify_chain_def head_hash_def)
  qed auto
  then obtain l where l: "ledgers (emit demo_hashing (\<lambda>path line old. old) ?p' (demo_entry 2)
      (emit demo_hashing (\<lambda>path line old. old) ?p (demo_entry 1) ?w)) 0 = Some l"
      "map entry (entries l) = map entry (entries ledger_new) @ [demo_entry 1, demo_entry 2]"
    unfolding fold.simps id_apply comp_def list.map snd_conv prod.case by (elim exE conjE) (rule that)
  have "map entry (entries l) = [demo_entry 1, demo_entry 2]" using l(2) by (simp only: ledger_new_def audit_ledger.simps list.map append_Nil)
  with l(1) show ?thesis by (intro exI [of _ l] conjI)
qed

end
