(* ===== verification/Active_Inference.thy ===== *)
theory Active_Inference
  imports Belief_Quad
begin

text \<open>
  The active-inference monitor (\<open>epica-active-inference/src\<close>): the variational free energy of a
  quad (\<open>free_energy.rs\<close>), the configuration (\<open>config.rs\<close>) and the monitor with its bounded history
  and reservoir (\<open>monitor.rs\<close>). All arithmetic is \<open>f64\<close>; \<open>f64::ln\<close> is the argument \<open>lg\<close>.
\<close>

section \<open>Free energy\<close>

definition EPS :: f64 where
  "EPS = f_lit F64 (1 / 1000000000)"

abbreviation fsub64 :: "f64 \<Rightarrow> f64 \<Rightarrow> f64" where "fsub64 \<equiv> fsub F64"
abbreviation fmul64 :: "f64 \<Rightarrow> f64 \<Rightarrow> f64" where "fmul64 \<equiv> fmul F64"
abbreviation fadd64 :: "f64 \<Rightarrow> f64 \<Rightarrow> f64" where "fadd64 \<equiv> fadd F64"
abbreviation fdiv64 :: "f64 \<Rightarrow> f64 \<Rightarrow> f64" where "fdiv64 \<equiv> fdiv F64"

definition guarded :: "f64 \<Rightarrow> f64" where
  "guarded p = fclamp p EPS (fsub64 (Fin 1) EPS)"

definition bernoulli_kl :: "(f64 \<Rightarrow> f64) \<Rightarrow> f64 \<Rightarrow> f64 \<Rightarrow> f64" where
  "bernoulli_kl lg p0 q0 =
     (let p = guarded p0; q = guarded q0
      in fadd64 (fmul64 p (lg (fdiv64 p q)))
                (fmul64 (fsub64 (Fin 1) p) (lg (fdiv64 (fsub64 (Fin 1) p) (fsub64 (Fin 1) q)))))"

definition expected_log_likelihood :: "(f64 \<Rightarrow> f64) \<Rightarrow> f64 \<Rightarrow> f64 \<Rightarrow> f64" where
  "expected_log_likelihood lg c_belief c_observation =
     (let c = guarded c_belief; obs = guarded c_observation
      in fadd64 (fmul64 c (lg obs)) (fmul64 (fsub64 (Fin 1) c) (lg (fsub64 (Fin 1) obs))))"

definition prior_noisy_or :: "f64 list \<Rightarrow> f64" where
  "prior_noisy_or confidences =
     (if confidences = [] then f_lit F64 (1 / 2)
      else fsub64 (Fin 1)
             (foldl (\<lambda>not_any c. fmul64 not_any (fsub64 (Fin 1) (fclamp c (Fin 0) (Fin 1)))) (Fin 1) confidences))"

text \<open>The premises of all supports in order, each once.\<close>

fun first_occurrences :: "'a list \<Rightarrow> 'a list \<Rightarrow> 'a list" where
  "first_occurrences seen [] = []"
| "first_occurrences seen (x # xs) =
     (if x \<in> set seen then first_occurrences seen xs else x # first_occurrences (seen @ [x]) xs)"

definition structural_prior ::
  "('s, 'a, 'b, 'c, 'd) lib \<Rightarrow> ('s, 'a, 'b, 'c, 'd, 'z) quad_scheme \<Rightarrow> belief_id \<Rightarrow> f64" where
  "structural_prior L q b =
     (let paths = inferred_from_premises (l_cau L) (causal q) b
      in if paths = [] then f_lit F64 (1 / 2)
         else prior_noisy_or
                (filter_map (\<lambda>p. map_option (\<lambda>n. f_cast F64 (fast_confidence n)) (quad_get L q p))
                   (first_occurrences [] (concat paths))))"

record free_energy_breakdown =
  kl_total :: f64
  log_likelihood_obs :: f64
  f_total :: f64
  fe_beliefs :: nat

definition quad_free_energy ::
  "('s, 'a, 'b, 'c, 'd) lib \<Rightarrow> (f64 \<Rightarrow> f64) \<Rightarrow> ('s, 'a, 'b, 'c, 'd, 'z) quad_scheme \<Rightarrow> belief_node \<Rightarrow>
     free_energy_breakdown" where
  "quad_free_energy L lg q last_obs =
     (let kl = foldl (\<lambda>acc (b, n). fadd64 acc (bernoulli_kl lg (f_cast F64 (fast_confidence n)) (structural_prior L q b)))
                 (Fin 0) (quad_iter L q);
          c_obs = f_cast F64 (fast_confidence last_obs);
          ll = expected_log_likelihood lg c_obs c_obs
      in \<lparr> kl_total = kl, log_likelihood_obs = ll, f_total = fsub64 kl ll, fe_beliefs = length (quad_iter L q) \<rparr>)"

section \<open>The monitor\<close>

record monitor_config =
  surprise_threshold :: f64
  homeostatic_budget :: f64
  history_capacity :: nat

definition monitor_config_default :: monitor_config where
  "monitor_config_default =
     \<lparr> surprise_threshold = Fin 3, homeostatic_budget = Fin 10, history_capacity = 256 \<rparr>"

definition sanitized_capacity :: "monitor_config \<Rightarrow> nat" where
  "sanitized_capacity cfg = max 16 (min 16384 (history_capacity cfg))"

record surprise_signal =
  free_energy :: f64
  rolling_mean :: f64
  rolling_std_of :: f64
  exceeds_budget :: bool
  budget_remaining_of :: f64
  n_beliefs :: nat

definition F64_EPSILON :: f64 where
  "F64_EPSILON = Fin (1 / 4503599627370496)"

definition is_spike :: "surprise_signal \<Rightarrow> f64 \<Rightarrow> bool" where
  "is_spike s threshold =
     (if fle (rolling_std_of s) F64_EPSILON then False
      else flt (fmul64 threshold (rolling_std_of s)) (fsub64 (free_energy s) (rolling_mean s)))"

record monitor =
  config :: monitor_config
  fe_history :: "f64 list"
  reservoir :: f64
  observations :: u64

definition monitor_with_config :: "monitor_config \<Rightarrow> monitor" where
  "monitor_with_config cfg =
     \<lparr> config = cfg, fe_history = [], reservoir = homeostatic_budget cfg, observations = 0 \<rparr>"

definition monitor_new :: monitor where
  "monitor_new = monitor_with_config monitor_config_default"

text \<open>\<open>f64\<close> sums start at zero.\<close>

definition mean_free_energy :: "monitor \<Rightarrow> f64" where
  "mean_free_energy m =
     (if fe_history m = [] then Fin 0
      else fdiv64 (f_sum F64 (fe_history m)) (f_of_nat F64 (length (fe_history m))))"

definition budget_remaining :: "monitor \<Rightarrow> f64" where
  "budget_remaining m = fmax (reservoir m) (Fin 0)"

definition rolling_std :: "f64 list \<Rightarrow> f64 \<Rightarrow> f64" where
  "rolling_std xs mean =
     (if length xs < 2 then Fin 0
      else
        (let n = f_of_nat F64 (length xs);
             var = fdiv64 (f_sum F64 (map (\<lambda>x. fmul64 (fsub64 x mean) (fsub64 x mean)) xs)) (fsub64 n (Fin 1))
         in fsqrt F64 var))"

definition observe ::
  "('s, 'a, 'b, 'c, 'd) lib \<Rightarrow> (f64 \<Rightarrow> f64) \<Rightarrow> monitor \<Rightarrow> ('s, 'a, 'b, 'c, 'd, 'z) quad_scheme \<Rightarrow> belief_node \<Rightarrow>
     surprise_signal \<times> monitor" where
  "observe L lg m q last_obs =
     (let fe = quad_free_energy L lg q last_obs;
          mean = mean_free_energy m;
          std = rolling_std (fe_history m) mean;
          m1 = m \<lparr> reservoir := fmin (fadd64 (fsub64 (reservoir m) (f_total fe)) (Fin 1)) (homeostatic_budget (config m)) \<rparr>;
          exceeds = flt (homeostatic_budget (config m)) (f_total fe);
          h = (if length (fe_history m) = sanitized_capacity (config m) then tl (fe_history m) else fe_history m);
          m2 = m1 \<lparr> fe_history := h @ [f_total fe], observations := observations m + 1 \<rparr>
      in (\<lparr> free_energy = f_total fe, rolling_mean = mean, rolling_std_of = std, exceeds_budget = exceeds,
            budget_remaining_of = budget_remaining m2, n_beliefs = fe_beliefs fe \<rparr>, m2))"

definition monitor_reset :: "monitor \<Rightarrow> monitor" where
  "monitor_reset m = m \<lparr> fe_history := [], reservoir := homeostatic_budget (config m), observations := 0 \<rparr>"

section \<open>Runs of the monitor\<close>

type_synonym ('s, 'a, 'b, 'c, 'd, 'z) observation = "('s, 'a, 'b, 'c, 'd, 'z) quad_scheme \<times> belief_node"

definition observe_all ::
  "('s, 'a, 'b, 'c, 'd) lib \<Rightarrow> (f64 \<Rightarrow> f64) \<Rightarrow> ('s, 'a, 'b, 'c, 'd, 'z) observation list \<Rightarrow> monitor \<Rightarrow> monitor" where
  "observe_all L lg obs m = fold (\<lambda>(q, n) m. snd (observe L lg m q n)) obs m"

definition totals ::
  "('s, 'a, 'b, 'c, 'd) lib \<Rightarrow> (f64 \<Rightarrow> f64) \<Rightarrow> ('s, 'a, 'b, 'c, 'd, 'z) observation list \<Rightarrow> f64 list" where
  "totals L lg obs = map (\<lambda>(q, n). f_total (quad_free_energy L lg q n)) obs"

lemma capacity_range: "16 \<le> sanitized_capacity cfg" "sanitized_capacity cfg \<le> 16384"
  by (simp_all add: sanitized_capacity_def)

lemma observe_effect:
  "config (snd (observe L lg m q n)) = config m"
  "observations (snd (observe L lg m q n)) = observations m + 1"
  "fe_history (snd (observe L lg m q n)) =
     (if length (fe_history m) = sanitized_capacity (config m) then tl (fe_history m) else fe_history m) @
     [f_total (quad_free_energy L lg q n)]"
  "reservoir (snd (observe L lg m q n)) =
     fmin (fadd64 (fsub64 (reservoir m) (f_total (quad_free_energy L lg q n))) (Fin 1)) (homeostatic_budget (config m))"
  "exceeds_budget (fst (observe L lg m q n)) \<longleftrightarrow> flt (homeostatic_budget (config m)) (f_total (quad_free_energy L lg q n))"
  "free_energy (fst (observe L lg m q n)) = f_total (quad_free_energy L lg q n)"
  "rolling_mean (fst (observe L lg m q n)) = mean_free_energy m"
  "rolling_std_of (fst (observe L lg m q n)) = rolling_std (fe_history m) (mean_free_energy m)"
  by (simp_all add: observe_def Let_def)

text \<open>The history is a sliding window over the totals.\<close>

lemma window_step:
  assumes "h = drop (length ts - k) ts" "0 < k"
  shows "(if length h = k then tl h else h) @ [t] = drop (length (ts @ [t]) - k) (ts @ [t])"
proof (cases "length ts < k")
  case True
  then show ?thesis using assms by simp
next
  case False
  then have "length h = k" using assms(1) by simp
  moreover have "tl h = drop (Suc (length ts - k)) ts" using assms(1) by (simp add: drop_Suc tl_drop)
  ultimately show ?thesis using False assms(2) by (simp add: Suc_diff_le)
qed

lemma window_run:
  assumes "fe_history m = drop (length ts - sanitized_capacity (config m)) ts"
  shows "config (observe_all L lg obs m) = config m \<and>
    observations (observe_all L lg obs m) = observations m + of_nat (length obs) \<and>
    fe_history (observe_all L lg obs m) =
      drop (length (ts @ totals L lg obs) - sanitized_capacity (config m)) (ts @ totals L lg obs)"
  using assms
proof (induction obs arbitrary: m ts)
  case Nil
  then show ?case by (simp add: observe_all_def totals_def)
next
  case (Cons x obs)
  obtain q n where x: "x = (q, n)" by (cases x)
  let ?m = "snd (observe L lg m q n)" and ?t = "f_total (quad_free_energy L lg q n)"
  have "0 < sanitized_capacity (config m)" using capacity_range(1) [of "config m"] by linarith
  then have "fe_history ?m = drop (length (ts @ [?t]) - sanitized_capacity (config ?m)) (ts @ [?t])"
    unfolding observe_effect by (rule window_step [OF Cons.prems])
  from Cons.IH [OF this] show ?case
    by (simp add: x observe_all_def totals_def observe_effect add.assoc)
qed

section \<open>A confidence that is not a number\<close>

lemma f_sum_NaN: "NaN \<in> set xs \<Longrightarrow> f_sum t xs = NaN"
proof -
  have n: "foldl (fadd t) NaN ys = NaN" for ys
    by (induction ys) simp_all
  have "NaN \<in> set ys \<Longrightarrow> foldl (fadd t) a ys = NaN" for a ys
  proof (induction ys arbitrary: a)
    case (Cons y ys)
    show ?case
    proof (cases "y = NaN")
      case True
      then show ?thesis by (cases a) (simp_all add: n)
    qed (use Cons in simp)
  qed simp
  then show "NaN \<in> set xs \<Longrightarrow> f_sum t xs = NaN" by (simp add: f_sum_def)
qed

lemma NaN_absorbs [simp]: "fadd t NaN x = NaN" "fadd t x NaN = NaN" "fsub t NaN x = NaN" "fsub t x NaN = NaN"
  "fmul t NaN x = NaN" "fmul t x NaN = NaN" "fdiv t NaN x = NaN" "flt NaN x = False" "flt x NaN = False"
  by (cases x; simp add: fsub_def)+

lemma nan_total: "fast_confidence n = NaN \<Longrightarrow> f_total (quad_free_energy L lg q n) = NaN"
  by (simp add: quad_free_energy_def Let_def expected_log_likelihood_def guarded_def)

lemma nan_window:
  assumes "NaN \<in> set (fe_history m)"
  shows "\<not> is_spike (fst (observe L lg m q n)) threshold"
proof -
  have "fe_history m \<noteq> []" using assms by auto
  then have "mean_free_energy m = NaN" using assms by (simp add: mean_free_energy_def f_sum_NaN)
  then show ?thesis by (simp add: is_spike_def observe_effect)
qed

section \<open>The free energy is finite\<close>

fun fbetween :: "rat \<Rightarrow> rat \<Rightarrow> fl \<Rightarrow> bool" where
  "fbetween lo hi (Fin x) \<longleftrightarrow> lo \<le> x \<and> x \<le> hi"
| "fbetween lo hi _ \<longleftrightarrow> False"

lemma fbetweenE: "fbetween lo hi x \<Longrightarrow> (\<And>r. x = Fin r \<Longrightarrow> lo \<le> r \<Longrightarrow> r \<le> hi \<Longrightarrow> P) \<Longrightarrow> P"
  by (cases x) auto

lemma fround_between:
  assumes "representable t lo" "representable t hi" "\<bar>lo\<bar> < 2 ^ fmax_exp t" "\<bar>hi\<bar> < 2 ^ fmax_exp t"
    "lo \<le> x" "x \<le> hi"
  shows "fbetween lo hi (fround t x)"
proof -
  have "lo \<le> round_rat t x" "round_rat t x \<le> hi"
    using round_rat_mono [OF assms(5), of t] round_rat_mono [OF assms(6), of t]
      round_rat_exact [OF assms(1)] round_rat_exact [OF assms(2)] by simp_all
  moreover from this have "\<bar>round_rat t x\<bar> < 2 ^ fmax_exp t" using assms(3,4) by linarith
  ultimately show ?thesis by (simp add: fround_def Let_def)
qed

lemma representable_neg_power: "k \<le> 200 \<Longrightarrow> \<bar>n\<bar> \<le> 2 ^ 53 \<Longrightarrow> representable F64 (of_int n / 2 ^ k)"
  unfolding representable_def
  by (rule exI [of _ n], rule exI [of _ "- int k"]) (simp add: pow2_powi power_int_minus divide_inverse)

lemma representable_whole: "\<bar>n\<bar> \<le> 2 ^ 53 \<Longrightarrow> representable F64 (of_int n)"
  using representable_int [of n F64] by simp

lemma small_f64: "\<bar>x\<bar> \<le> 2 ^ 53 \<Longrightarrow> \<bar>x :: rat\<bar> < 2 ^ fmax_exp F64"
  using power_strict_increasing [of 53 "fmax_exp F64" "2 :: rat"] by (simp del: power_strict_increasing_iff)

lemma fround_whole:
  "\<bar>x\<bar> \<le> of_int n \<Longrightarrow> n \<le> 2 ^ 53 \<Longrightarrow> fbetween (- of_int n) (of_int n) (fround F64 x)"
proof -
  assume a: "\<bar>x\<bar> \<le> of_int n" "n \<le> 2 ^ 53"
  then have n: "0 \<le> n" by (metis abs_ge_zero of_int_0_le_iff order_trans)
  have "\<bar>(of_int n :: rat)\<bar> \<le> of_int (2 ^ 53)" using a(2) n by (simp only: of_int_abs [symmetric] of_int_le_iff abs_of_nonneg)
  then have s: "\<bar>(of_int n :: rat)\<bar> < 2 ^ fmax_exp F64" "\<bar>(- of_int n :: rat)\<bar> < 2 ^ fmax_exp F64"
    using small_f64 [of "of_int n"] small_f64 [of "- of_int n"] by simp_all
  show ?thesis
    using fround_between [OF _ _ s(2) s(1), of x] representable_whole [of n] representable_whole [of "- n"] a n by simp
qed

lemma fadd_whole:
  assumes "fbetween (- of_int m) (of_int m) x" "fbetween (- of_int n) (of_int n) y" "m + n \<le> 2 ^ 53"
  shows "fbetween (- of_int (m + n)) (of_int (m + n)) (fadd64 x y)"
proof -
  obtain a b where "x = Fin a" "y = Fin b" "\<bar>a\<bar> \<le> of_int m" "\<bar>b\<bar> \<le> of_int n"
    using assms(1,2) by (metis abs_le_iff fbetweenE minus_le_iff)
  then show ?thesis using fround_whole [of "a + b" "m + n"] assms(3) abs_triangle_ineq [of a b] by simp
qed

lemma fneg_whole: "fbetween (- of_int m) (of_int m) x \<Longrightarrow> fbetween (- of_int m) (of_int m) (fneg x)"
  by (cases x) auto

lemma fmul_whole:
  assumes "fbetween 0 1 x" "fbetween (- of_int n) (of_int n) y" "n \<le> 2 ^ 53"
  shows "fbetween (- of_int n) (of_int n) (fmul64 x y)"
proof -
  obtain a b where e: "x = Fin a" "y = Fin b" "0 \<le> a" "a \<le> 1" "\<bar>b\<bar> \<le> of_int n"
    using assms(1,2) by (metis abs_le_iff fbetweenE minus_le_iff)
  have "\<bar>a * b\<bar> \<le> 1 * of_int n"
    unfolding abs_mult using e(3-5) by (intro mult_mono) simp_all
  then show ?thesis using fround_whole [of "a * b" n] assms(3) e(1,2) by simp
qed

text \<open>What is used of \<open>f64::ln\<close>: between \<open>2 ^ -30\<close> and \<open>2 ^ 30\<close> it is finite and below \<open>22\<close>.\<close>

locale natural_log =
  fixes lg :: "f64 \<Rightarrow> f64"
  assumes lg_range: "fbetween (1 / 2 ^ 30) (2 ^ 30) x \<Longrightarrow> fbetween (- 22) 22 (lg x)"

text \<open>An executable stand-in for concrete runs: the sign of the logarithm.\<close>

definition ref_ln :: "f64 \<Rightarrow> f64" where
  "ref_ln x = (case x of Fin r \<Rightarrow> if r < 1 then Fin (- 1) else if r = 1 then Fin 0 else Fin 1 | _ \<Rightarrow> NaN)"

interpretation ref_ln: natural_log ref_ln
  by unfold_locales (auto simp: ref_ln_def elim!: fbetweenE)

definition guard_lo :: rat where "guard_lo = 1 / 2 ^ 30"
definition guard_hi :: rat where "guard_hi = (2 ^ 30 - 1) / 2 ^ 30"

lemma guard_bounds:
  "representable F64 guard_lo" "representable F64 guard_hi" "representable F64 1" "representable F64 (2 ^ 30)"
  "0 < guard_lo" "guard_lo \<le> 1" "guard_hi = 1 - guard_lo" "guard_hi \<le> 1" "guard_lo \<le> guard_hi"
  using representable_neg_power [of 30 1] representable_neg_power [of 30 "2 ^ 30 - 1"]
    representable_whole [of 1] representable_whole [of "2 ^ 30"]
  by (simp_all add: guard_lo_def guard_hi_def)

lemma EPS_between: "fbetween guard_lo guard_hi EPS"
  unfolding EPS_def f_lit_def
  by (rule fround_between [OF guard_bounds(1,2)]) (simp_all add: guard_lo_def guard_hi_def small_f64)

lemma complement_between: "fbetween guard_lo guard_hi x \<Longrightarrow> fbetween guard_lo guard_hi (fsub64 (Fin 1) x)"
proof (elim fbetweenE)
  fix r assume "x = Fin r" "guard_lo \<le> r" "r \<le> guard_hi"
  then show ?thesis
    using fround_between [OF guard_bounds(1,2), of "1 - r"] guard_bounds(5-9) small_f64 [of guard_lo] small_f64 [of guard_hi]
    by (simp add: fsub_def)
qed

lemma guarded_between: "p \<noteq> NaN \<Longrightarrow> fbetween guard_lo guard_hi (guarded p)"
proof -
  assume p: "p \<noteq> NaN"
  obtain e h where e: "EPS = Fin e" "guard_lo \<le> e" "e \<le> guard_hi"
    and h: "fsub64 (Fin 1) EPS = Fin h" "guard_lo \<le> h" "h \<le> guard_hi"
    using EPS_between complement_between [OF EPS_between] by (metis fbetweenE)
  from p e(2,3) h(2,3) show ?thesis 
    unfolding guarded_def fclamp_def h(1) unfolding e(1) by (cases p) (auto simp: not_less)
qed

lemma quotient_between:
  assumes "fbetween guard_lo guard_hi x" "fbetween guard_lo guard_hi y"
  shows "fbetween (1 / 2 ^ 30) (2 ^ 30) (fdiv64 x y)"
proof -
  obtain a b where e: "x = Fin a" "y = Fin b" "guard_lo \<le> a" "a \<le> guard_hi" "guard_lo \<le> b" "b \<le> guard_hi"
    using assms by (metis fbetweenE)
  have b: "0 < b" "b \<le> 1" "a \<le> 1" "0 < a" using e guard_bounds by linarith+
  have "guard_lo * b \<le> a" using e(3) b by (meson guard_bounds(5) less_imp_le mult_left_le order_trans)
  then have lo: "guard_lo \<le> a / b" using b by (simp add: pos_le_divide_eq)
  have "1 \<le> 2 ^ 30 * b" using e(5) by (simp add: guard_lo_def field_simps)
  then have hi: "a / b \<le> 2 ^ 30" using b by (simp add: pos_divide_le_eq)
  have "fbetween guard_lo (2 ^ 30) (fround F64 (a / b))"
    by (rule fround_between [OF guard_bounds(1,4) _ _ lo hi]) (rule small_f64, use guard_bounds in simp)+
  then show ?thesis using e b by (simp add: guard_lo_def)
qed

lemma guard_unit: "fbetween guard_lo guard_hi x \<Longrightarrow> fbetween 0 1 x \<and> fbetween (1 / 2 ^ 30) (2 ^ 30) x"
  using guard_bounds by (elim fbetweenE) (auto simp: guard_lo_def)

context natural_log begin

lemma term_bound: "fbetween guard_lo guard_hi p \<Longrightarrow> fbetween (1 / 2 ^ 30) (2 ^ 30) x \<Longrightarrow> fbetween (- of_int 22) (of_int 22) (fmul64 p (lg x))"
  using lg_range guard_unit by (intro fmul_whole) auto

lemma kl_bound: "p \<noteq> NaN \<Longrightarrow> q \<noteq> NaN \<Longrightarrow> fbetween (- of_int 44) (of_int 44) (bernoulli_kl lg p q)"
  using fadd_whole [of 22 _ 22] term_bound quotient_between complement_between guarded_between
  by (simp add: bernoulli_kl_def Let_def)

lemma likelihood_bound: "p \<noteq> NaN \<Longrightarrow> q \<noteq> NaN \<Longrightarrow> fbetween (- of_int 44) (of_int 44) (expected_log_likelihood lg p q)"
  using fadd_whole [of 22 _ 22] term_bound complement_between guarded_between guard_unit
  by (simp add: expected_log_likelihood_def Let_def)

lemma kl_sum_bound:
  assumes "\<forall>(b, n) \<in> set xs. c n \<noteq> NaN \<and> pr b \<noteq> NaN" "fbetween (- of_int m) (of_int m) a"
    "m + 44 * int (length xs) \<le> 2 ^ 53"
  shows "fbetween (- of_int (m + 44 * int (length xs))) (of_int (m + 44 * int (length xs)))
     (foldl (\<lambda>acc (b, n). fadd64 acc (bernoulli_kl lg (c n) (pr b))) a xs)"
  using assms
proof (induction xs arbitrary: m a)
  case (Cons x xs)
  obtain b n where x: "x = (b, n)" by (cases x)
  have "fbetween (- of_int (m + 44)) (of_int (m + 44)) (fadd64 a (bernoulli_kl lg (c n) (pr b)))"
    using Cons.prems x by (intro fadd_whole kl_bound) auto
  from Cons.IH [OF _ this] show ?case using Cons.prems x by (simp add: algebra_simps)
qed simp

end

lemma cast_NaN: "f_cast t x = NaN \<longleftrightarrow> x = NaN"
  by (cases x) simp_all

lemma prior_number: "\<forall>c \<in> set cs. c \<noteq> NaN \<Longrightarrow> prior_noisy_or cs \<noteq> NaN"
proof -
  assume a: "\<forall>c \<in> set cs. c \<noteq> NaN"
  have "funit x \<Longrightarrow> \<forall>c \<in> set cs. c \<noteq> NaN \<Longrightarrow>
      funit (foldl (\<lambda>not_any c. fmul64 not_any (fsub64 (Fin 1) (fclamp c (Fin 0) (Fin 1)))) x cs)" for x
    by (induction cs arbitrary: x) (auto intro: fmul_unit fone_minus_unit fclamp_unit)
  from funit_not_NaN [OF fone_minus_unit [OF this [of "Fin 1"]]] a show ?thesis
    by (simp add: prior_noisy_or_def f_lit_def)
qed

context belief_lib begin

lemma structural_prior_number:
  assumes "quad_wf L q" "\<forall>(b, n) \<in> set (quad_iter L q). fast_confidence n \<noteq> NaN"
  shows "structural_prior L q b \<noteq> NaN"
proof -
  have "c \<noteq> NaN" if "c \<in> set (filter_map (\<lambda>p. map_option (\<lambda>n. f_cast F64 (fast_confidence n)) (quad_get L q p)) ps)" (is "c \<in> ?S") for c ps
  proof -
    obtain p n where "quad_get L q p = Some n" "c = f_cast F64 (fast_confidence n)"
      using \<open>c \<in> ?S\<close> by (auto simp: set_filter_map)
    then show ?thesis using assms by (auto simp: iter_mem [OF assms(1), symmetric] cast_NaN)
  qed
  then show ?thesis by (auto simp: structural_prior_def Let_def f_lit_def intro!: prior_number)
qed

lemma free_energy_bounded:
  assumes "natural_log lg" "quad_wf L q" "\<forall>(b, n) \<in> set (quad_iter L q). fast_confidence n \<noteq> NaN"
    "fast_confidence o' \<noteq> NaN" "length (quad_iter L q) < 2 ^ 40"
  shows "fbetween (- of_int (44 * int (length (quad_iter L q)) + 44)) (of_int (44 * int (length (quad_iter L q)) + 44))
    (f_total (quad_free_energy L lg q o'))"
proof -
  have n: "44 * int (length (quad_iter L q)) + 44 \<le> 2 ^ 53" using assms(5) by simp
  have "fbetween (- of_int (0 + 44 * int (length (quad_iter L q)))) (of_int (0 + 44 * int (length (quad_iter L q))))
      (foldl (\<lambda>acc (b, n). fadd64 acc (bernoulli_kl lg (f_cast F64 (fast_confidence n)) (structural_prior L q b)))
        (Fin 0) (quad_iter L q))"
    using assms structural_prior_number [OF assms(2,3)] n
    by (intro natural_log.kl_sum_bound [OF assms(1)]) (auto simp: cast_NaN)
  moreover have "fbetween (- of_int 44) (of_int 44)
      (fneg (expected_log_likelihood lg (f_cast F64 (fast_confidence o')) (f_cast F64 (fast_confidence o'))))"
    using assms(4) by (intro fneg_whole natural_log.likelihood_bound [OF assms(1)]) (simp_all add: cast_NaN)
  ultimately have "fbetween (- of_int (0 + 44 * int (length (quad_iter L q)) + 44)) (of_int (0 + 44 * int (length (quad_iter L q)) + 44))
      (f_total (quad_free_energy L lg q o'))"
    unfolding quad_free_energy_def Let_def free_energy_breakdown.select_convs fsub_def
    using n by (intro fadd_whole) simp_all
  then show ?thesis unfolding add_0 .
qed

end

section \<open>A run that exhausts the reservoir\<close>

definition small_budget :: monitor_config where
  "small_budget = monitor_config_default\<lparr>homeostatic_budget := Fin 2\<rparr>"

definition small_surprise :: belief_node where
  "small_surprise = demo_node ''o'' (1 / 2)"

text \<open>The guards as numerals, for evaluation.\<close>

lemma EPS_numeral [code]: "EPS = Fin (4835703278458517 / 4835703278458516698824704)"
  by code_simp

lemma guarded_numeral [code]:
  "guarded p = fclamp p (Fin (4835703278458517 / 4835703278458516698824704)) (Fin (9007199245733793 / 9007199254740992))"
proof -
  have "fsub64 (Fin 1) (Fin (4835703278458517 / 4835703278458516698824704)) = Fin (9007199245733793 / 9007199254740992)"
    by code_simp
  then show ?thesis by (simp only: guarded_def EPS_numeral)
qed

definition small_quad where
  "small_quad = snd (quad_insert ref_lib (quad_new ref_lib) (demo_node ''o'' (3 / 4)))"

lemma small_parts:
  "map (\<lambda>(b, n). (f_cast F64 (fast_confidence n), structural_prior ref_lib small_quad b)) (quad_iter ref_lib small_quad) =
     [(Fin (3 / 4), Fin (1 / 2))]"
  "f_cast F64 (fast_confidence small_surprise) = Fin (1 / 2)"
  by code_simp+

lemma small_terms: "bernoulli_kl ref_ln (Fin (3 / 4)) (Fin (1 / 2)) = Fin (1 / 2)"
  "expected_log_likelihood ref_ln (Fin (1 / 2)) (Fin (1 / 2)) = Fin (- 1)"
  "fsub64 (fadd64 (Fin 0) (Fin (1 / 2))) (Fin (- 1)) = Fin (3 / 2)"
  by code_simp+

lemma small_total: "f_total (quad_free_energy ref_lib ref_ln small_quad small_surprise) = Fin (3 / 2)"
proof -
  let ?c = "\<lambda>n. f_cast F64 (fast_confidence n)"
  have "foldl (\<lambda>acc (b, n). fadd64 acc (bernoulli_kl ref_ln (?c n) (structural_prior ref_lib small_quad b)))
      (Fin 0) (quad_iter ref_lib small_quad) =
    foldl (\<lambda>acc (c, pr). fadd64 acc (bernoulli_kl ref_ln c pr)) (Fin 0)
      (map (\<lambda>(b, n). (?c n, structural_prior ref_lib small_quad b)) (quad_iter ref_lib small_quad))"
    by (simp add: foldl_map split_def)
  then show ?thesis
    by (simp add: quad_free_energy_def Let_def small_parts small_terms del: fadd.simps)
qed

lemma small_run:
  "reservoir (observe_all ref_lib ref_ln (replicate 4 (small_quad, small_surprise)) (monitor_with_config small_budget)) = Fin 0"
proof -
  have 1: "fmin (fadd64 (fsub64 (Fin 2) (Fin (3 / 2))) (Fin 1)) (Fin 2) = Fin (3 / 2)"
    "fmin (fadd64 (fsub64 (Fin (3 / 2)) (Fin (3 / 2))) (Fin 1)) (Fin 2) = Fin 1"
    "fmin (fadd64 (fsub64 (Fin 1) (Fin (3 / 2))) (Fin 1)) (Fin 2) = Fin (1 / 2)"
    "fmin (fadd64 (fsub64 (Fin (1 / 2)) (Fin (3 / 2))) (Fin 1)) (Fin 2) = Fin 0"
    by code_simp+
  have 2: "homeostatic_budget small_budget = Fin 2" by (simp add: small_budget_def)
  show ?thesis
    by (simp add: observe_all_def observe_effect small_total monitor_with_config_def eval_nat_numeral 2 1 del: fadd.simps)
qed

section \<open>Properties\<close>

text \<open>
  C32. Whatever the structure of the quad, its free energy is a finite number, at most
  \<open>44\<close> nats per belief and for the observation, as soon as no confidence is NaN.
\<close>

theorem free_energy_finite:
  assumes "belief_lib L" "natural_log lg" "quad_wf L q"
    "\<forall>(b, n) \<in> set (quad_iter L q). fast_confidence n \<noteq> NaN" "fast_confidence n \<noteq> NaN"
    "length (quad_iter L q) < 2 ^ 40"
  shows "\<exists>x. f_total (quad_free_energy L lg q n) = Fin x \<and> \<bar>x\<bar> \<le> 44 * (of_nat (length (quad_iter L q)) + 1)"
  using belief_lib.free_energy_bounded [OF assms(1-6)]
  by (elim fbetweenE) (auto simp: abs_le_iff algebra_simps)

theorem free_energy_finite_witness:
  "\<exists>x. f_total (quad_free_energy ref_lib ref_ln demo_quad (demo_node ''o'' (1 / 2))) = Fin x \<and> \<bar>x\<bar> \<le> 44 * (4 + 1)"
proof -
  have l: "length (quad_iter ref_lib demo_quad) = 4" by code_simp
  have "list_all (\<lambda>(b, n). fast_confidence n \<noteq> NaN) (quad_iter ref_lib demo_quad)" by code_simp
  then have "\<forall>(b, n) \<in> set (quad_iter ref_lib demo_quad). fast_confidence n \<noteq> NaN" by (simp add: list_all_iff)
  moreover have "fast_confidence (demo_node ''o'' (1 / 2)) \<noteq> NaN" by code_simp
  ultimately show ?thesis
    using free_energy_finite [OF ref_belief_lib ref_ln.natural_log_axioms demo_wf(2), of "demo_node ''o'' (1 / 2)"] l
    by simp
qed

text \<open>
  A monitor holds the free energies of its last \<open>capacity\<close> observations, in order and nothing
  else, where the capacity lies between 16 and 16384 whatever was configured; it counts its
  observations and never changes its configuration.
\<close>

theorem monitor_window:
  "let m = observe_all L lg obs (monitor_with_config cfg); k = sanitized_capacity cfg
   in fe_history m = drop (length obs - k) (totals L lg obs) \<and> length (fe_history m) \<le> k \<and>
      16 \<le> k \<and> k \<le> 16384 \<and> observations m = of_nat (length obs) \<and> config m = cfg"
  using window_run [of "monitor_with_config cfg" "[]" L lg obs] capacity_range [of cfg]
  by (simp add: monitor_with_config_def Let_def totals_def)

text \<open>
  A NaN confidence passes the monitor unnoticed: the free energy of the observation is NaN, it
  is not reported as exceeding the budget, the reservoir is refilled to the full budget, and until
  it has left the window no observation is a spike, whatever the threshold.
\<close>

theorem nan_observation:
  assumes "fast_confidence n = NaN" "length (fe_history m) \<le> sanitized_capacity (config m)"
    "length obs + 1 < sanitized_capacity (config m)"
  shows "free_energy (fst (observe L lg m q n)) = NaN \<and> \<not> exceeds_budget (fst (observe L lg m q n)) \<and>
    reservoir (snd (observe L lg m q n)) = homeostatic_budget (config m) \<and>
    \<not> is_spike (fst (observe L lg (observe_all L lg obs (snd (observe L lg m q n))) q' n')) threshold"
proof -
  let ?m = "snd (observe L lg m q n)" and ?k = "sanitized_capacity (config m)"
  have h: "fe_history ?m = (if length (fe_history m) = ?k then tl (fe_history m) else fe_history m) @ [NaN]"
    by (simp add: observe_effect nan_total [OF assms(1)])
  have "length (fe_history ?m) \<le> ?k" using assms(2,3) by (auto simp: h)
  then have "fe_history (observe_all L lg obs ?m) =
      drop (length (fe_history ?m @ totals L lg obs) - ?k) (fe_history ?m @ totals L lg obs)"
    using window_run [of ?m "fe_history ?m" L lg obs] by (simp add: observe_effect)
  moreover have "NaN \<in> set (drop j (h' @ [NaN] @ ts))" if "j \<le> length h'" for j h' and ts :: "f64 list"
    using that by simp
  ultimately have "NaN \<in> set (fe_history (observe_all L lg obs ?m))"
    using assms(2,3) by (simp add: h totals_def)
  then show ?thesis using nan_window by (simp add: observe_effect nan_total [OF assms(1)] fmin_def)
qed

theorem nan_observation_witness:
  "let q = quad_new ref_lib; n = belief_node_new 0 ''k'' (Asserted ''v'') (UserStatement 0) NaN
   in free_energy (fst (observe ref_lib ref_ln monitor_new q n)) = NaN \<and>
      \<not> exceeds_budget (fst (observe ref_lib ref_ln monitor_new q n))"
proof -
  have "fast_confidence (belief_node_new 0 ''k'' (Asserted ''v'') (UserStatement 0) NaN) = NaN"
    by (simp add: belief_node_new_def)
  moreover have "length (fe_history monitor_new) \<le> sanitized_capacity (config monitor_new) \<and>
      length ([] :: (_, _, _, _, _, unit) observation list) + 1 < sanitized_capacity (config monitor_new)" by code_simp
  ultimately show ?thesis
    unfolding Let_def
    using nan_observation [where obs = "[]" and m = monitor_new and L = ref_lib and lg = ref_ln and q = "quad_new ref_lib" and
        q' = "quad_new ref_lib" and n' = small_surprise and threshold = "Fin 3" and
        n = "belief_node_new 0 ''k'' (Asserted ''v'') (UserStatement 0) NaN"]
    by blast
qed

text \<open>
  The reservoir is bookkeeping only: whether an observation is reported as off homeostasis
  depends on its own free energy, and a run of small surprises exhausts the reservoir
  without any report.
\<close>

theorem exhaustion_unreported:
  "exceeds_budget (fst (observe L lg (m\<lparr>reservoir := r\<rparr>) q n)) = exceeds_budget (fst (observe L lg m q n)) \<and>
   (let m' = observe_all ref_lib ref_ln (replicate 4 (small_quad, small_surprise)) (monitor_with_config small_budget)
    in budget_remaining m' = Fin 0 \<and> \<not> exceeds_budget (fst (observe ref_lib ref_ln m' small_quad small_surprise)))"
proof -
  have "config (observe_all ref_lib ref_ln (replicate 4 (small_quad, small_surprise)) (monitor_with_config small_budget)) = small_budget"
    using window_run [of "monitor_with_config small_budget" "[]" ref_lib ref_ln "replicate 4 (small_quad, small_surprise)"]
    by (simp add: monitor_with_config_def)
  then show ?thesis
    by (simp add: observe_effect Let_def budget_remaining_def small_run small_total fmax_def)
      (simp add: small_budget_def)
qed

end
