(* ===== verification/Contracts.thy ===== *)
theory Contracts
  imports Sovereignty
begin

text \<open>
  Behavioral contracts (\<open>epica-contracts/src\<close>): predicates over the quad, invariants with their
  violation classes, governance limits, recovery policies, the contract record with its checks, the
  drift bound and the construction of a contract from its TOML configuration. A \<open>dyn\<close> predicate is
  the record of its two methods; the fresh id of a violation is a function of its position.
\<close>

section \<open>Predicates\<close>

record 'q belief_predicate =
  evaluate :: "'q \<Rightarrow> bool"
  description :: string

definition belief_exists ::
  "('s, 'a, 'b, 'c, 'd) lib \<Rightarrow> string \<Rightarrow> ('s, 'a, 'b, 'c, 'd, 'z) quad_scheme belief_predicate" where
  "belief_exists L k =
     \<lparr> evaluate = (\<lambda>q. list_ex (\<lambda>(b, n). key n = k) (quad_iter L q)), description = k \<rparr>"

definition min_confidence_holds ::
  "('s, 'a, 'b, 'c, 'd) lib \<Rightarrow> string \<Rightarrow> f32 \<Rightarrow> ('s, 'a, 'b, 'c, 'd, 'z) quad_scheme \<Rightarrow> bool" where
  "min_confidence_holds L k threshold q =
     (case List.find (\<lambda>(b, n). key n = k) (quad_iter L q) of
        None \<Rightarrow> False
      | Some (b, n) \<Rightarrow> fle threshold (fast_confidence n))"

definition min_confidence ::
  "('s, 'a, 'b, 'c, 'd) lib \<Rightarrow> string \<Rightarrow> f32 \<Rightarrow> ('s, 'a, 'b, 'c, 'd, 'z) quad_scheme belief_predicate" where
  "min_confidence L k threshold = \<lparr> evaluate = min_confidence_holds L k threshold, description = k \<rparr>"

section \<open>Invariants, governance, recovery\<close>

record 'q session_invariant =
  predicate :: "'q belief_predicate"
  class_of :: violation_class
  max_intervention_gap_steps :: u32

record contract_violation =
  violation_id :: uuid
  invariant_description :: string
  violated_class :: violation_class
  at_version :: u64
  last_valid_checkpoint :: "uuid option"

datatype governance_audit_mode = GovFull | GovSelective | GovViolationsOnly

record governance_policies =
  max_tokens_per_session :: "u64 option"
  max_tool_calls_per_belief :: "u32 option"
  require_human_approval :: "string list"
  audit_trail :: governance_audit_mode

definition governance_default :: governance_policies where
  "governance_default =
     \<lparr> max_tokens_per_session = None, max_tool_calls_per_belief = None, require_human_approval = [],
       audit_trail = GovSelective \<rparr>"

datatype recovery_policy =
    RollbackToLastCheckpoint
  | RollbackToVersion u64
  | EmitCausalDiffAndHalt
  | DegradeAndContinue f32
  | RollbackToCheckpoint uuid

section \<open>Drift\<close>

record drift_bound =
  alpha :: f64
  gamma :: f64
  expected_drift :: f64
  gaussian_concentration :: f64

definition drift_bound_new :: "f64 \<Rightarrow> f64 \<Rightarrow> drift_bound" where
  "drift_bound_new a g =
     (let expected = (if flt (Fin 0) g then fdiv F64 a g else Inf False);
          clamped = fmax (fmin expected (Fin 1)) (Fin 0)
      in \<lparr> alpha = a, gamma = g, expected_drift = expected,
           gaussian_concentration = fsqrt F64 (fmul F64 clamped (fsub F64 (Fin 1) clamped)) \<rparr>)"

definition drift_satisfies :: "drift_bound \<Rightarrow> u32 \<Rightarrow> u32 \<Rightarrow> bool" where
  "drift_satisfies d delta k =
     (if k = 0 then True
      else fle (fmul F64 (expected_drift d) (f_of_nat F64 (unat k))) (f_of_nat F64 (unat delta)))"

section \<open>The contract\<close>

record 'q behavioral_contract =
  domain :: string
  preconditions :: "'q belief_predicate list"
  invariants :: "'q session_invariant list"
  governance :: governance_policies
  recovery :: recovery_policy
  probability :: f64
  max_violations :: u32
  window :: u32
  drift_rate :: f64
  enforcement_rate :: f64

definition contract_drift_bound :: "'q behavioral_contract \<Rightarrow> drift_bound" where
  "contract_drift_bound c = drift_bound_new (drift_rate c) (enforcement_rate c)"

definition check_preconditions :: "'q behavioral_contract \<Rightarrow> 'q \<Rightarrow> bool" where
  "check_preconditions c q = list_all (\<lambda>p. evaluate p q) (preconditions c)"

definition violation_of ::
  "uuid \<Rightarrow> ('s, 'a, 'b, 'c, 'd, 'z) quad_scheme \<Rightarrow> uuid option \<Rightarrow>
     ('s, 'a, 'b, 'c, 'd, 'z) quad_scheme session_invariant \<Rightarrow> contract_violation" where
  "violation_of u q cp i =
     \<lparr> violation_id = u, invariant_description = description (predicate i), violated_class = class_of i,
       at_version = version q, last_valid_checkpoint = cp \<rparr>"

fun first_severe ::
  "(nat \<Rightarrow> uuid) \<Rightarrow> ('s, 'a, 'b, 'c, 'd, 'z) quad_scheme \<Rightarrow> uuid option \<Rightarrow> nat \<Rightarrow>
     ('s, 'a, 'b, 'c, 'd, 'z) quad_scheme session_invariant list \<Rightarrow> contract_violation option" where
  "first_severe ids q cp k [] = None"
| "first_severe ids q cp k (i # invs) =
     (if \<not> evaluate (predicate i) q \<and> class_of i \<in> {Hard, Critical} then Some (violation_of (ids k) q cp i)
      else first_severe ids q cp (Suc k) invs)"

definition check_invariants ::
  "(nat \<Rightarrow> uuid) \<Rightarrow> ('s, 'a, 'b, 'c, 'd, 'z) quad_scheme behavioral_contract \<Rightarrow>
     ('s, 'a, 'b, 'c, 'd, 'z) quad_scheme \<Rightarrow> uuid option \<Rightarrow> contract_violation option" where
  "check_invariants ids c q cp = first_severe ids q cp 0 (invariants c)"

fun violations_from ::
  "(nat \<Rightarrow> uuid) \<Rightarrow> ('s, 'a, 'b, 'c, 'd, 'z) quad_scheme \<Rightarrow> uuid option \<Rightarrow> nat \<Rightarrow>
     ('s, 'a, 'b, 'c, 'd, 'z) quad_scheme session_invariant list \<Rightarrow> contract_violation list" where
  "violations_from ids q cp k [] = []"
| "violations_from ids q cp k (i # invs) =
     (if \<not> evaluate (predicate i) q then violation_of (ids k) q cp i # violations_from ids q cp (Suc k) invs
      else violations_from ids q cp (Suc k) invs)"

definition collect_all_violations ::
  "(nat \<Rightarrow> uuid) \<Rightarrow> ('s, 'a, 'b, 'c, 'd, 'z) quad_scheme behavioral_contract \<Rightarrow>
     ('s, 'a, 'b, 'c, 'd, 'z) quad_scheme \<Rightarrow> uuid option \<Rightarrow> contract_violation list" where
  "collect_all_violations ids c q cp = violations_from ids q cp 0 (invariants c)"

section \<open>Configuration\<close>

datatype precondition_config = MinConfidenceConfig string f32 | ExistsConfig string

record invariant_config =
  inv_key :: string
  inv_min_confidence :: f32
  severity :: string
  inv_gap :: u32

record contract_config =
  cfg_domain :: string
  cfg_alpha :: f64
  cfg_gamma :: f64
  cfg_p :: f64
  cfg_delta :: u32
  cfg_k :: u32
  cfg_preconditions :: "precondition_config list"
  cfg_invariants :: "invariant_config list"
  cfg_governance :: governance_policies

definition default_alpha :: f64 where "default_alpha = f_lit F64 (5 / 100)"
definition default_gamma :: f64 where "default_gamma = f_lit F64 (1 / 2)"
definition default_p :: f64 where "default_p = f_lit F64 (99 / 100)"
definition default_delta :: u32 where "default_delta = 1"
definition default_k :: u32 where "default_k = 100"
definition default_min_confidence :: f32 where "default_min_confidence = f_lit F32 (1 / 2)"
definition default_severity :: string where "default_severity = ''hard''"
definition default_gap :: u32 where "default_gap = 5"

definition precondition_of ::
  "('s, 'a, 'b, 'c, 'd) lib \<Rightarrow> precondition_config \<Rightarrow> ('s, 'a, 'b, 'c, 'd, 'z) quad_scheme belief_predicate" where
  "precondition_of L p =
     (case p of MinConfidenceConfig k m \<Rightarrow> min_confidence L k m | ExistsConfig k \<Rightarrow> belief_exists L k)"

definition severity_class :: "string \<Rightarrow> violation_class" where
  "severity_class s = (if s = ''soft'' then Soft else if s = ''critical'' then Critical else Hard)"

definition invariant_of ::
  "('s, 'a, 'b, 'c, 'd) lib \<Rightarrow> invariant_config \<Rightarrow> ('s, 'a, 'b, 'c, 'd, 'z) quad_scheme session_invariant" where
  "invariant_of L i =
     \<lparr> predicate = min_confidence L (inv_key i) (inv_min_confidence i), class_of = severity_class (severity i),
       max_intervention_gap_steps = inv_gap i \<rparr>"

definition from_config ::
  "('s, 'a, 'b, 'c, 'd) lib \<Rightarrow> contract_config \<Rightarrow> ('s, 'a, 'b, 'c, 'd, 'z) quad_scheme behavioral_contract" where
  "from_config L cfg =
     \<lparr> domain = cfg_domain cfg, preconditions = map (precondition_of L) (cfg_preconditions cfg),
       invariants = map (invariant_of L) (cfg_invariants cfg), governance = cfg_governance cfg,
       recovery = RollbackToLastCheckpoint, probability = cfg_p cfg, max_violations = cfg_delta cfg,
       window = cfg_k cfg, drift_rate = cfg_alpha cfg, enforcement_rate = cfg_gamma cfg \<rparr>"

section \<open>The two checks agree\<close>

text \<open>The first severe violation is the first one in the full list that is not soft.\<close>

lemma first_severe_find:
  "first_severe ids q cp k invs = List.find (\<lambda>v. violated_class v \<noteq> Soft) (violations_from ids q cp k invs)"
proof (induction invs arbitrary: k)
  case (Cons i invs)
  then show ?case by (cases "class_of i") (simp_all add: violation_of_def)
qed simp

lemma check_invariants_find:
  "check_invariants ids c q cp = List.find (\<lambda>v. violated_class v \<noteq> Soft) (collect_all_violations ids c q cp)"
  by (simp add: check_invariants_def collect_all_violations_def first_severe_find)

lemma violations_empty_iff:
  "violations_from ids q cp k invs = [] \<longleftrightarrow> (\<forall>i \<in> set invs. evaluate (predicate i) q)"
  by (induction invs arbitrary: k) auto

lemma violations_checkpoint: "v \<in> set (violations_from ids q cp k invs) \<Longrightarrow>
    last_valid_checkpoint v = cp \<and> at_version v = version q"
  by (induction invs arbitrary: k) (auto simp: violation_of_def split: if_splits)

end
