(* ===== verification/Runtime_State.thy ===== *)
theory Runtime_State
  imports Contracts
begin

text \<open>
  The bookkeeping of \<open>epica-runtime/src\<close>: the token bucket of System 2 (\<open>system2/token_bucket.rs\<close>),
  its client's data (\<open>system2/llm_client.rs\<close>), the governance tracker (\<open>governance_tracker.rs\<close>), the
  confidence history (\<open>history.rs\<close>), the session report (\<open>session.rs\<close>), the retrieval score
  (\<open>retrieval.rs\<close>) and the error types (\<open>error.rs\<close>). Clock readings are arguments; counters are
  sequential because every method holds its lock.
\<close>

section \<open>Errors and results\<close>

record diagnostic_signal =
  sig_key :: string
  sig_fast_confidence :: f32
  sig_baseline :: f32
  sig_divergence :: f32

record system2_result =
  revised_confidence :: f32
  reasoning :: string

datatype llm_client_error =
    LlmNetwork string
  | LlmClientFault string
  | LlmDeserialize string
  | LlmRateLimited

datatype update_result =
    System1Only
  | System2Activated diagnostic_signal system2_result
  | System2Pending diagnostic_signal
  | System2Throttled

datatype epica_error =
    RevisionFailed revision_error
  | RollbackFailed rollback_error
  | NotFound
  | CoreInvariantViolated string

text \<open>\<open>RecoveryFailed\<close> carries the data of the message that is built for it.\<close>

datatype recovery_failure = NoCheckpointAvailable | RollbackRefused rollback_error | NoCheckpointBefore u64

datatype runtime_error =
    Core epica_error
  | LlmError llm_client_error
  | RuntimeContractViolation string
  | PreconditionFailed string string
  | ContractHalt string string u64
  | RuntimeSovereignty string
  | GovernanceLimitExceeded string u64 u64
  | RecoveryFailed recovery_failure

section \<open>Token bucket\<close>

text \<open>\<open>elapsed\<close> is the time since the last refill, in seconds as \<open>as_secs_f32\<close> gives it.\<close>

record token_bucket =
  capacity :: u32
  available :: f32
  refill_rate :: f32

definition token_bucket_new :: "u32 \<Rightarrow> f32 \<Rightarrow> token_bucket" where
  "token_bucket_new cap rate =
     \<lparr> capacity = cap, available = f_of_nat F32 (unat cap), refill_rate = rate \<rparr>"

definition refill :: "f32 \<Rightarrow> token_bucket \<Rightarrow> token_bucket" where
  "refill elapsed b =
     (if fle (refill_rate b) (Fin 0) then b
      else b \<lparr> available := fmin (fadd F32 (available b) (fmul F32 elapsed (refill_rate b)))
                               (f_of_nat F32 (unat (capacity b))) \<rparr>)"

definition try_consume :: "f32 \<Rightarrow> u32 \<Rightarrow> token_bucket \<Rightarrow> bool \<times> token_bucket" where
  "try_consume elapsed tokens b =
     (let b' = refill elapsed b
      in if fle (f_of_nat F32 (unat tokens)) (available b')
         then (True, b' \<lparr> available := fsub F32 (available b') (f_of_nat F32 (unat tokens)) \<rparr>)
         else (False, b'))"

definition release_tokens :: "u32 \<Rightarrow> token_bucket \<Rightarrow> token_bucket" where
  "release_tokens tokens b =
     b \<lparr> available := fmin (fadd F32 (available b) (f_of_nat F32 (unat tokens))) (f_of_nat F32 (unat (capacity b))) \<rparr>"

definition available_tokens :: "token_bucket \<Rightarrow> nat" where
  "available_tokens b = f_to_nat_sat (2 ^ 32 - 1) (available b)"

section \<open>Governance tracker\<close>

record governance_tracker =
  tokens_used :: u64
  tool_calls :: "string \<rightharpoonup> u32"
  pending_approvals :: "string set"

definition governance_tracker_new :: governance_tracker where
  "governance_tracker_new = \<lparr> tokens_used = 0, tool_calls = Map.empty, pending_approvals = {} \<rparr>"

text \<open>\<open>fetch_add\<close> wraps; the usage reported in the error is \<open>prev + 1\<close> on a \<open>u64\<close>.\<close>

definition track_token_usage ::
  "u64 option \<Rightarrow> governance_tracker \<Rightarrow> (runtime_error + unit) \<times> governance_tracker" where
  "track_token_usage limit g =
     (let prev = tokens_used g; g' = g \<lparr> tokens_used := prev + 1 \<rparr>
      in case limit of
           None \<Rightarrow> (Inr (), g')
         | Some m \<Rightarrow>
             if m \<le> prev then (Inl (GovernanceLimitExceeded ''tokens_per_session'' m (prev + 1)), g')
             else (Inr (), g'))"

definition track_tool_call ::
  "string \<Rightarrow> u32 option \<Rightarrow> governance_tracker \<Rightarrow> (runtime_error + unit) \<times> governance_tracker" where
  "track_tool_call k limit g =
     (let count = (case tool_calls g k of None \<Rightarrow> 0 | Some n \<Rightarrow> n) + 1;
          g' = g \<lparr> tool_calls := (tool_calls g)(k \<mapsto> count) \<rparr>
      in case limit of
           None \<Rightarrow> (Inr (), g')
         | Some m \<Rightarrow>
             if m < count then (Inl (GovernanceLimitExceeded (''tool_calls_for:'' @ k) (ucast m) (ucast count)), g')
             else (Inr (), g'))"

definition requires_approval :: "string \<Rightarrow> string list \<Rightarrow> governance_tracker \<Rightarrow> bool \<times> governance_tracker" where
  "requires_approval k required g =
     (if \<not> list_ex (\<lambda>x. x = k) required then (False, g)
      else (True, g \<lparr> pending_approvals := insert k (pending_approvals g) \<rparr>))"

definition mark_approved :: "string \<Rightarrow> governance_tracker \<Rightarrow> governance_tracker" where
  "mark_approved k g = g \<lparr> pending_approvals := pending_approvals g - {k} \<rparr>"

section \<open>Confidence history\<close>

record confidence_record =
  rec_belief :: belief_id
  rec_confidence :: f32
  was_correct :: "bool option"
  rec_timestamp :: u64

type_synonym confidence_history = "confidence_record list"

definition history_push :: "u64 \<Rightarrow> belief_id \<Rightarrow> f32 \<Rightarrow> confidence_history \<Rightarrow> confidence_history" where
  "history_push now b c h = h @ [\<lparr> rec_belief = b, rec_confidence = c, was_correct = None, rec_timestamp = now \<rparr>]"

text \<open>\<open>iter_mut().rev().find(..)\<close>: the last record of the belief is changed.\<close>

fun update_first :: "('a \<Rightarrow> bool) \<Rightarrow> ('a \<Rightarrow> 'a) \<Rightarrow> 'a list \<Rightarrow> 'a list" where
  "update_first P f [] = []"
| "update_first P f (x # xs) = (if P x then f x # xs else x # update_first P f xs)"

definition update_last_of :: "belief_id \<Rightarrow> (confidence_record \<Rightarrow> confidence_record) \<Rightarrow> confidence_history \<Rightarrow> confidence_history" where
  "update_last_of b f h = rev (update_first (\<lambda>r. rec_belief r = b) f (rev h))"

definition mark_correct :: "belief_id \<Rightarrow> bool \<Rightarrow> confidence_history \<Rightarrow> confidence_history" where
  "mark_correct b correct h = update_last_of b (\<lambda>r. r \<lparr> was_correct := Some correct \<rparr>) h"

definition replace_last_confidence :: "belief_id \<Rightarrow> f32 \<Rightarrow> confidence_history \<Rightarrow> confidence_history" where
  "replace_last_confidence b c h = update_last_of b (\<lambda>r. r \<lparr> rec_confidence := c \<rparr>) h"

definition finalize_history :: "confidence_history \<Rightarrow> confidence_history" where
  "finalize_history h = map (\<lambda>r. if was_correct r = None then r \<lparr> was_correct := Some True \<rparr> else r) h"

definition as_tece_input :: "confidence_history \<Rightarrow> (f32 \<times> bool) list" where
  "as_tece_input h = filter_map (\<lambda>r. map_option (\<lambda>c. (rec_confidence r, c)) (was_correct r)) h"

section \<open>Session report and retrieval score\<close>

definition TECE_TARGET :: f32 where
  "TECE_TARGET = f_lit F32 (8 / 100)"

record session_report =
  rep_tece :: "f32 option"
  total_revisions :: nat
  contradictions_detected :: nat
  rep_activations :: u64
  rep_throttled :: u64
  calibration_target_met :: bool
  soft_violations :: nat
  hard_violations :: nat
  critical_violations :: nat
  recovery_actions :: nat
  rep_drift_bounds :: "drift_bound list"
  governance_tokens_used :: u64

definition compute_score :: "f32 \<Rightarrow> f32 \<Rightarrow> f32 \<Rightarrow> f32 \<Rightarrow> f32" where
  "compute_score prospective_sim fast causal_centrality decay =
     (let uncertainty_bonus = fsub F32 (Fin 1) fast; decay_penalty = fsub F32 (Fin 1) decay
      in fsub F32
           (fadd F32
             (fadd F32 (fmul F32 prospective_sim (f_lit F32 (45 / 100)))
                       (fmul F32 uncertainty_bonus (f_lit F32 (25 / 100))))
             (fmul F32 causal_centrality (f_lit F32 (20 / 100))))
           (fmul F32 decay_penalty (f_lit F32 (10 / 100))))"

end
