(* ===== verification/Contract_Engine.thy ===== *)
theory Contract_Engine
  imports Runtime_State Active_Inference
begin

text \<open>
  The contract engine (\<open>epica-runtime/src/contract_engine.rs\<close>): the checks before an update, the
  enforcement after it with its five recovery policies, and the violation log. What a run reads
  from outside is the argument \<open>E\<close>: the libraries, the order in which a hash set of keys is
  enumerated, the hash function and the file system under the audit trail, and \<open>f64::ln\<close>.
\<close>

section \<open>State\<close>

record ('s, 'a, 'b, 'c, 'd) environment =
  the_lib :: "('s, 'a, 'b, 'c, 'd) lib"
  key_order :: "string set \<Rightarrow> string list"
  hash_fns :: hashing
  append_line :: "string \<Rightarrow> u8 list \<Rightarrow> u8 list \<Rightarrow> u8 list"
  natural_ln :: "f64 \<Rightarrow> f64"

type_synonym ('s, 'a, 'b, 'c, 'd) contract = "('s, 'a, 'b, 'c, 'd) session_quad behavioral_contract"
type_synonym ('s, 'a, 'b, 'c, 'd) sovereignty = "('s, 'a, 'b, 'c, 'd) session_quad mnemonic_sovereignty"

record violation_log =
  soft_log :: "contract_violation list"
  hard_log :: "contract_violation list"
  critical_log :: "contract_violation list"
  recovery_actions_taken :: nat

definition violation_log_default :: violation_log where
  "violation_log_default = \<lparr> soft_log = [], hard_log = [], critical_log = [], recovery_actions_taken = 0 \<rparr>"

record recovery_outcome =
  out_violation :: contract_violation
  out_diff :: "belief_quad_diff option"
  recovery_applied :: recovery_policy
  verification :: recovery_verification

record ('s, 'a, 'b, 'c, 'd) contract_engine =
  contracts :: "('s, 'a, 'b, 'c, 'd) contract list"
  sovereignty :: "('s, 'a, 'b, 'c, 'd) sovereignty option"
  violation_log :: violation_log

definition contract_engine_new :: "('s, 'a, 'b, 'c, 'd) contract_engine" where
  "contract_engine_new = \<lparr> contracts = [], sovereignty = None, violation_log = violation_log_default \<rparr>"

section \<open>Before the update\<close>

definition pre_update ::
  "('s, 'a, 'b, 'c, 'd) contract_engine \<Rightarrow> ('s, 'a, 'b, 'c, 'd) session_quad \<Rightarrow> string \<Rightarrow> string \<Rightarrow>
     runtime_error + unit" where
  "pre_update g q k agent =
     (case (case sovereignty g of None \<Rightarrow> Inr () | Some sov \<Rightarrow> check_write_auth sov agent) of
        Inl e \<Rightarrow> Inl (RuntimeSovereignty (contract_error_text e))
      | Inr _ \<Rightarrow>
          (case List.find (\<lambda>c. \<not> check_preconditions c q) (contracts g) of
             Some c \<Rightarrow> Inl (PreconditionFailed (domain c) k)
           | None \<Rightarrow> Inr ()))"

section \<open>Recovery\<close>

type_synonym ('s, 'a, 'b, 'c, 'd) recovery_result =
  "(runtime_error + belief_quad_diff option \<times> recovery_policy) \<times> ('s, 'a, 'b, 'c, 'd) session_quad"

definition recover_to ::
  "('s, 'a, 'b, 'c, 'd) environment \<Rightarrow> ('s, 'a, 'b, 'c, 'd) session_quad \<Rightarrow> uuid \<Rightarrow> recovery_policy \<Rightarrow>
     ('s, 'a, 'b, 'c, 'd) recovery_result" where
  "recover_to E q u applied =
     (case rollback_to (the_lib E) (key_order E) q u of
        (Inl e, q') \<Rightarrow> (Inl (RecoveryFailed (RollbackRefused e)), q')
      | (Inr d, q') \<Rightarrow> (Inr (Some d, applied), q'))"

text \<open>\<open>max_by_key\<close> returns the last of several greatest elements.\<close>

definition max_by_version :: "('s, 'a, 'b, 'c, 'd) checkpoint list \<Rightarrow> ('s, 'a, 'b, 'c, 'd) checkpoint option" where
  "max_by_version cs =
     foldl (\<lambda>best c. case best of
        None \<Rightarrow> Some c
      | Some m \<Rightarrow> if cp_version m \<le> cp_version c then Some c else Some m) None cs"

definition degrade ::
  "('s, 'a, 'b, 'c, 'd) lib \<Rightarrow> f32 \<Rightarrow> ('s, 'a, 'b, 'c, 'd) session_quad \<Rightarrow> ('s, 'a, 'b, 'c, 'd) session_quad" where
  "degrade L lower q =
     fold (\<lambda>b q. quad_modify L q b
              (\<lambda>n. if flt (fast_confidence n) lower then n\<lparr>fast_confidence := lower\<rparr> else n))
       (map fst (quad_iter L q)) q"

text \<open>The causal diff of \<open>EmitCausalDiffAndHalt\<close> goes to the trace only.\<close>

definition execute_recovery ::
  "('s, 'a, 'b, 'c, 'd) environment \<Rightarrow> ('s, 'a, 'b, 'c, 'd) session_quad \<Rightarrow> contract_violation \<Rightarrow>
     recovery_policy \<Rightarrow> ('s, 'a, 'b, 'c, 'd) recovery_result" where
  "execute_recovery E q v policy =
     (case policy of
        RollbackToLastCheckpoint \<Rightarrow>
          (case last_valid_checkpoint v of
             None \<Rightarrow> (Inl (RecoveryFailed NoCheckpointAvailable), q)
           | Some u \<Rightarrow> recover_to E q u RollbackToLastCheckpoint)
      | RollbackToCheckpoint u \<Rightarrow> recover_to E q u (RollbackToCheckpoint u)
      | RollbackToVersion target \<Rightarrow>
          (case max_by_version (filter (\<lambda>c. cp_version c \<le> target) (checkpoints q)) of
             None \<Rightarrow> (Inl (RecoveryFailed (NoCheckpointBefore target)), q)
           | Some c \<Rightarrow> recover_to E q (cp_id c) (RollbackToVersion target))
      | DegradeAndContinue lower \<Rightarrow> (Inr (None, DegradeAndContinue lower), degrade (the_lib E) lower q)
      | EmitCausalDiffAndHalt \<Rightarrow>
          (Inl (ContractHalt ''EmitCausalDiffAndHalt'' (invariant_description v) (at_version v)), q))"

section \<open>After the update\<close>

type_synonym ('s, 'a, 'b, 'c, 'd) enforcement =
  "(runtime_error + recovery_outcome option) \<times> ('s, 'a, 'b, 'c, 'd) session_quad \<times> violation_log"

definition verification_of ::
  "('s, 'a, 'b, 'c, 'd) sovereignty option \<Rightarrow> ('s, 'a, 'b, 'c, 'd) session_quad \<Rightarrow> recovery_verification" where
  "verification_of sov q = (case sov of None \<Rightarrow> RecoveryVerified | Some s \<Rightarrow> verify_recovery s q)"

fun handle_violations ::
  "('s, 'a, 'b, 'c, 'd) environment \<Rightarrow> ('s, 'a, 'b, 'c, 'd) sovereignty option \<Rightarrow> ('s, 'a, 'b, 'c, 'd) contract \<Rightarrow>
     bool \<Rightarrow> recovery_outcome option \<Rightarrow> ('s, 'a, 'b, 'c, 'd) session_quad \<Rightarrow> violation_log \<Rightarrow>
     contract_violation list \<Rightarrow> ('s, 'a, 'b, 'c, 'd) enforcement" where
  "handle_violations E sov c saw_hard out q lg [] = (Inr out, q, lg)"
| "handle_violations E sov c saw_hard out q lg (v # vs) =
     (case violated_class v of
        Soft \<Rightarrow> handle_violations E sov c saw_hard out q (lg\<lparr>soft_log := soft_log lg @ [v]\<rparr>) vs
      | Hard \<Rightarrow>
          if \<not> saw_hard \<and> Option.is_none out then
            (case execute_recovery E q v (recovery c) of
               (Inl e, q') \<Rightarrow> (Inl e, q', lg)
             | (Inr (d, applied), q') \<Rightarrow>
                 handle_violations E sov c True
                   (Some \<lparr> out_violation = v, out_diff = d, recovery_applied = applied,
                           verification = verification_of sov q' \<rparr>)
                   q' (lg\<lparr>hard_log := hard_log lg @ [v],
                          recovery_actions_taken := recovery_actions_taken lg + 1\<rparr>) vs)
          else handle_violations E sov c saw_hard out q (lg\<lparr>hard_log := hard_log lg @ [v]\<rparr>) vs
      | Critical \<Rightarrow>
          (Inl (ContractHalt (domain c) (invariant_description v) (at_version v)), q,
           lg\<lparr>critical_log := critical_log lg @ [v]\<rparr>))"

text \<open>\<open>ids j k\<close> is the fresh id of the \<open>k\<close>-th violation of the \<open>j\<close>-th contract.\<close>

fun enforce ::
  "('s, 'a, 'b, 'c, 'd) environment \<Rightarrow> (nat \<Rightarrow> nat \<Rightarrow> uuid) \<Rightarrow> ('s, 'a, 'b, 'c, 'd) sovereignty option \<Rightarrow>
     uuid option \<Rightarrow> nat \<Rightarrow> recovery_outcome option \<Rightarrow> ('s, 'a, 'b, 'c, 'd) session_quad \<Rightarrow> violation_log \<Rightarrow>
     ('s, 'a, 'b, 'c, 'd) contract list \<Rightarrow> ('s, 'a, 'b, 'c, 'd) enforcement" where
  "enforce E ids sov cp j out q lg [] = (Inr out, q, lg)"
| "enforce E ids sov cp j out q lg (c # cs) =
     (case handle_violations E sov c False out q lg (collect_all_violations (ids j) c q cp) of
        (Inl e, q', lg') \<Rightarrow> (Inl e, q', lg')
      | (Inr out', q', lg') \<Rightarrow> enforce E ids sov cp (Suc j) out' q' lg' cs)"

definition update_audit ::
  "('s, 'a, 'b, 'c, 'd) environment \<Rightarrow> u64 \<Rightarrow> ('s, 'a, 'b, 'c, 'd) sovereignty option \<Rightarrow> string \<Rightarrow> string \<Rightarrow> bool \<Rightarrow>
     audit_store \<Rightarrow> audit_store" where
  "update_audit E now sov k agent recovered w =
     (case sov of
        None \<Rightarrow> w
      | Some s \<Rightarrow>
          emit_audit (hash_fns E) (append_line E) s
            (audit_entry_now now BeliefUpdate (Some k) (Some agent)
               (JObject [(''recovery_triggered'', JBool recovered)])) w)"

definition post_update ::
  "('s, 'a, 'b, 'c, 'd) environment \<Rightarrow> (nat \<Rightarrow> nat \<Rightarrow> uuid) \<Rightarrow> u64 \<Rightarrow> ('s, 'a, 'b, 'c, 'd) contract_engine \<Rightarrow>
     ('s, 'a, 'b, 'c, 'd) session_quad \<Rightarrow> uuid option \<Rightarrow> string \<Rightarrow> string \<Rightarrow> audit_store \<Rightarrow>
     (runtime_error + recovery_outcome option) \<times> ('s, 'a, 'b, 'c, 'd) session_quad \<times>
       ('s, 'a, 'b, 'c, 'd) contract_engine \<times> audit_store" where
  "post_update E ids now g q cp k agent w =
     (case enforce E ids (sovereignty g) cp 0 None q (violation_log g) (contracts g) of
        (Inl e, q', lg) \<Rightarrow> (Inl e, q', g\<lparr>violation_log := lg\<rparr>, w)
      | (Inr out, q', lg) \<Rightarrow>
          (Inr out, q', g\<lparr>violation_log := lg\<rparr>,
           update_audit E now (sovereignty g) k agent (\<not> Option.is_none out) w))"

definition violation_counts :: "('s, 'a, 'b, 'c, 'd) contract_engine \<Rightarrow> nat \<times> nat \<times> nat \<times> nat" where
  "violation_counts g =
     (let lg = violation_log g
      in (length (soft_log lg), length (hard_log lg), length (critical_log lg), recovery_actions_taken lg))"

definition drift_bounds :: "('s, 'a, 'b, 'c, 'd) contract_engine \<Rightarrow> drift_bound list" where
  "drift_bounds g = map contract_drift_bound (contracts g)"

section \<open>What one contract does\<close>

abbreviation halted :: "('s, 'a, 'b, 'c, 'd) contract \<Rightarrow> contract_violation \<Rightarrow> runtime_error" where
  "halted c v \<equiv> ContractHalt (domain c) (invariant_description v) (at_version v)"

definition log_soft_hard :: "contract_violation list \<Rightarrow> violation_log \<Rightarrow> violation_log" where
  "log_soft_hard vs lg =
     lg\<lparr>soft_log := soft_log lg @ filter (\<lambda>v. violated_class v = Soft) vs,
        hard_log := hard_log lg @ filter (\<lambda>v. violated_class v = Hard) vs\<rparr>"

lemma log_soft_hard_simps [simp]:
  "log_soft_hard [] lg = lg"
  "critical_log (log_soft_hard vs lg) = critical_log lg"
  "recovery_actions_taken (log_soft_hard vs lg) = recovery_actions_taken lg"
  "soft_log (log_soft_hard vs lg) = soft_log lg @ filter (\<lambda>v. violated_class v = Soft) vs"
  "hard_log (log_soft_hard vs lg) = hard_log lg @ filter (\<lambda>v. violated_class v = Hard) vs"
  by (simp_all add: log_soft_hard_def)

lemma log_soft_hard_Cons [simp]:
  "log_soft_hard (v # vs) lg = log_soft_hard vs
     (case violated_class v of Soft \<Rightarrow> lg\<lparr>soft_log := soft_log lg @ [v]\<rparr> | Hard \<Rightarrow> lg\<lparr>hard_log := hard_log lg @ [v]\<rparr> | Critical \<Rightarrow> lg)"
  by (cases "violated_class v") (simp_all add: log_soft_hard_def)

text \<open>Once a recovery has run, violations are logged and a critical one halts.\<close>

lemma handle_settled:
  assumes "saw_hard \<or> \<not> Option.is_none out"
  shows "handle_violations E sov c saw_hard out q lg vs =
    (let lg' = log_soft_hard (takeWhile (\<lambda>v. violated_class v \<noteq> Critical) vs) lg
     in case List.find (\<lambda>v. violated_class v = Critical) vs of
          None \<Rightarrow> (Inr out, q, lg')
        | Some v \<Rightarrow> (Inl (halted c v), q, lg'\<lparr>critical_log := critical_log lg' @ [v]\<rparr>))"
proof (induction vs arbitrary: lg)
  case (Cons v vs)
  then show ?case using assms
    by (cases "violated_class v") (auto simp: Let_def)
qed simp

text \<open>Before that, the first violation that is not soft decides.\<close>

lemma handle_fresh:
  "handle_violations E sov c False None q lg vs =
    (let lg' = log_soft_hard (takeWhile (\<lambda>v. violated_class v = Soft) vs) lg
     in case dropWhile (\<lambda>v. violated_class v = Soft) vs of
          [] \<Rightarrow> (Inr None, q, lg')
        | v # rest \<Rightarrow>
            if violated_class v = Critical then (Inl (halted c v), q, lg'\<lparr>critical_log := critical_log lg' @ [v]\<rparr>)
            else (case execute_recovery E q v (recovery c) of
               (Inl e, q') \<Rightarrow> (Inl e, q', lg')
             | (Inr (d, applied), q') \<Rightarrow>
                 handle_violations E sov c True
                   (Some \<lparr> out_violation = v, out_diff = d, recovery_applied = applied,
                           verification = verification_of sov q' \<rparr>)
                   q' (lg'\<lparr>hard_log := hard_log lg' @ [v],
                           recovery_actions_taken := recovery_actions_taken lg' + 1\<rparr>) rest))"
proof (induction vs arbitrary: lg)
  case (Cons v vs)
  then show ?case
    by (cases "violated_class v") (simp_all add: Let_def)
qed simp

lemma handle_keeps_outcome:
  assumes "handle_violations E sov c saw_hard (Some x) q lg vs = (Inr out, q', lg')"
  shows "out = Some x \<and> q' = q \<and> recovery_actions_taken lg' = recovery_actions_taken lg"
  using assms by (simp add: handle_settled Let_def split: option.splits) auto

definition severe :: "('s, 'a, 'b, 'c, 'd) contract \<Rightarrow> ('s, 'a, 'b, 'c, 'd) session_quad \<Rightarrow> bool" where
  "severe c q \<longleftrightarrow> list_ex (\<lambda>i. \<not> evaluate (predicate i) q \<and> class_of i \<noteq> Soft) (invariants c)"

lemma violations_soft:
  "(\<forall>v \<in> set (violations_from ids q cp k invs). violated_class v = Soft) \<longleftrightarrow>
     \<not> list_ex (\<lambda>i. \<not> evaluate (predicate i) q \<and> class_of i \<noteq> Soft) invs"
  by (induction invs arbitrary: k) (auto simp: violation_of_def)

lemma not_severe: "\<not> severe c q \<longleftrightarrow> dropWhile (\<lambda>v. violated_class v = Soft) (collect_all_violations ids c q cp) = []"
  unfolding severe_def violations_soft [symmetric, where ids = ids and cp = cp and k = 0] collect_all_violations_def
  by (simp add: dropWhile_eq_Nil_conv)

lemma severe_check: "severe c q \<longleftrightarrow> check_invariants ids c q cp \<noteq> None"
  unfolding check_invariants_find find_None_set severe_def
  using violations_soft [where ids = ids and cp = cp and k = 0 and q = q and invs = "invariants c"] by (auto simp: collect_all_violations_def)

lemma handle_soft:
  assumes "dropWhile (\<lambda>v. violated_class v = Soft) vs = []"
  shows "handle_violations E sov c False None q lg vs = (Inr None, q, log_soft_hard vs lg)"
proof -
  have "takeWhile (\<lambda>v. violated_class v = Soft) vs = vs"
    using assms by (metis append_Nil2 takeWhile_dropWhile_id)
  then show ?thesis by (simp only: handle_fresh Let_def assms list.case)
qed

lemma handle_clean:
  "\<not> severe c q \<Longrightarrow> handle_violations E sov c False None q lg (collect_all_violations ids c q cp) =
     (Inr None, q, log_soft_hard (collect_all_violations ids c q cp) lg)"
  using not_severe [where c = c and q = q and ids = ids and cp = cp] by (intro handle_soft) blast

lemma handle_None:
  assumes "dropWhile (\<lambda>v. violated_class v = Soft) vs = v # rest"
  shows "fst (handle_violations E sov c False None q lg vs) \<noteq> Inr None"
  using assms by (auto simp: handle_fresh handle_settled Let_def split: prod.split sum.split option.split)

lemma handle_not_clean:
  assumes "severe c q"
  shows "fst (handle_violations E sov c False None q lg (collect_all_violations ids c q cp)) \<noteq> Inr None"
  using assms not_severe [where c = c and q = q and ids = ids and cp = cp] handle_None
  by (cases "dropWhile (\<lambda>v. violated_class v = Soft) (collect_all_violations ids c q cp)") blast+

lemma handle_clean_state:
  assumes "handle_violations E sov c False None q lg vs = (Inr None, q', lg')"
  shows "q' = q \<and> recovery_actions_taken lg' = recovery_actions_taken lg"
proof (cases "dropWhile (\<lambda>v. violated_class v = Soft) vs")
  case Nil
  from handle_soft [OF this, of E sov c q lg] show ?thesis using assms by simp
next
  case (Cons v rest)
  from handle_None [OF this, of E sov c q lg] show ?thesis using assms by simp
qed

section \<open>All contracts\<close>

lemma enforce_keeps:
  assumes "enforce E ids sov cp j (Some x) q lg cs = (Inr out, q', lg')"
  shows "out = Some x \<and> q' = q \<and> recovery_actions_taken lg' = recovery_actions_taken lg"
  using assms
proof (induction cs arbitrary: j lg)
  case (Cons c cs)
  obtain r q1 lg1 where h: "handle_violations E sov c False (Some x) q lg (collect_all_violations (ids j) c q cp) = (r, q1, lg1)"
    by (metis prod.exhaust)
  with Cons.prems obtain out1 where r: "r = Inr out1" by (cases r) auto
  from handle_keeps_outcome [OF h [unfolded r]] Cons.IH [of "Suc j" lg1] Cons.prems h r show ?case by simp
qed simp

lemma enforce_clean:
  "enforce E ids sov cp j None q lg cs = (Inr None, q', lg') \<longleftrightarrow>
     (\<forall>c \<in> set cs. \<not> severe c q) \<and> q' = q \<and>
     lg' = fold (\<lambda>(j, c). log_soft_hard (collect_all_violations (ids j) c q cp)) (zip [j ..< j + length cs] cs) lg"
proof (induction cs arbitrary: j lg)
  case (Cons c cs)
  have z: "zip [j ..< j + length (c # cs)] (c # cs) = (j, c) # zip [Suc j ..< Suc j + length cs] cs"
    by (simp add: upt_rec)
  show ?case
  proof (cases "severe c q")
    case False
    then show ?thesis using Cons.IH [of "Suc j"] unfolding z by (simp add: handle_clean)
  next
    case True
    obtain r q1 lg1 where h: "handle_violations E sov c False None q lg (collect_all_violations (ids j) c q cp) = (r, q1, lg1)"
      by (metis prod.exhaust)
    have "r \<noteq> Inr None" using handle_not_clean [OF True, of E sov lg "ids j" cp] h by simp
    then have "enforce E ids sov cp j None q lg (c # cs) \<noteq> (Inr None, q', lg')"
      using enforce_keeps [of E ids sov cp "Suc j" _ q1 lg1 cs] h by (cases r) auto
    with True show ?thesis by simp
  qed
qed auto

section \<open>Recovery acts through the operations of the quad\<close>

abbreviation session_steps ::
  "('s, 'a, 'b, 'c, 'd) environment \<Rightarrow> ('s, 'a, 'b, 'c, 'd) session_quad \<Rightarrow> ('s, 'a, 'b, 'c, 'd) session_quad \<Rightarrow> bool" where
  "session_steps E \<equiv> (session_step (the_lib E) (key_order E))\<^sup>*\<^sup>*"

lemma recover_to_steps: "recover_to E q u p = (r, q') \<Longrightarrow> session_steps E q q'"
proof -
  assume a: "recover_to E q u p = (r, q')"
  have "q' = snd (rollback_to (the_lib E) (key_order E) q u)"
    using a by (auto simp: recover_to_def split: prod.splits sum.splits)
  then show ?thesis by (simp add: session_step.rollback r_into_rtranclp)
qed

lemma degrade_steps: "session_steps E q (degrade (the_lib E) lower q)"
  unfolding degrade_def
proof (rule fold_invariant [where I = "session_steps E q"])
  fix b and r :: "('a, 'b, 'c, 'd, 'e) session_quad" assume "session_steps E q r"
  then show "session_steps E q (quad_modify (the_lib E) r b
      (\<lambda>n. if flt (fast_confidence n) lower then n\<lparr>fast_confidence := lower\<rparr> else n))"
    by (rule rtranclp.rtrancl_into_rtrancl) (rule session_step.modify, simp)
qed simp

lemma execute_recovery_steps: "execute_recovery E q v p = (r, q') \<Longrightarrow> session_steps E q q'"
  using recover_to_steps degrade_steps
  by (auto simp: execute_recovery_def split: recovery_policy.splits option.splits)

lemma execute_recovery_applied: "execute_recovery E q v p = (Inr (d, a), q') \<Longrightarrow> a = p"
  by (auto simp: execute_recovery_def recover_to_def split: recovery_policy.splits option.splits prod.splits sum.splits)

lemma handle_steps:
  assumes "handle_violations E sov c saw_hard out q lg vs = (r, q', lg')"
  shows "session_steps E q q'"
  using assms
proof (induction vs arbitrary: saw_hard out q lg)
  case (Cons v vs)
  show ?case
  proof (cases "violated_class v = Hard \<and> \<not> saw_hard \<and> Option.is_none out")
    case True
    obtain x q1 where x: "execute_recovery E q v (recovery c) = (x, q1)" by fastforce
    from execute_recovery_steps [OF x] Cons.IH [of True _ q1] Cons.prems True x show ?thesis
      by (cases x) (auto simp: split_def intro: rtranclp_trans)
  next
    case False
    with Cons show ?thesis by (cases "violated_class v") auto
  qed
qed simp

lemma enforce_steps:
  assumes "enforce E ids sov cp j out q lg cs = (r, q', lg')"
  shows "session_steps E q q'"
  using assms
proof (induction cs arbitrary: j out q lg)
  case (Cons c cs)
  obtain x q1 lg1 where h: "handle_violations E sov c False out q lg (collect_all_violations (ids j) c q cp) = (x, q1, lg1)"
    by (metis prod.exhaust)
  from handle_steps [OF h] Cons.IH [of "Suc j" _ q1 lg1] Cons.prems h show ?case
    by (cases x) (auto intro: rtranclp_trans)
qed simp

lemma post_update_steps: "post_update E ids now g q cp k agent w = (r, q', g', w') \<Longrightarrow> session_steps E q q'"
  by (auto simp: post_update_def split: prod.splits sum.splits dest: enforce_steps)

section \<open>What stops an enforcement\<close>

definition broken ::
  "uuid option \<Rightarrow> ('s, 'a, 'b, 'c, 'd) session_quad \<Rightarrow> ('s, 'a, 'b, 'c, 'd) contract \<Rightarrow> contract_violation \<Rightarrow> bool" where
  "broken cp q c v \<longleftrightarrow> (\<exists>i \<in> set (invariants c). \<exists>u. \<not> evaluate (predicate i) q \<and> v = violation_of u q cp i)"

lemma collected_broken: "v \<in> set (collect_all_violations ids c q cp) \<Longrightarrow> broken cp q c v"
proof -
  have "v \<in> set (violations_from ids q cp k invs) \<Longrightarrow> \<exists>i \<in> set invs. \<exists>u. \<not> evaluate (predicate i) q \<and> v = violation_of u q cp i"
    for k invs by (induction invs arbitrary: k) (auto split: if_splits)
  then show "v \<in> set (collect_all_violations ids c q cp) \<Longrightarrow> broken cp q c v"
    by (simp add: broken_def collect_all_violations_def)
qed

text \<open>
  A broken critical invariant stops at once; a broken hard one stops when its recovery fails, and
  otherwise leaves the recovered quad, on which a critical invariant of a later contract, or one
  of its own contract broken before the recovery, may stop.
\<close>

definition stop_cause ::
  "('s, 'a, 'b, 'c, 'd) environment \<Rightarrow> uuid option \<Rightarrow> ('s, 'a, 'b, 'c, 'd) session_quad \<Rightarrow>
     ('s, 'a, 'b, 'c, 'd) contract list \<Rightarrow> runtime_error \<Rightarrow> ('s, 'a, 'b, 'c, 'd) session_quad \<Rightarrow> bool" where
  "stop_cause E cp q cs e q' \<longleftrightarrow> (\<exists>c \<in> set cs. \<exists>v. broken cp q c v \<and>
     (violated_class v = Critical \<and> e = halted c v \<and> q' = q \<or>
      violated_class v = Hard \<and> execute_recovery E q v (recovery c) = (Inl e, q) \<and> q' = q \<or>
      violated_class v = Hard \<and> (\<exists>out. execute_recovery E q v (recovery c) = (Inr out, q')) \<and>
        (\<exists>c' \<in> set cs. \<exists>v'. (broken cp q' c' v' \<or> c' = c \<and> broken cp q c v') \<and>
           violated_class v' = Critical \<and> e = halted c' v')))"

lemma execute_recovery_fails: "execute_recovery E q v p = (Inl e, q') \<Longrightarrow> q' = q"
  by (auto simp: execute_recovery_def recover_to_def rollback_to_def Let_def
      split: recovery_policy.splits option.splits if_splits)

lemma handle_settled_stops:
  assumes "handle_violations E sov c saw (Some x) q lg vs = (Inl e, q', lg')"
  shows "q' = q \<and> (\<exists>v \<in> set vs. violated_class v = Critical \<and> e = halted c v)"
proof (cases "List.find (\<lambda>v. violated_class v = Critical) vs")
  case None
  then show ?thesis using assms by (simp add: handle_settled Let_def)
next
  case (Some v)
  then show ?thesis using assms find_Some_set [OF Some] by (auto simp: handle_settled Let_def)
qed

lemma enforce_settled_stops:
  assumes "enforce E ids sov cp j (Some x) q lg cs = (Inl e, q', lg')"
  shows "q' = q \<and> (\<exists>c \<in> set cs. \<exists>v. broken cp q c v \<and> violated_class v = Critical \<and> e = halted c v)"
  using assms
proof (induction cs arbitrary: j lg)
  case (Cons c cs)
  obtain r q1 lg1 where h: "handle_violations E sov c False (Some x) q lg (collect_all_violations (ids j) c q cp) = (r, q1, lg1)"
    by (metis prod.exhaust)
  show ?case
  proof (cases r)
    case (Inl e1)
    then show ?thesis using handle_settled_stops [OF h [unfolded Inl]] collected_broken Cons.prems h by force
  next
    case (Inr out)
    then show ?thesis using handle_keeps_outcome [OF h [unfolded Inr]] Cons.IH [of "Suc j" lg1] Cons.prems h by auto
  qed
qed simp

lemma handle_fresh_stops:
  assumes "handle_violations E sov c False None q lg (collect_all_violations ids c q cp) = (Inl e, q', lg')"
  shows "stop_cause E cp q [c] e q'"
proof -
  let ?vs = "collect_all_violations ids c q cp" and ?soft = "\<lambda>v. violated_class v = Soft"
  obtain v rest where d: "dropWhile ?soft ?vs = v # rest"
    using assms handle_soft [of ?vs E sov c q lg] by (cases "dropWhile ?soft ?vs") simp_all
  have sub: "set (v # rest) \<subseteq> set ?vs" using set_dropWhileD unfolding d [symmetric] by fast
  have "\<not> ?soft v" using hd_dropWhile [of ?soft ?vs] d by simp
  then consider "violated_class v = Critical" | "violated_class v = Hard" by (cases "violated_class v") simp_all
  then show ?thesis
  proof cases
    case 1
    then have "e = halted c v" "q' = q" using assms unfolding handle_fresh Let_def d by auto
    moreover have "broken cp q c v" using collected_broken sub by auto
    ultimately show ?thesis using 1 by (auto simp: stop_cause_def)
  next
    case 2
    obtain y q1 where y: "execute_recovery E q v (recovery c) = (y, q1)" by fastforce
    have b: "broken cp q c w" if "w \<in> set (v # rest)" for w using that collected_broken sub by blast
    show ?thesis
    proof (cases y)
      case (Inl f)
      then have "f = e" "q1 = q'" using assms 2 unfolding handle_fresh Let_def d list.case y by simp_all
      then show ?thesis using execute_recovery_fails y Inl b [of v] 2 by (fastforce simp: stop_cause_def)
    next
      case (Inr out)
      then obtain x lg1 where "handle_violations E sov c True (Some x) q1 lg1 rest = (Inl e, q', lg')"
        using assms 2 unfolding handle_fresh Let_def d list.case y by (auto split: prod.splits)
      note s = handle_settled_stops [OF this]
      then obtain w where "w \<in> set rest" "violated_class w = Critical" "e = halted c w" by blast
      then have "broken cp q c w \<and> violated_class w = Critical \<and> e = halted c w" using b by simp
      then show ?thesis unfolding stop_cause_def using y Inr s b [of v] 2 by auto
    qed
  qed
qed

lemma stop_cause_mono: "stop_cause E cp q cs e q' \<Longrightarrow> set cs \<subseteq> set ds \<Longrightarrow> stop_cause E cp q ds e q'"
  unfolding stop_cause_def by blast

section \<open>A recovery\<close>

lemma handle_recovered:
  assumes "handle_violations E sov c False None q lg vs = (Inr (Some x), q', lg')"
  shows "out_violation x \<in> set vs \<and> violated_class (out_violation x) = Hard \<and>
    execute_recovery E q (out_violation x) (recovery c) = (Inr (out_diff x, recovery_applied x), q') \<and>
    verification x = verification_of sov q' \<and> recovery_actions_taken lg' = Suc (recovery_actions_taken lg)"
proof -
  let ?soft = "\<lambda>v. violated_class v = Soft"
  let ?lg = "log_soft_hard (takeWhile ?soft vs) lg"
  obtain v rest where d: "dropWhile ?soft vs = v # rest"
    using assms handle_soft [of vs E sov c q lg] by (cases "dropWhile ?soft vs") simp_all
  have v: "violated_class v \<noteq> Critical" using assms unfolding handle_fresh Let_def d by auto
  obtain y q1 where y: "execute_recovery E q v (recovery c) = (y, q1)" by fastforce
  obtain dd a where da: "y = Inr (dd, a)"
    using assms v unfolding handle_fresh Let_def d list.case y by (cases y) auto
  have "handle_violations E sov c True
      (Some \<lparr> out_violation = v, out_diff = dd, recovery_applied = a, verification = verification_of sov q1 \<rparr>) q1
      (?lg\<lparr>hard_log := hard_log ?lg @ [v], recovery_actions_taken := recovery_actions_taken ?lg + 1\<rparr>) rest =
    (Inr (Some x), q', lg')"
    using assms v unfolding handle_fresh Let_def d list.case y da by simp
  note k = handle_keeps_outcome [OF this]
  have "x = \<lparr> out_violation = v, out_diff = dd, recovery_applied = a, verification = verification_of sov q1 \<rparr>"
    "q' = q1" "recovery_actions_taken lg' = Suc (recovery_actions_taken lg)"
    using k by simp_all
  moreover have "v \<in> set vs" using d set_dropWhileD [of v ?soft vs] by simp
  moreover have "\<not> ?soft v" using d dropWhile_eq_Cons_conv [of ?soft vs v rest] by simp
  then have "violated_class v = Hard" using v by (cases "violated_class v") simp_all
  ultimately show ?thesis using y da by simp
qed

lemma enforce_stops:
  assumes "enforce E ids sov cp j None q lg cs = (Inl e, q', lg')"
  shows "stop_cause E cp q cs e q'"
  using assms
proof (induction cs arbitrary: j lg)
  case (Cons c cs)
  obtain r q1 lg1 where h: "handle_violations E sov c False None q lg (collect_all_violations (ids j) c q cp) = (r, q1, lg1)"
    by (metis prod.exhaust)
  consider e1 where "r = Inl e1" | "r = Inr None" | x where "r = Inr (Some x)" by (metis sum.exhaust option.exhaust)
  then show ?case
  proof cases
    case (1 e1)
    then have "stop_cause E cp q [c] e q'" using handle_fresh_stops [OF h [unfolded 1]] Cons.prems h by simp
    then show ?thesis by (rule stop_cause_mono) simp
  next
    case 2
    have "stop_cause E cp q cs e q'"
      using handle_clean_state [OF h [unfolded 2]] Cons.IH [of "Suc j" lg1] Cons.prems h 2 by simp
    then show ?thesis by (rule stop_cause_mono) auto
  next
    case (3 x)
    note rec = handle_recovered [OF h [unfolded 3]]
    have "enforce E ids sov cp (Suc j) (Some x) q1 lg1 cs = (Inl e, q', lg')" using Cons.prems h 3 by simp
    note late = enforce_settled_stops [OF this]
    have "broken cp q c (out_violation x)" using rec collected_broken by blast
    then show ?thesis unfolding stop_cause_def using rec late by auto
  qed
qed simp

lemma enforce_recovered:
  assumes "enforce E ids sov cp j None q lg cs = (Inr (Some x), q', lg')"
  shows "\<exists>c \<in> set cs. violated_class (out_violation x) = Hard \<and> last_valid_checkpoint (out_violation x) = cp \<and>
    execute_recovery E q (out_violation x) (recovery c) = (Inr (out_diff x, recovery c), q') \<and>
    recovery_applied x = recovery c \<and> verification x = verification_of sov q' \<and>
    recovery_actions_taken lg' = Suc (recovery_actions_taken lg)"
  using assms
proof (induction cs arbitrary: j lg)
  case (Cons c cs)
  obtain y q1 lg1 where h: "handle_violations E sov c False None q lg (collect_all_violations (ids j) c q cp) = (y, q1, lg1)"
    by (metis prod.exhaust)
  with Cons.prems obtain out where y: "y = Inr out" by (cases y) auto
  show ?case
  proof (cases out)
    case None
    from handle_clean_state [OF h [unfolded y None]] Cons.IH [of "Suc j" lg1] Cons.prems h y None
    show ?thesis by simp
  next
    case (Some z)
    from enforce_keeps [of E ids sov cp "Suc j" z q1 lg1 cs] Cons.prems h y Some
    have "z = x" "q' = q1" "recovery_actions_taken lg' = recovery_actions_taken lg1" by fastforce+
    with handle_recovered [OF h [unfolded y Some]] execute_recovery_applied show ?thesis
      by (auto simp: collect_all_violations_def dest: violations_checkpoint)
  qed
qed simp

lemma violations_class: "v \<in> set (violations_from ids q cp k invs) \<Longrightarrow> \<exists>i \<in> set invs. violated_class v = class_of i"
  by (induction invs arbitrary: k) (auto simp: violation_of_def split: if_splits)

text \<open>One contract that rolls back to the checkpoint taken before the update, and no critical invariant.\<close>

lemma rollback_contract:
  assumes "contracts g = [c]" "recovery c = RollbackToLastCheckpoint" "\<forall>i \<in> set (invariants c). class_of i \<noteq> Critical"
    "severe c q" "rollback_to (the_lib E) (key_order E) q u = (r, q')"
  shows "\<exists>g' w' y. post_update E ids now g q (Some u) k agent w = (y, q', g', w') \<and>
    (case r of Inl e \<Rightarrow> y = Inl (RecoveryFailed (RollbackRefused e)) | Inr d \<Rightarrow> (\<exists>x. y = Inr (Some x)))"
proof -
  let ?soft = "\<lambda>v. violated_class v = Soft" and ?vs = "collect_all_violations (ids 0) c q (Some u)"
  have nc: "violated_class v \<noteq> Critical" if "v \<in> set ?vs" for v
    using that assms(3) violations_class unfolding collect_all_violations_def by metis
  obtain v rest where d: "dropWhile ?soft ?vs = v # rest"
    using assms(4) not_severe [where c = c and q = q and ids = "ids 0" and cp = "Some u"]
    by (cases "dropWhile ?soft ?vs") auto
  have sub: "set (v # rest) \<subseteq> set ?vs" using d set_dropWhileD [of _ ?soft ?vs] by (metis subsetI)
  then have v: "violated_class v \<noteq> Critical" "\<And>x. x \<in> set rest \<Longrightarrow> violated_class x \<noteq> Critical" using nc by auto
  have "last_valid_checkpoint v = Some u"
    using sub violations_checkpoint unfolding collect_all_violations_def by (metis list.set_intros(1) subsetD)
  then have x: "execute_recovery E q v (recovery c) =
      (case r of Inl e \<Rightarrow> (Inl (RecoveryFailed (RollbackRefused e)), q') | Inr d \<Rightarrow> (Inr (Some d, RollbackToLastCheckpoint), q'))"
    using assms(2,5) by (simp add: execute_recovery_def recover_to_def)
  have n: "List.find (\<lambda>v. violated_class v = Critical) rest = None" using v(2) by (simp add: find_None_set)
  have e: "enforce E ids (sovereignty g) (Some u) 0 None q (violation_log g) (contracts g) =
    (case handle_violations E (sovereignty g) c False None q (violation_log g) ?vs of
        (Inl e, q', lg') \<Rightarrow> (Inl e, q', lg') | (Inr out', q', lg') \<Rightarrow> (Inr out', q', lg'))"
    by (simp add: assms(1) split: sum.split prod.split)
  show ?thesis
  proof (cases r)
    case (Inl e')
    then show ?thesis using x v(1) by (simp add: post_update_def e handle_fresh Let_def d)
  next
    case (Inr dd)
    then show ?thesis using x v(1) n by (simp add: post_update_def e handle_fresh handle_settled Let_def d)
  qed
qed

section \<open>Properties\<close>

text \<open>All violations of a quad without severe ones, contract after contract.\<close>

definition soft_violations ::
  "(nat \<Rightarrow> nat \<Rightarrow> uuid) \<Rightarrow> ('s, 'a, 'b, 'c, 'd) contract_engine \<Rightarrow> ('s, 'a, 'b, 'c, 'd) session_quad \<Rightarrow> uuid option \<Rightarrow>
     contract_violation list" where
  "soft_violations ids g q cp =
     concat (map (\<lambda>(j, c). collect_all_violations (ids j) c q cp) (zip [0 ..< length (contracts g)] (contracts g)))"

lemma log_only_soft:
  assumes "\<not> severe c q"
  shows "log_soft_hard (collect_all_violations ids c q cp) lg = lg\<lparr>soft_log := soft_log lg @ collect_all_violations ids c q cp\<rparr>"
proof -
  have "\<forall>v \<in> set (collect_all_violations ids c q cp). violated_class v = Soft"
    using assms unfolding collect_all_violations_def severe_def violations_soft .
  then have "filter (\<lambda>v. violated_class v = Soft) (collect_all_violations ids c q cp) = collect_all_violations ids c q cp"
    "filter (\<lambda>v. violated_class v = Hard) (collect_all_violations ids c q cp) = []"
    by (auto simp: filter_id_conv filter_empty_conv)
  then show ?thesis by (simp add: log_soft_hard_def)
qed

lemma log_all_soft:
  "(\<And>j c. (j, c) \<in> set xs \<Longrightarrow> \<not> severe c q) \<Longrightarrow>
   fold (\<lambda>(j, c). log_soft_hard (collect_all_violations (ids j) c q cp)) xs lg =
     lg\<lparr>soft_log := soft_log lg @ concat (map (\<lambda>(j, c). collect_all_violations (ids j) c q cp) xs)\<rparr>"
proof (induction xs arbitrary: lg)
  case (Cons x xs)
  obtain j c where x: "x = (j, c)" by fastforce
  have "\<not> severe c q" using Cons.prems [of j c] x by simp
  moreover have "\<And>j c. (j, c) \<in> set xs \<Longrightarrow> \<not> severe c q" using Cons.prems by (meson list.set_intros(2))
  note Cons.IH [OF this]
  ultimately show ?case by (simp add: x log_only_soft)
qed simp

lemma post_update_clean_state:
  "post_update E ids now g q cp k agent w = (Inr None, q', g', w') \<longleftrightarrow>
     (\<forall>c \<in> set (contracts g). \<not> severe c q) \<and> q' = q \<and>
     g' = g\<lparr>violation_log := (violation_log g)\<lparr>soft_log := soft_log (violation_log g) @ soft_violations ids g q cp\<rparr>\<rparr> \<and>
     w' = update_audit E now (sovereignty g) k agent False w"
proof -
  obtain r q1 lg1 where e: "enforce E ids (sovereignty g) cp 0 None q (violation_log g) (contracts g) = (r, q1, lg1)"
    by (metis prod.exhaust)
  let ?clean = "\<forall>c \<in> set (contracts g). \<not> severe c q"
  have l: "fold (\<lambda>(j, c). log_soft_hard (collect_all_violations (ids j) c q cp)) (zip [0 ..< length (contracts g)] (contracts g))
      (violation_log g) = (violation_log g)\<lparr>soft_log := soft_log (violation_log g) @ soft_violations ids g q cp\<rparr>" if ?clean
    unfolding soft_violations_def using that by (intro log_all_soft) (metis set_zip_rightD)
  have c: "r = Inr None \<longleftrightarrow> ?clean \<and> q1 = q \<and>
      lg1 = fold (\<lambda>(j, c). log_soft_hard (collect_all_violations (ids j) c q cp)) (zip [0 ..< length (contracts g)] (contracts g)) (violation_log g)"
    if "r = Inr None \<or> ?clean"
    using that enforce_clean [of E ids "sovereignty g" cp 0 q "violation_log g" "contracts g"] e by auto
  show ?thesis
  proof (cases "r = Inr None")
    case True
    then show ?thesis using c l e by (auto simp: post_update_def)
  next
    case False
    then have "\<not> ?clean" using e enforce_clean [of E ids "sovereignty g" cp 0 q "violation_log g" "contracts g"] by auto
    then show ?thesis using False e by (cases r) (auto simp: post_update_def)
  qed
qed

text \<open>
  C7. An update passes without recovery exactly when no contract reports a Hard or Critical
  violation of the quad; then the quad is untouched, the log gains the soft violations of all
  contracts in order and nothing else, and the one audit entry says that nothing was recovered.
\<close>

theorem post_update_clean:
  "post_update E ids now g q cp k agent w = (Inr None, q', g', w') \<longleftrightarrow>
     list_all (\<lambda>c. check_invariants u c q cp = None) (contracts g) \<and> q' = q \<and>
     g' = g\<lparr>violation_log := (violation_log g)\<lparr>soft_log := soft_log (violation_log g) @ soft_violations ids g q cp\<rparr>\<rparr> \<and>
     w' = update_audit E now (sovereignty g) k agent False w"
  unfolding post_update_clean_state list_all_iff using severe_check by blast

text \<open>
  A successful recovery is the policy of one of the contracts run once, on the quad the update
  left, for a Hard violation that names the checkpoint taken before the update; the quad that
  remains is what that policy produced, and the count of recovery actions grows by one.
\<close>

theorem recovery_runs_once:
  assumes "post_update E ids now g q cp k agent w = (Inr (Some x), q', g', w')"
  shows "\<exists>c \<in> set (contracts g). violated_class (out_violation x) = Hard \<and> last_valid_checkpoint (out_violation x) = cp \<and>
    execute_recovery E q (out_violation x) (recovery c) = (Inr (out_diff x, recovery c), q') \<and>
    recovery_applied x = recovery c \<and> verification x = verification_of (sovereignty g) q' \<and>
    recovery_actions_taken (violation_log g') = Suc (recovery_actions_taken (violation_log g))"
proof -
  obtain lg where "enforce E ids (sovereignty g) cp 0 None q (violation_log g) (contracts g) = (Inr (Some x), q', lg)"
    "g' = g\<lparr>violation_log := lg\<rparr>"
    using assms by (auto simp: post_update_def split: prod.splits sum.splits)
  then show ?thesis using enforce_recovered by fastforce
qed

definition demo_env where
  "demo_env = \<lparr> the_lib = ref_lib, key_order = sorted_list_of_set, hash_fns = demo_hashing,
     append_line = (\<lambda>path line old. old @ line), natural_ln = ref_ln \<rparr>"

definition min_contract where
  "min_contract p v k x =
     \<lparr> domain = ''demo'', preconditions = [],
       invariants = [\<lparr> predicate = min_confidence ref_lib k (Fin x), class_of = v, max_intervention_gap_steps = 5 \<rparr>],
       governance = governance_default, recovery = p, probability = default_p, max_violations = default_delta,
       window = default_k, drift_rate = default_alpha, enforcement_rate = default_gamma \<rparr>"

definition demo_engine where
  "demo_engine p v k x = contract_engine_new\<lparr> contracts := [min_contract p v k x] \<rparr>"

definition empty_store :: audit_store where
  "empty_store = \<lparr> ledgers = Map.empty, next_handle = 0, traced = [], file_bytes = (\<lambda>path. []) \<rparr>"

theorem recovery_runs_once_witness:
  "\<exists>x q' g' w'. post_update demo_env (\<lambda>j k. of_nat k) 0 (demo_engine (DegradeAndContinue (Fin (1 / 2))) Hard ''b'' (1 / 2))
      demo_session None ''b'' ''system'' empty_store = (Inr (Some x), q', g', w') \<and>
    recovery_applied x = DegradeAndContinue (Fin (1 / 2)) \<and> recovery_actions_taken (violation_log g') = 1"
proof -
  let ?g = "demo_engine (DegradeAndContinue (Fin (1 / 2))) Hard ''b'' (1 / 2)"
  let ?r = "post_update demo_env (\<lambda>j k. of_nat k) 0 ?g demo_session None ''b'' ''system'' empty_store"
  have "(case fst ?r of Inl e \<Rightarrow> False | Inr out \<Rightarrow> \<not> Option.is_none out)" by code_simp
  then obtain x q' g' w' where r: "?r = (Inr (Some x), q', g', w')"
    by (cases ?r; cases "fst ?r") (auto simp: Option.is_none_def)
  from recovery_runs_once [OF this] have "recovery_applied x = DegradeAndContinue (Fin (1 / 2)) \<and>
      recovery_actions_taken (violation_log g') = 1"
    by (simp add: demo_engine_def min_contract_def contract_engine_new_def violation_log_default_def)
  with r show ?thesis by blast
qed

text \<open>
  An audit entry is written exactly for the updates that pass: a halt on a Critical violation
  or a failed recovery leaves the audit trail as it was, although the quad may already have been
  rolled back.
\<close>

theorem halt_unaudited:
  "case post_update E ids now g q cp k agent w of
     (Inl e, q', g', w') \<Rightarrow> w' = w
   | (Inr out, q', g', w') \<Rightarrow> w' = update_audit E now (sovereignty g) k agent (out \<noteq> None) w"
  by (simp add: post_update_def Option.is_none_def split: prod.split sum.split)

end
