(* ===== verification/Runtime.thy ===== *)
theory Runtime
  imports Contract_Engine
begin

text \<open>
  \<open>BeliefRuntime\<close> (\<open>epica-runtime/src/runtime.rs\<close>): construction, insertion with its prospective
  index and monitor, the update with its phases, System 2 bookkeeping, session metrics, retrieval,
  checkpoints. Every phase of an operation that holds the lock of the quad is one function, so an
  operation is their composition and an interleaving of two operations a sequence of phases.
\<close>

section \<open>State\<close>

datatype embed_error = EmbedModel string | EmbedNetwork string
datatype prospective_client_error = ProspectiveNetwork string | ProspectiveDeserialize string | ProspectiveRateLimited

record raw_prospective_scenario =
  raw_scenario :: string
  raw_causal_events :: "causal_event list"

text \<open>
  The three services a runtime can be given, each the answers it gives. The value representation
  sent to the scenario client is a function of the value.
\<close>

type_synonym embedder = "string \<Rightarrow> embed_error + f32 list"
type_synonym scenario_client = "string \<Rightarrow> belief_value \<Rightarrow> prospective_client_error + raw_prospective_scenario list"
type_synonym llm = "diagnostic_signal \<Rightarrow> llm_client_error + system2_result"

text \<open>
  \<open>store\<close> is the audit trail the process writes to, which the code reaches through the handles of
  its policies. The monitor, behind a handle in the code, is held by value.
\<close>

record ('s, 'a, 'b, 'c, 'd) runtime =
  rt_quad :: "('s, 'a, 'b, 'c, 'd) session_quad"
  reliability_baseline :: f32
  reflection_budget :: token_bucket
  key_index :: "string \<rightharpoonup> belief_id"
  history :: confidence_history
  system2_activations :: u64
  system2_throttled :: u64
  engine :: "('s, 'a, 'b, 'c, 'd) contract_engine"
  tracker :: governance_tracker
  llm_client :: "llm option"
  active_inference :: "monitor option"
  default_threshold :: f32
  embedder :: "embedder option"
  prospective_client :: "scenario_client option"
  store :: audit_store

text \<open>
  What one call reads from the clock, the random generator and the iteration order of its hash
  sets and maps.
\<close>

record readings =
  cp_uuid :: uuid
  cp_time :: u64
  rev_uuid :: uuid
  rev_time :: u64
  prop_order :: "belief_id \<Rightarrow> belief_id set \<Rightarrow> belief_id list"
  prop_clock :: "belief_id \<Rightarrow> u64"
  viol_ids :: "nat \<Rightarrow> nat \<Rightarrow> uuid"
  audit_time :: u64
  hist_time :: u64

definition build_key_index ::
  "('s, 'a, 'b, 'c, 'd) lib \<Rightarrow> ('s, 'a, 'b, 'c, 'd, 'z) quad_scheme \<Rightarrow> string \<rightharpoonup> belief_id" where
  "build_key_index L q = fold (\<lambda>(b, n) m. m(key n \<mapsto> b)) (quad_iter L q) Map.empty"

definition runtime_new ::
  "('s, 'a, 'b, 'c, 'd) environment \<Rightarrow> audit_store \<Rightarrow> ('s, 'a, 'b, 'c, 'd) session_quad \<Rightarrow> f32 \<Rightarrow> u32 \<Rightarrow> f32 \<Rightarrow>
     ('s, 'a, 'b, 'c, 'd) runtime" where
  "runtime_new E w q baseline budget rate =
     \<lparr> rt_quad = q, reliability_baseline = baseline, reflection_budget = token_bucket_new budget rate,
       key_index = build_key_index (the_lib E) q, history = [], system2_activations = 0, system2_throttled = 0,
       engine = contract_engine_new, tracker = governance_tracker_new, llm_client = None, active_inference = None,
       default_threshold = DEFAULT_REFLECTION_THRESHOLD, embedder = None, prospective_client = None, store = w \<rparr>"

definition with_default_tau :: "f32 \<Rightarrow> ('s, 'a, 'b, 'c, 'd) runtime \<Rightarrow> ('s, 'a, 'b, 'c, 'd) runtime" where
  "with_default_tau tau rt = rt\<lparr>default_threshold := clamp01 tau\<rparr>"

definition set_llm_client :: "llm \<Rightarrow> ('s, 'a, 'b, 'c, 'd) runtime \<Rightarrow> ('s, 'a, 'b, 'c, 'd) runtime" where
  "set_llm_client c rt = rt\<lparr>llm_client := Some c\<rparr>"

definition clear_llm_client :: "('s, 'a, 'b, 'c, 'd) runtime \<Rightarrow> ('s, 'a, 'b, 'c, 'd) runtime" where
  "clear_llm_client rt = rt\<lparr>llm_client := None\<rparr>"

definition set_active_inference :: "monitor \<Rightarrow> ('s, 'a, 'b, 'c, 'd) runtime \<Rightarrow> ('s, 'a, 'b, 'c, 'd) runtime" where
  "set_active_inference m rt = rt\<lparr>active_inference := Some m\<rparr>"

definition clear_active_inference :: "('s, 'a, 'b, 'c, 'd) runtime \<Rightarrow> ('s, 'a, 'b, 'c, 'd) runtime" where
  "clear_active_inference rt = rt\<lparr>active_inference := None\<rparr>"

definition last_surprise :: "('s, 'a, 'b, 'c, 'd) runtime \<Rightarrow> f64 option" where
  "last_surprise rt =
     (case active_inference rt of
        None \<Rightarrow> None
      | Some m \<Rightarrow> if fe_history m = [] then None else Some (last (fe_history m)))"

definition with_contract :: "('s, 'a, 'b, 'c, 'd) contract \<Rightarrow> ('s, 'a, 'b, 'c, 'd) runtime \<Rightarrow> ('s, 'a, 'b, 'c, 'd) runtime" where
  "with_contract c rt = rt\<lparr>engine := (engine rt)\<lparr>contracts := contracts (engine rt) @ [c]\<rparr>\<rparr>"

definition with_sovereignty :: "('s, 'a, 'b, 'c, 'd) sovereignty \<Rightarrow> ('s, 'a, 'b, 'c, 'd) runtime \<Rightarrow> ('s, 'a, 'b, 'c, 'd) runtime" where
  "with_sovereignty sov rt = rt\<lparr>engine := (engine rt)\<lparr>sovereignty := Some sov\<rparr>\<rparr>"

definition with_embedder :: "embedder \<Rightarrow> ('s, 'a, 'b, 'c, 'd) runtime \<Rightarrow> ('s, 'a, 'b, 'c, 'd) runtime" where
  "with_embedder e rt = rt\<lparr>embedder := Some e\<rparr>"

definition with_prospective_client :: "scenario_client \<Rightarrow> ('s, 'a, 'b, 'c, 'd) runtime \<Rightarrow> ('s, 'a, 'b, 'c, 'd) runtime" where
  "with_prospective_client c rt = rt\<lparr>prospective_client := Some c\<rparr>"

section \<open>Insertion\<close>

definition key_of ::
  "('s, 'a, 'b, 'c, 'd) environment \<Rightarrow> ('s, 'a, 'b, 'c, 'd) runtime \<Rightarrow> belief_id \<Rightarrow> string" where
  "key_of E rt b = (case quad_get (the_lib E) (rt_quad rt) b of None \<Rightarrow> '''' | Some n \<Rightarrow> key n)"

definition embed_scenario :: "embedder \<Rightarrow> raw_prospective_scenario \<Rightarrow> prospective_entry" where
  "embed_scenario e s =
     \<lparr> scenario = raw_scenario s, embedding = (case e (raw_scenario s) of Inl _ \<Rightarrow> [] | Inr v \<Rightarrow> v),
       causal_events = raw_causal_events s \<rparr>"

definition index_belief_prospective ::
  "('s, 'a, 'b, 'c, 'd) environment \<Rightarrow> belief_id \<Rightarrow> belief_value \<Rightarrow> ('s, 'a, 'b, 'c, 'd) runtime \<Rightarrow>
     ('s, 'a, 'b, 'c, 'd) runtime" where
  "index_belief_prospective E b v rt =
     (case (prospective_client rt, embedder rt) of
        (Some client, Some e) \<Rightarrow>
          (case client (key_of E rt b) v of
             Inl _ \<Rightarrow> rt
           | Inr raw \<Rightarrow>
               rt\<lparr>rt_quad := (rt_quad rt)\<lparr>prospective_index :=
                    pi_insert (prospective_index (rt_quad rt)) b (map (embed_scenario e) raw)\<rparr>\<rparr>)
      | _ \<Rightarrow> rt)"

definition observe_active_inference ::
  "('s, 'a, 'b, 'c, 'd) environment \<Rightarrow> belief_id \<Rightarrow> ('s, 'a, 'b, 'c, 'd) runtime \<Rightarrow> ('s, 'a, 'b, 'c, 'd) runtime" where
  "observe_active_inference E b rt =
     (case active_inference rt of
        None \<Rightarrow> rt
      | Some m \<Rightarrow>
          (case quad_get (the_lib E) (rt_quad rt) b of
             None \<Rightarrow> rt
           | Some n \<Rightarrow> rt\<lparr>active_inference := Some (snd (observe (the_lib E) (natural_ln E) m (rt_quad rt) n))\<rparr>))"

definition insert_belief ::
  "('s, 'a, 'b, 'c, 'd) environment \<Rightarrow> belief_node \<Rightarrow> ('s, 'a, 'b, 'c, 'd) runtime \<Rightarrow>
     belief_id \<times> ('s, 'a, 'b, 'c, 'd) runtime" where
  "insert_belief E n rt =
     (case quad_insert (the_lib E) (rt_quad rt) n of
        (b, q) \<Rightarrow>
          let rt1 = rt\<lparr>rt_quad := q, key_index := (key_index rt)(key n \<mapsto> b)\<rparr>;
              rt2 = (if prospect n then index_belief_prospective E b (value n) rt1 else rt1)
          in (b, observe_active_inference E b rt2))"

definition get_by_key :: "('s, 'a, 'b, 'c, 'd) runtime \<Rightarrow> string \<Rightarrow> belief_id option" where
  "get_by_key rt k = key_index rt k"

section \<open>Update\<close>

definition token_limit :: "('s, 'a, 'b, 'c, 'd) runtime \<Rightarrow> u64 option" where
  "token_limit rt =
     (case contracts (engine rt) of [] \<Rightarrow> None | c # _ \<Rightarrow> max_tokens_per_session (governance c))"

definition token_phase ::
  "('s, 'a, 'b, 'c, 'd) runtime \<Rightarrow> (runtime_error + unit) \<times> ('s, 'a, 'b, 'c, 'd) runtime" where
  "token_phase rt =
     (case track_token_usage (token_limit rt) (tracker rt) of (r, t) \<Rightarrow> (r, rt\<lparr>tracker := t\<rparr>))"

definition checkpoint_phase ::
  "readings \<Rightarrow> ('s, 'a, 'b, 'c, 'd) runtime \<Rightarrow> uuid \<times> ('s, 'a, 'b, 'c, 'd) runtime" where
  "checkpoint_phase rd rt =
     (case take_checkpoint (cp_uuid rd) (cp_time rd) (rt_quad rt) of (u, q) \<Rightarrow> (u, rt\<lparr>rt_quad := q\<rparr>))"

text \<open>Propagation never runs out of fuel.\<close>

definition revise_phase ::
  "('s, 'a, 'b, 'c, 'd) environment \<Rightarrow> readings \<Rightarrow> belief_id \<Rightarrow> belief_value \<Rightarrow> provenance \<Rightarrow> f32 \<Rightarrow>
     ('s, 'a, 'b, 'c, 'd) runtime \<Rightarrow> (runtime_error + f32 \<times> bool) \<times> ('s, 'a, 'b, 'c, 'd) runtime" where
  "revise_phase E rd b v p c rt =
     (case revise (the_lib E) (rev_uuid rd) (rev_time rd) (rt_quad rt) b v p c of
        (Inl e, q) \<Rightarrow> (Inl (Core (RevisionFailed e)), rt\<lparr>rt_quad := q\<rparr>)
      | (Inr rec, q) \<Rightarrow>
          let q' = (case propagate_system1 (the_lib E) (prop_order rd) (prop_clock rd) q b of None \<Rightarrow> q | Some q' \<Rightarrow> q')
          in (Inr (case quad_get (the_lib E) q' b of None \<Rightarrow> c | Some n \<Rightarrow> fast_confidence n, contracted rec \<noteq> {}),
              rt\<lparr>rt_quad := q'\<rparr>))"

definition enforce_phase ::
  "('s, 'a, 'b, 'c, 'd) environment \<Rightarrow> readings \<Rightarrow> uuid \<Rightarrow> string \<Rightarrow> ('s, 'a, 'b, 'c, 'd) runtime \<Rightarrow>
     (runtime_error + recovery_outcome option) \<times> ('s, 'a, 'b, 'c, 'd) runtime" where
  "enforce_phase E rd u k rt =
     (case post_update E (viol_ids rd) (audit_time rd) (engine rt) (rt_quad rt) (Some u) k ''system'' (store rt) of
        (r, q, g, w) \<Rightarrow> (r, rt\<lparr>rt_quad := q, engine := g, store := w\<rparr>))"

definition finish_phase ::
  "('s, 'a, 'b, 'c, 'd) environment \<Rightarrow> readings \<Rightarrow> belief_id \<Rightarrow> f32 \<Rightarrow> bool \<Rightarrow> ('s, 'a, 'b, 'c, 'd) runtime \<Rightarrow>
     update_result \<times> ('s, 'a, 'b, 'c, 'd) runtime" where
  "finish_phase E rd b fast contradicted rt =
     (let h = (if contradicted then mark_correct b False (history rt) else history rt);
          tau = (case quad_get (the_lib E) (rt_quad rt) b of None \<Rightarrow> default_threshold rt | Some n \<Rightarrow> reflection_threshold n);
          rt' = rt\<lparr>history := history_push (hist_time rd) b fast h\<rparr>
      in if should_activate_system2 fast (reliability_baseline rt) tau \<and> \<not> Option.is_none (llm_client rt)
         then (System2Pending \<lparr> sig_key = key_of E rt b, sig_fast_confidence = fast,
                 sig_baseline = reliability_baseline rt, sig_divergence = fabs (fsub F32 fast (reliability_baseline rt)) \<rparr>, rt')
         else (System1Only, rt'))"

definition update_belief ::
  "('s, 'a, 'b, 'c, 'd) environment \<Rightarrow> readings \<Rightarrow> belief_id \<Rightarrow> belief_value \<Rightarrow> provenance \<Rightarrow> f32 \<Rightarrow>
     ('s, 'a, 'b, 'c, 'd) runtime \<Rightarrow> (runtime_error + update_result) \<times> ('s, 'a, 'b, 'c, 'd) runtime" where
  "update_belief E rd b v p c rt =
     (let k = key_of E rt b
      in case pre_update (engine rt) (rt_quad rt) k ''system'' of
           Inl e \<Rightarrow> (Inl e, rt)
         | Inr _ \<Rightarrow>
             (case token_phase rt of
                (Inl e, rt1) \<Rightarrow> (Inl e, rt1)
              | (Inr _, rt1) \<Rightarrow>
                  (case checkpoint_phase rd rt1 of
                     (u, rt2) \<Rightarrow>
                       (case revise_phase E rd b v p c rt2 of
                          (Inl e, rt3) \<Rightarrow> (Inl e, rt3)
                        | (Inr (fast, contradicted), rt3) \<Rightarrow>
                            (case enforce_phase E rd u k rt3 of
                               (Inl e, rt4) \<Rightarrow> (Inl e, rt4)
                             | (Inr _, rt4) \<Rightarrow>
                                 (case finish_phase E rd b fast contradicted rt4 of
                                    (r, rt5) \<Rightarrow> (Inr r, rt5)))))))"

section \<open>System 2\<close>

definition apply_system2_result ::
  "('s, 'a, 'b, 'c, 'd) environment \<Rightarrow> belief_id \<Rightarrow> f32 \<Rightarrow> ('s, 'a, 'b, 'c, 'd) runtime \<Rightarrow>
     ('s, 'a, 'b, 'c, 'd) runtime" where
  "apply_system2_result E b c rt =
     rt\<lparr>rt_quad := quad_modify (the_lib E) (rt_quad rt) b (\<lambda>n. n\<lparr>slow_confidence := Some c\<rparr>),
        system2_activations := system2_activations rt + 1,
        history := replace_last_confidence b c (history rt)\<rparr>"

definition try_consume_system2_budget :: "f32 \<Rightarrow> ('s, 'a, 'b, 'c, 'd) runtime \<Rightarrow> bool \<times> ('s, 'a, 'b, 'c, 'd) runtime" where
  "try_consume_system2_budget elapsed rt =
     (case try_consume elapsed 1 (reflection_budget rt) of (ok, bk) \<Rightarrow> (ok, rt\<lparr>reflection_budget := bk\<rparr>))"

definition release_system2_budget :: "('s, 'a, 'b, 'c, 'd) runtime \<Rightarrow> ('s, 'a, 'b, 'c, 'd) runtime" where
  "release_system2_budget rt = rt\<lparr>reflection_budget := release_tokens 1 (reflection_budget rt)\<rparr>"

definition record_system2_throttle :: "('s, 'a, 'b, 'c, 'd) runtime \<Rightarrow> ('s, 'a, 'b, 'c, 'd) runtime" where
  "record_system2_throttle rt = rt\<lparr>system2_throttled := system2_throttled rt + 1\<rparr>"

section \<open>Session metrics\<close>

definition compute_tece :: "('s, 'a, 'b, 'c, 'd) runtime \<Rightarrow> f32 option" where
  "compute_tece rt = tece_compute (as_tece_input (history rt))"

definition finalize_session :: "('s, 'a, 'b, 'c, 'd) runtime \<Rightarrow> ('s, 'a, 'b, 'c, 'd) runtime" where
  "finalize_session rt = rt\<lparr>history := finalize_history (history rt)\<rparr>"

definition session_report_of :: "('s, 'a, 'b, 'c, 'd) runtime \<Rightarrow> session_report" where
  "session_report_of rt =
     (let pairs = as_tece_input (history rt);
          tece = tece_compute pairs;
          (soft, hard, critical, recovery) = violation_counts (engine rt)
      in \<lparr> rep_tece = tece, total_revisions = length (history rt),
           contradictions_detected = length (filter (\<lambda>(_, c). \<not> c) pairs),
           rep_activations = system2_activations rt, rep_throttled = system2_throttled rt,
           calibration_target_met = (case tece of None \<Rightarrow> True | Some t \<Rightarrow> flt t TECE_TARGET),
           soft_violations = soft, hard_violations = hard, critical_violations = critical,
           recovery_actions = recovery, rep_drift_bounds = drift_bounds (engine rt),
           governance_tokens_used = tokens_used (tracker rt) \<rparr>)"

section \<open>Retrieval\<close>

text \<open>
  \<open>sort_by\<close> with the comparison \<open>b.1.partial_cmp(a.1)\<close> is a stable sort by descending score; two
  scores that do not compare count as equal. The standard library promises the order only for
  consistent comparisons, that is, without NaN.
\<close>

fun insert_score :: "'a \<times> f32 \<Rightarrow> ('a \<times> f32) list \<Rightarrow> ('a \<times> f32) list" where
  "insert_score x [] = [x]"
| "insert_score x (y # ys) = (if flt (snd x) (snd y) then y # insert_score x ys else x # y # ys)"

definition sort_scores :: "('a \<times> f32) list \<Rightarrow> ('a \<times> f32) list" where
  "sort_scores xs = foldr insert_score xs []"

text \<open>\<open>vs\<close> enumerates the node indices of the causal graph, in the order of its hash map.\<close>

definition belief_score ::
  "('s, 'a, 'b, 'c, 'd) environment \<Rightarrow> nat list \<Rightarrow> u64 \<Rightarrow> ('s, 'a, 'b, 'c, 'd) session_quad \<Rightarrow> f32 list \<Rightarrow>
     belief_id \<Rightarrow> belief_node \<Rightarrow> f32" where
  "belief_score E vs now q query_emb b n =
     compute_score
       (if query_emb = [] then Fin 0 else max_prospective_sim (prospective_index q) b query_emb)
       (fast_confidence n) (centrality (l_cau (the_lib E)) vs (causal q) b) (decay_factor (the_lib E) q b now)"

definition retrieve_for_query ::
  "('s, 'a, 'b, 'c, 'd) environment \<Rightarrow> nat list \<Rightarrow> u64 \<Rightarrow> string \<Rightarrow> nat \<Rightarrow> ('s, 'a, 'b, 'c, 'd) runtime \<Rightarrow>
     belief_snapshot list" where
  "retrieve_for_query E vs now query budget rt =
     (let q = rt_quad rt;
          query_emb = (case embedder rt of None \<Rightarrow> [] | Some e \<Rightarrow> (case e query of Inl _ \<Rightarrow> [] | Inr x \<Rightarrow> x));
          max_count = max (budget div 100) 1;
          scored = map (\<lambda>(b, n). (b, belief_score E vs now q query_emb b n))
                     (filter (\<lambda>(b, n). \<not> is_expired n now) (quad_iter (the_lib E) q))
      in filter_map (\<lambda>(b, _). map_option (\<lambda>n. (from_node n (version q))\<lparr>snap_id := b\<rparr>) (quad_get (the_lib E) q b))
           (take max_count (sort_scores scored)))"

section \<open>Checkpoints\<close>

definition runtime_checkpoint :: "uuid \<Rightarrow> u64 \<Rightarrow> ('s, 'a, 'b, 'c, 'd) runtime \<Rightarrow> uuid \<times> ('s, 'a, 'b, 'c, 'd) runtime" where
  "runtime_checkpoint u now rt =
     (case take_checkpoint u now (rt_quad rt) of (c, q) \<Rightarrow> (c, rt\<lparr>rt_quad := q\<rparr>))"

definition runtime_rollback_to ::
  "('s, 'a, 'b, 'c, 'd) environment \<Rightarrow> uuid \<Rightarrow> ('s, 'a, 'b, 'c, 'd) runtime \<Rightarrow>
     (rollback_error + belief_quad_diff) \<times> ('s, 'a, 'b, 'c, 'd) runtime" where
  "runtime_rollback_to E u rt =
     (case rollback_to (the_lib E) (key_order E) (rt_quad rt) u of (r, q) \<Rightarrow> (r, rt\<lparr>rt_quad := q\<rparr>))"

end
