(* ===== verification/Runtime_Properties.thy ===== *)
theory Runtime_Properties
  imports Runtime
begin

text \<open>
  Properties of the runtime. Every operation acts on the quad through the operations of the core
  (\<open>runtime_step\<close> refines \<open>session_step\<close>), so the invariants of the core hold in every state any
  interleaving of calls can reach; then the updates: their failures, their recoveries, their
  governance; and retrieval.
\<close>

section \<open>The runtime as a client of the quad\<close>

definition fair :: "readings \<Rightarrow> bool" where
  "fair rd \<longleftrightarrow> (\<forall>b S. finite S \<longrightarrow> set (prop_order rd b S) = S)"

text \<open>One rule per phase that holds a lock, and per builder.\<close>

inductive runtime_step ::
  "('s, 'a, 'b, 'c, 'd) environment \<Rightarrow> ('s, 'a, 'b, 'c, 'd) runtime \<Rightarrow> ('s, 'a, 'b, 'c, 'd) runtime \<Rightarrow> bool" for E where
  insert: "runtime_step E rt (snd (insert_belief E n rt))"
| token: "runtime_step E rt (snd (token_phase rt))"
| checkpoint: "runtime_step E rt (snd (checkpoint_phase rd rt))"
| revise: "fair rd \<Longrightarrow> runtime_step E rt (snd (revise_phase E rd b v p c rt))"
| enforce: "runtime_step E rt (snd (enforce_phase E rd u k rt))"
| finish: "runtime_step E rt (snd (finish_phase E rd b fast contradicted rt))"
| system2: "runtime_step E rt (apply_system2_result E b c rt)"
| consume: "runtime_step E rt (snd (try_consume_system2_budget elapsed rt))"
| release: "runtime_step E rt (release_system2_budget rt)"
| throttle: "runtime_step E rt (record_system2_throttle rt)"
| finalize: "runtime_step E rt (finalize_session rt)"
| save: "runtime_step E rt (snd (runtime_checkpoint u now rt))"
| rollback: "runtime_step E rt (snd (runtime_rollback_to E u rt))"
| contract: "runtime_step E rt (with_contract ct rt)"
| sovereignty: "runtime_step E rt (with_sovereignty sov rt)"
| llm: "runtime_step E rt (set_llm_client cl rt)"
| no_llm: "runtime_step E rt (clear_llm_client rt)"
| monitor: "runtime_step E rt (set_active_inference m rt)"
| no_monitor: "runtime_step E rt (clear_active_inference rt)"
| embed: "runtime_step E rt (with_embedder em rt)"
| prospect: "runtime_step E rt (with_prospective_client pc rt)"
| tau: "runtime_step E rt (with_default_tau t rt)"

inductive runtime_reachable ::
  "('s, 'a, 'b, 'c, 'd) environment \<Rightarrow> ('s, 'a, 'b, 'c, 'd) runtime \<Rightarrow> bool" for E where
  start: "reachable (the_lib E) (key_order E) q \<Longrightarrow> runtime_reachable E (runtime_new E w q baseline budget rate)"
| step: "runtime_reachable E rt \<Longrightarrow> runtime_step E rt rt' \<Longrightarrow> runtime_reachable E rt'"

inductive_cases runtime_stepE: "runtime_step E rt rt'"

text \<open>What each operation does to the quad.\<close>

lemma index_quad:
  "\<exists>i. rt_quad (index_belief_prospective E b v rt) = (rt_quad rt)\<lparr>prospective_index := i\<rparr>"
proof -
  have "rt_quad rt = (rt_quad rt)\<lparr>prospective_index := prospective_index (rt_quad rt)\<rparr>" by simp
  then show ?thesis
    by (cases "prospective_client rt"; cases "embedder rt")
      (auto simp: index_belief_prospective_def split: sum.split intro: exI [of _ "prospective_index (rt_quad rt)"])
qed

lemma observe_quad [simp]: "rt_quad (observe_active_inference E b rt) = rt_quad rt"
  by (simp add: observe_active_inference_def split: option.split)

lemma insert_steps: "session_steps E (rt_quad rt) (rt_quad (snd (insert_belief E n rt)))"
proof -
  obtain b q where i: "quad_insert (the_lib E) (rt_quad rt) n = (b, q)" by fastforce
  have "session_step (the_lib E) (key_order E) (rt_quad rt) q"
    using session_step.insert [of "the_lib E" "key_order E" "rt_quad rt" n] i by simp
  then have s: "session_steps E (rt_quad rt) q" by (rule r_into_rtranclp)
  let ?rt1 = "rt\<lparr>rt_quad := q, key_index := (key_index rt)(key n \<mapsto> b)\<rparr>"
  obtain i' where "rt_quad (index_belief_prospective E b (value n) ?rt1) = q\<lparr>prospective_index := i'\<rparr>"
    using index_quad [of E b "value n" ?rt1] by auto
  moreover have "session_steps E (rt_quad rt) (q\<lparr>prospective_index := i'\<rparr>)"
    using s session_step.prospective by (rule rtranclp.rtrancl_into_rtrancl)
  ultimately show ?thesis using s by (simp add: insert_belief_def i Let_def)
qed

lemma revise_steps:
  assumes "fair rd"
  shows "session_steps E (rt_quad rt) (rt_quad (snd (revise_phase E rd b v p c rt)))"
proof -
  obtain r q where v: "revise (the_lib E) (rev_uuid rd) (rev_time rd) (rt_quad rt) b v p c = (r, q)" by fastforce
  have "session_step (the_lib E) (key_order E) (rt_quad rt) q"
    using session_step.revise [of "the_lib E" "key_order E" "rt_quad rt" "rev_uuid rd" "rev_time rd" b v p c] v by simp
  then have s: "session_steps E (rt_quad rt) q" by (rule r_into_rtranclp)
  have "session_steps E (rt_quad rt) q'" if "propagate_system1 (the_lib E) (prop_order rd) (prop_clock rd) q b = Some q'" for q'
  proof (rule rtranclp.rtrancl_into_rtrancl [OF s], rule session_step.system1 [OF _ that])
    show "\<And>b S. finite S \<Longrightarrow> set (prop_order rd b S) = S" using assms unfolding fair_def by blast
  qed
  then show ?thesis using s by (auto simp: revise_phase_def v Let_def split: sum.split option.split)
qed

lemma step_quad [simp]:
  "rt_quad (snd (token_phase rt)) = rt_quad rt"
  "rt_quad (snd (checkpoint_phase rd rt)) = snd (take_checkpoint (cp_uuid rd) (cp_time rd) (rt_quad rt))"
  "rt_quad (snd (finish_phase E rd b fast contradicted rt)) = rt_quad rt"
  "rt_quad (snd (try_consume_system2_budget elapsed rt)) = rt_quad rt"
  "rt_quad (release_system2_budget rt) = rt_quad rt"
  "rt_quad (record_system2_throttle rt) = rt_quad rt"
  "rt_quad (finalize_session rt) = rt_quad rt"
  "rt_quad (snd (runtime_checkpoint u now rt)) = snd (take_checkpoint u now (rt_quad rt))"
  "rt_quad (snd (runtime_rollback_to E u rt)) = snd (rollback_to (the_lib E) (key_order E) (rt_quad rt) u)"
  "rt_quad (with_contract ct rt) = rt_quad rt" "rt_quad (with_sovereignty sov rt) = rt_quad rt"
  "rt_quad (set_llm_client cl rt) = rt_quad rt" "rt_quad (clear_llm_client rt) = rt_quad rt"
  "rt_quad (set_active_inference m rt) = rt_quad rt" "rt_quad (clear_active_inference rt) = rt_quad rt"
  "rt_quad (with_embedder em rt) = rt_quad rt" "rt_quad (with_prospective_client pc rt) = rt_quad rt"
  "rt_quad (with_default_tau t rt) = rt_quad rt"
  by (simp_all add: token_phase_def checkpoint_phase_def finish_phase_def Let_def try_consume_system2_budget_def
      release_system2_budget_def record_system2_throttle_def finalize_session_def runtime_checkpoint_def
      runtime_rollback_to_def with_contract_def with_sovereignty_def set_llm_client_def clear_llm_client_def
      set_active_inference_def clear_active_inference_def with_embedder_def with_prospective_client_def
      with_default_tau_def split: prod.split)

lemma enforce_phase_steps: "session_steps E (rt_quad rt) (rt_quad (snd (enforce_phase E rd u k rt)))"
proof -
  obtain r q g w where p: "post_update E (viol_ids rd) (audit_time rd) (engine rt) (rt_quad rt) (Some u) k ''system'' (store rt) = (r, q, g, w)"
    by (metis prod.exhaust)
  then show ?thesis using post_update_steps [OF p] by (simp add: enforce_phase_def)
qed

lemma runtime_step_refines: "runtime_step E rt rt' \<Longrightarrow> session_steps E (rt_quad rt) (rt_quad rt')"
proof (erule runtime_stepE; hypsubst?)
  fix rd show "session_steps E (rt_quad rt) (rt_quad (snd (checkpoint_phase rd rt)))"
    by (simp add: r_into_rtranclp session_step.checkpoint)
next
  fix u now show "session_steps E (rt_quad rt) (rt_quad (snd (runtime_checkpoint u now rt)))"
    by (simp add: r_into_rtranclp session_step.checkpoint)
next
  fix u show "session_steps E (rt_quad rt) (rt_quad (snd (runtime_rollback_to E u rt)))"
    by (simp add: r_into_rtranclp session_step.rollback)
next
  fix b c show "session_steps E (rt_quad rt) (rt_quad (apply_system2_result E b c rt))"
    by (simp add: apply_system2_result_def r_into_rtranclp session_step.modify)
qed (simp_all add: insert_steps revise_steps enforce_phase_steps)

lemma session_steps_reachable:
  "session_steps E q q' \<Longrightarrow> reachable (the_lib E) (key_order E) q \<Longrightarrow> reachable (the_lib E) (key_order E) q'"
  by (induction rule: rtranclp_induct) (auto intro: reachable.step)

lemma runtime_reachable_refines: "runtime_reachable E rt \<Longrightarrow> reachable (the_lib E) (key_order E) (rt_quad rt)"
  by (induction rule: runtime_reachable.induct)
    (auto simp: runtime_new_def dest: runtime_step_refines session_steps_reachable)

text \<open>An update is a run of its phases.\<close>

lemma update_run:
  assumes "fair rd"
  shows "(runtime_step E)\<^sup>*\<^sup>* rt (snd (update_belief E rd b v p c rt))"
proof -
  note one = rtranclp.rtrancl_into_rtrancl [of "runtime_step E" rt]
  obtain r1 rt1 where 1: "token_phase rt = (r1, rt1)" by fastforce
  have s1: "(runtime_step E)\<^sup>*\<^sup>* rt rt1" using one [OF rtranclp.rtrancl_refl, OF runtime_step.token] 1 by simp
  obtain u rt2 where 2: "checkpoint_phase rd rt1 = (u, rt2)" by fastforce
  have s2: "(runtime_step E)\<^sup>*\<^sup>* rt rt2" using one [OF s1, OF runtime_step.checkpoint, of rd] 2 by simp
  obtain r3 rt3 where 3: "revise_phase E rd b v p c rt2 = (r3, rt3)" by fastforce
  have s3: "(runtime_step E)\<^sup>*\<^sup>* rt rt3" using one [OF s2, OF runtime_step.revise, OF assms, of b v p c] 3 by simp
  obtain r4 rt4 where 4: "enforce_phase E rd u (key_of E rt b) rt3 = (r4, rt4)" by fastforce
  have s4: "(runtime_step E)\<^sup>*\<^sup>* rt rt4" using one [OF s3, OF runtime_step.enforce, of rd u "key_of E rt b"] 4 by simp
  have s5: "(runtime_step E)\<^sup>*\<^sup>* rt rt5" if "finish_phase E rd b fast contradicted rt4 = (r, rt5)" for fast contradicted r rt5
    using one [OF s4, OF runtime_step.finish, of rd b fast contradicted] that by simp
  show ?thesis
    using s1 s2 s3 s4 s5 by (auto simp: update_belief_def Let_def 1 2 3 4 split: sum.split prod.split)
qed

lemma run_reachable: "(runtime_step E)\<^sup>*\<^sup>* rt rt' \<Longrightarrow> runtime_reachable E rt \<Longrightarrow> runtime_reachable E rt'"
  by (induction rule: rtranclp_induct) (auto intro: runtime_reachable.step)

section \<open>The shape of an update\<close>

lemma token_phase_cases:
  "token_phase rt = (r, rt') \<Longrightarrow>
     rt' = rt\<lparr>tracker := (tracker rt)\<lparr>tokens_used := tokens_used (tracker rt) + 1\<rparr>\<rparr> \<and>
     (case token_limit rt of
        None \<Rightarrow> r = Inr ()
      | Some m \<Rightarrow> r = (if m \<le> tokens_used (tracker rt)
                     then Inl (GovernanceLimitExceeded ''tokens_per_session'' m (tokens_used (tracker rt) + 1)) else Inr ()))"
  by (auto simp: token_phase_def track_token_usage_def Let_def split: option.splits if_splits)

lemma enforce_phase_frame:
  "enforce_phase E rd u k rt = (r, rt') \<Longrightarrow>
     history rt' = history rt \<and> key_index rt' = key_index rt \<and> tracker rt' = tracker rt \<and>
     reliability_baseline rt' = reliability_baseline rt \<and> llm_client rt' = llm_client rt \<and>
     (isl r \<longrightarrow> store rt' = store rt)"
  by (auto simp: enforce_phase_def post_update_def split: prod.splits sum.splits)

lemma enforce_phase_stops:
  assumes "enforce_phase E rd u k rt = (Inl e, rt')"
  obtains q lg where "rt' = rt\<lparr>rt_quad := q, engine := (engine rt)\<lparr>violation_log := lg\<rparr>\<rparr>"
    "enforce E (viol_ids rd) (sovereignty (engine rt)) (Some u) 0 None (rt_quad rt) (violation_log (engine rt))
       (contracts (engine rt)) = (Inl e, q, lg)"
proof -
  obtain r q lg where f: "enforce E (viol_ids rd) (sovereignty (engine rt)) (Some u) 0 None (rt_quad rt)
      (violation_log (engine rt)) (contracts (engine rt)) = (r, q, lg)" by (metis prod.exhaust)
  then have r: "r = Inl e" using assms by (auto simp: enforce_phase_def post_update_def split: sum.splits)
  then have "rt' = rt\<lparr>rt_quad := q, engine := (engine rt)\<lparr>violation_log := lg\<rparr>\<rparr>"
    using assms f by (auto simp: enforce_phase_def post_update_def)
  then show thesis using f r by (intro that) auto
qed

text \<open>Only a halt or a failed recovery stops an enforcement; the latter leaves the quad alone.\<close>

lemma stop_cause_errors:
  assumes "stop_cause E cp q cs e q'"
  shows "(\<exists>d i n. e = ContractHalt d i n) \<or>
    (\<exists>f. e = RecoveryFailed f \<and> q' = q \<and> (\<exists>c \<in> set cs. \<exists>v. broken cp q c v \<and> violated_class v = Hard \<and>
       execute_recovery E q v (recovery c) = (Inl e, q)))"
proof -
  have "(\<exists>d i n. e = ContractHalt d i n) \<or> (\<exists>f. e = RecoveryFailed f)"
    if "execute_recovery E q v p = (Inl e, r)" for v p r
    using that by (auto simp: execute_recovery_def recover_to_def split: recovery_policy.splits option.splits prod.splits sum.splits)
  then show ?thesis using assms unfolding stop_cause_def by blast
qed

lemma update_ok:
  assumes "update_belief E rd b v p c rt = (Inr r, rt')"
  obtains rt1 fast contradicted rt3 out rt4 where
    "pre_update (engine rt) (rt_quad rt) (key_of E rt b) ''system'' = Inr ()"
    "token_phase rt = (Inr (), rt1)"
    "revise_phase E rd b v p c (snd (checkpoint_phase rd rt1)) = (Inr (fast, contradicted), rt3)"
    "enforce_phase E rd (cp_uuid rd) (key_of E rt b) rt3 = (Inr out, rt4)"
    "finish_phase E rd b fast contradicted rt4 = (r, rt')"
proof -
  have u: "fst (checkpoint_phase rd rt1) = cp_uuid rd" for rt1 :: "('a, 'b, 'c, 'd, 'e) runtime"
    by (simp add: checkpoint_phase_def take_checkpoint_def capture_def Let_def)
  show ?thesis
    using assms that u
    by (auto simp: update_belief_def Let_def split: sum.splits prod.splits) (metis fst_conv snd_conv)
qed

section \<open>Properties of updates\<close>

text \<open>
  C3. The runtime refines the session of the core: whatever sequence of its phases has run, in any
  interleaving of calls and with any answers of its services, its quad is reachable by the
  operations of the core, hence well formed with all its snapshots; and an update is such a
  sequence, on each of its error paths too.
\<close>

theorem runtime_refines:
  assumes "belief_lib (the_lib E)" "runtime_reachable E rt" "fair rd"
  shows "reachable (the_lib E) (key_order E) (rt_quad rt) \<and> session_wf (the_lib E) (rt_quad rt) \<and>
    runtime_reachable E (snd (update_belief E rd b v p c rt)) \<and>
    session_steps E (rt_quad rt) (rt_quad (snd (update_belief E rd b v p c rt)))"
proof -
  have r: "reachable (the_lib E) (key_order E) (rt_quad rt)" by (rule runtime_reachable_refines [OF assms(2)])
  have run: "(runtime_step E)\<^sup>*\<^sup>* rt (snd (update_belief E rd b v p c rt))" by (rule update_run [OF assms(3)])
  have "session_steps E (rt_quad rt) (rt_quad rt')" if "(runtime_step E)\<^sup>*\<^sup>* rt rt'" for rt'
    using that by (induction rule: rtranclp_induct) (auto dest: runtime_step_refines intro: rtranclp_trans)
  with run have "session_steps E (rt_quad rt) (rt_quad (snd (update_belief E rd b v p c rt)))" by blast
  with r run_reachable [OF run assms(2)] belief_lib.reachable_session_wf [OF assms(1) r] show ?thesis by blast
qed

definition demo_readings :: readings where
  "demo_readings = \<lparr> cp_uuid = 7, cp_time = 0, rev_uuid = 8, rev_time = 0, prop_order = (\<lambda>b. sorted_list_of_set),
     prop_clock = (\<lambda>b. 0), viol_ids = (\<lambda>j k. of_nat k), audit_time = 0, hist_time = 0 \<rparr>"

lemma demo_fair: "fair demo_readings"
  by (simp add: fair_def demo_readings_def)

definition empty_runtime where
  "empty_runtime = runtime_new demo_env empty_store (session_new ref_lib) (Fin (1 / 2)) 10 (Fin 1)"

lemma empty_reachable: "runtime_reachable demo_env empty_runtime"
  unfolding empty_runtime_def by (rule runtime_reachable.start) (simp add: demo_env_def reachable.start)

lemma demo_env_lib [simp]: "the_lib demo_env = ref_lib" "key_order demo_env = sorted_list_of_set"
  by (simp_all add: demo_env_def)

theorem runtime_refines_witness:
  "session_wf ref_lib (rt_quad (snd (insert_belief demo_env (demo_node ''a'' 1) empty_runtime)))"
proof -
  let ?rt = "snd (insert_belief demo_env (demo_node ''a'' 1) empty_runtime)"
  have "belief_lib (the_lib demo_env)" by (simp add: ref_belief_lib)
  moreover have "runtime_reachable demo_env ?rt"
    by (rule runtime_reachable.step [OF empty_reachable runtime_step.insert])
  ultimately show ?thesis using runtime_refines [of demo_env ?rt demo_readings] demo_fair by simp
qed

text \<open>The quad after the revision and the propagation of an update, before its enforcement.\<close>

definition revised_quad ::
  "('s, 'a, 'b, 'c, 'd) environment \<Rightarrow> readings \<Rightarrow> belief_id \<Rightarrow> belief_value \<Rightarrow> provenance \<Rightarrow> f32 \<Rightarrow>
     ('s, 'a, 'b, 'c, 'd) session_quad \<Rightarrow> ('s, 'a, 'b, 'c, 'd) session_quad option" where
  "revised_quad E rd b v p c q =
     (case revise (the_lib E) (rev_uuid rd) (rev_time rd) (snd (take_checkpoint (cp_uuid rd) (cp_time rd) q)) b v p c of
        (Inl e, _) \<Rightarrow> None
      | (Inr rec, q1) \<Rightarrow>
          (case propagate_system1 (the_lib E) (prop_order rd) (prop_clock rd) q1 b of None \<Rightarrow> Some q1 | Some q2 \<Rightarrow> Some q2))"

text \<open>
  C15. Every failing update, its cause and the whole state it leaves. A sovereignty failure (the
  agent may not write) and a failed precondition of a contract change nothing at all; an exceeded
  limit only counts the attempt; a refused revision leaves the extra checkpoint and whatever the
  revision had contracted. The only other errors come from the enforcement, after the update has
  been counted, saved, revised and propagated: it then leaves the revised quad, or the one a
  recovery made of it, and its violation log, and nothing else changed. A halt has a broken
  critical invariant, or a hard one under the policy that halts, for its cause (\<open>stop_cause\<close>), a
  failed recovery the broken hard invariant whose recovery failed, and it leaves the revised quad
  in place. History, key index, audit trail and all services are the same in every case.
\<close>

theorem update_failure:
  assumes "update_belief E rd b v p c rt = (Inl e, rt')"
  shows "history rt' = history rt \<and> key_index rt' = key_index rt \<and> store rt' = store rt \<and>
    (let counted = rt\<lparr>tracker := (tracker rt)\<lparr>tokens_used := tokens_used (tracker rt) + 1\<rparr>\<rparr>;
         saved = snd (take_checkpoint (cp_uuid rd) (cp_time rd) (rt_quad rt));
         cs = contracts (engine rt);
         cp = Some (cp_uuid rd);
         left = (\<lambda>q lg. rt' = counted\<lparr>rt_quad := q, engine := (engine rt)\<lparr>violation_log := lg\<rparr>\<rparr>);
         run = (\<lambda>q. enforce E (viol_ids rd) (sovereignty (engine rt)) cp 0 None q (violation_log (engine rt)) cs)
     in case e of
          RuntimeSovereignty m \<Rightarrow> rt' = rt \<and>
            (\<exists>sov x. sovereignty (engine rt) = Some sov \<and> check_write_auth sov ''system'' = Inl x \<and> m = contract_error_text x)
        | PreconditionFailed d k \<Rightarrow> rt' = rt \<and> k = key_of E rt b \<and>
            (\<exists>ct \<in> set cs. domain ct = d \<and> \<not> check_preconditions ct (rt_quad rt))
        | GovernanceLimitExceeded what m used \<Rightarrow>
            rt' = counted \<and> token_limit rt = Some m \<and> m \<le> tokens_used (tracker rt) \<and> used = tokens_used (tracker rt) + 1
        | Core x \<Rightarrow> (\<exists>re q. x = RevisionFailed re \<and> rt' = counted\<lparr>rt_quad := q\<rparr> \<and>
            revise (the_lib E) (rev_uuid rd) (rev_time rd) saved b v p c = (Inl re, q))
        | ContractHalt d i n \<Rightarrow> (\<exists>q3 q4 lg. revised_quad E rd b v p c (rt_quad rt) = Some q3 \<and>
            run q3 = (Inl e, q4, lg) \<and> left q4 lg \<and> stop_cause E cp q3 cs e q4)
        | RecoveryFailed f \<Rightarrow> (\<exists>q3 lg. revised_quad E rd b v p c (rt_quad rt) = Some q3 \<and>
            run q3 = (Inl e, q3, lg) \<and> left q3 lg \<and>
            (\<exists>ct \<in> set cs. \<exists>x. broken cp q3 ct x \<and> violated_class x = Hard \<and>
               execute_recovery E q3 x (recovery ct) = (Inl e, q3)))
        | _ \<Rightarrow> False)"
proof (cases "pre_update (engine rt) (rt_quad rt) (key_of E rt b) ''system''")
  case (Inl e')
  then have "e' = e" "rt' = rt" using assms by (simp_all add: update_belief_def Let_def)
  then show ?thesis
    using Inl by (auto simp: pre_update_def dest!: find_Some_set split: option.splits sum.splits)
next
  case (Inr x)
  let ?counted = "rt\<lparr>tracker := (tracker rt)\<lparr>tokens_used := tokens_used (tracker rt) + 1\<rparr>\<rparr>"
  obtain r1 rt1 where 1: "token_phase rt = (r1, rt1)" by fastforce
  note tp = token_phase_cases [OF 1]
  show ?thesis
  proof (cases r1)
    case (Inl e')
    then have "e' = e" "rt' = rt1" using assms Inr 1 by (simp_all add: update_belief_def Let_def)
    then show ?thesis using tp Inl by (auto split: option.splits if_splits)
  next
    case (Inr y)
    have rt1: "rt1 = ?counted" using tp by simp
    let ?rt2 = "snd (checkpoint_phase rd rt1)"
    obtain r3 rt3 where 3: "revise_phase E rd b v p c ?rt2 = (r3, rt3)" by fastforce
    have q2: "?rt2 = ?counted\<lparr>rt_quad := snd (take_checkpoint (cp_uuid rd) (cp_time rd) (rt_quad rt))\<rparr>"
      by (simp add: rt1 checkpoint_phase_def split: prod.split)
    show ?thesis
    proof (cases r3)
      case (Inl e')
      then have "e' = e" "rt' = rt3"
        using assms \<open>pre_update _ _ _ _ = Inr x\<close> 1 \<open>r1 = Inr y\<close> 3 by (simp_all add: update_belief_def Let_def split: prod.splits)
      then show ?thesis using 3 Inl unfolding revise_phase_def q2
        by (auto simp: Let_def split: prod.splits sum.splits)
    next
      case (Inr z)
      obtain fast contradicted where z: "z = (fast, contradicted)" by fastforce
      have u: "fst (checkpoint_phase rd rt1) = cp_uuid rd"
        by (simp add: checkpoint_phase_def take_checkpoint_def capture_def Let_def)
      obtain r4 rt4 where 4: "enforce_phase E rd (cp_uuid rd) (key_of E rt b) rt3 = (r4, rt4)" by fastforce
      have r4: "r4 = Inl e" "rt' = rt4"
        using assms \<open>pre_update _ _ _ _ = Inr x\<close> 1 \<open>r1 = Inr y\<close> 3 4 Inr z u
        by (auto simp: update_belief_def Let_def split: prod.splits sum.splits)
      have rt3: "rt3 = ?counted\<lparr>rt_quad := rt_quad rt3\<rparr>" and q3: "revised_quad E rd b v p c (rt_quad rt) = Some (rt_quad rt3)"
        using 3 Inr unfolding revise_phase_def q2 revised_quad_def
        by (auto simp: Let_def split: prod.splits sum.splits option.splits)
      have eng: "engine rt3 = engine rt" by (subst rt3) simp
      obtain q4 lg where s: "rt' = rt3\<lparr>rt_quad := q4, engine := (engine rt3)\<lparr>violation_log := lg\<rparr>\<rparr>"
        "enforce E (viol_ids rd) (sovereignty (engine rt3)) (Some (cp_uuid rd)) 0 None (rt_quad rt3)
           (violation_log (engine rt3)) (contracts (engine rt3)) = (Inl e, q4, lg)"
        using enforce_phase_stops [OF 4 [unfolded r4(1)]] r4(2) by blast
      have left: "rt' = ?counted\<lparr>rt_quad := q4, engine := (engine rt)\<lparr>violation_log := lg\<rparr>\<rparr>"
        unfolding s(1) eng by (subst rt3) simp
      note cause = enforce_stops [OF s(2), unfolded eng]
      show ?thesis
      proof (cases "\<exists>f. e = RecoveryFailed f")
        case True
        then have "q4 = rt_quad rt3" "\<exists>ct \<in> set (contracts (engine rt)). \<exists>x. broken (Some (cp_uuid rd)) (rt_quad rt3) ct x \<and>
            violated_class x = Hard \<and> execute_recovery E (rt_quad rt3) x (recovery ct) = (Inl e, rt_quad rt3)"
          using stop_cause_errors [OF cause] by blast+
        then show ?thesis using True left q3 s(2) [unfolded eng] by (elim exE) (simp add: Let_def)
      next
        case False
        then show ?thesis using stop_cause_errors [OF cause] left q3 s(2) [unfolded eng] cause by (auto simp: Let_def)
      qed
    qed
  qed
qed

theorem update_failure_witness:
  "\<exists>x rt'. update_belief demo_env demo_readings key_a (Asserted ''v'') (UserStatement 0) (Fin 1) empty_runtime = (Inl (Core x), rt') \<and>
     history rt' = []"
proof -
  let ?u = "update_belief demo_env demo_readings key_a (Asserted ''v'') (UserStatement 0) (Fin 1) empty_runtime"
  have "(case fst ?u of Inl (Core x) \<Rightarrow> True | _ \<Rightarrow> False)" by code_simp
  then obtain x rt' where u: "?u = (Inl (Core x), rt')"
    by (cases ?u; cases "fst ?u") (auto split: runtime_error.splits)
  have "history rt' = history empty_runtime" using update_failure [OF u] by blast
  with u show ?thesis by (simp add: empty_runtime_def runtime_new_def)
qed

section \<open>Recovery\<close>

lemma phase_frames:
  "token_phase rt = (r, rt1) \<Longrightarrow> rt_quad rt1 = rt_quad rt \<and> engine rt1 = engine rt \<and> history rt1 = history rt"
  "engine (snd (checkpoint_phase rd rt)) = engine rt" "history (snd (checkpoint_phase rd rt)) = history rt"
  "revise_phase E rd b v p c rt = (x, rt3) \<Longrightarrow> engine rt3 = engine rt \<and> history rt3 = history rt"
  by (auto simp: token_phase_def checkpoint_phase_def revise_phase_def Let_def split: prod.splits sum.splits)

lemma revise_phase_checkpoints:
  assumes "belief_lib (the_lib E)" "quad_wf (the_lib E) (rt_quad rt)" "fair rd"
    "revise_phase E rd b v p c rt = (x, rt3)"
  shows "checkpoints (rt_quad rt3) = checkpoints (rt_quad rt) \<and> quad_wf (the_lib E) (rt_quad rt3)"
proof -
  let ?L = "the_lib E"
  obtain r q where v: "revise ?L (rev_uuid rd) (rev_time rd) (rt_quad rt) b v p c = (r, q)" by fastforce
  have w: "quad_wf ?L q" using belief_lib.revise_wf [OF assms(1,2), of "rev_uuid rd" "rev_time rd" b v p c] v by simp
  have cp: "checkpoints q = checkpoints (rt_quad rt)"
    using revise_checkpoints [of ?L "rev_uuid rd" "rev_time rd" "rt_quad rt" b v p c] v by simp
  have o: "finite S \<Longrightarrow> set (prop_order rd d S) = S" for d S using assms(3) by (simp add: fair_def)
  obtain q' V where "propagate_inner ?L (prop_order rd) (prop_clock rd) (quad_len ?L q + 2) q {} b = Some (q', V)"
    "only_fast ?L (causal_reach ?L (causal q) {b}) q q'"
    using belief_lib.propagate_system1_total [where ord = "prop_order rd", OF assms(1) _ w] o by blast
  then have p: "propagate_system1 ?L (prop_order rd) (prop_clock rd) q b = Some q'" "quad_wf ?L q'" "q' = q\<lparr>nodes := nodes q'\<rparr>"
    by (simp_all add: propagate_system1_def only_fast_def)
  have "checkpoints q' = checkpoints q"
    using p(3) by (metis session_quad.select_convs(1) session_quad.surjective quad.update_convs(1))
  then show ?thesis using assms(4) v w cp p by (auto simp: revise_phase_def Let_def split: sum.splits)
qed

lemma checkpoint_phase_quad:
  "rt_quad (snd (checkpoint_phase rd rt)) = snd (take_checkpoint (cp_uuid rd) (cp_time rd) (rt_quad rt))"
  "fst (checkpoint_phase rd rt) = cp_uuid rd"
  by (simp_all add: checkpoint_phase_def take_checkpoint_def capture_def Let_def)

text \<open>
  C8. Under one contract without critical invariants that rolls back to the last checkpoint, every
  update that leaves a Hard invariant violated is undone: the runtime ends with exactly the beliefs,
  graphs and version it had before the call, and the call returns as if it had succeeded, with the
  discarded confidence appended to the history. The one exception is a change that the diff does
  not show; then the recovery is refused and the violating state stays.
\<close>

theorem violating_update_undone:
  assumes "belief_lib (the_lib E)" "quad_wf (the_lib E) (rt_quad rt)" "fair rd"
    and "cp_uuid rd \<notin> cp_id ` set (checkpoints (rt_quad rt))"
    and "contracts (engine rt) = [ct]" "recovery ct = RollbackToLastCheckpoint"
    and "\<forall>i \<in> set (invariants ct). class_of i \<noteq> Critical"
    and "pre_update (engine rt) (rt_quad rt) (key_of E rt b) ''system'' = Inr ()" "token_phase rt = (Inr (), rt1)"
    and "revise_phase E rd b v p c (snd (checkpoint_phase rd rt1)) = (Inr (fast, contradicted), rt3)"
    and "check_invariants ids ct (rt_quad rt3) cp \<noteq> None"
  shows "\<exists>y rt'. update_belief E rd b v p c rt = (y, rt') \<and>
    (let d = quad_diff (the_lib E) (key_order E) (rt_quad rt3) (quad.truncate (rt_quad rt))
     in if has_contradictions d
        then (\<exists>r. y = Inr r) \<and> rt_quad rt' = with_checkpoints (quad.truncate (rt_quad rt)) [] \<and>
          history rt' = history_push (hist_time rd) b fast
            (if contradicted then mark_correct b False (history rt) else history rt)
        else y = Inl (RecoveryFailed (RollbackRefused (UnnecessaryContraction d))) \<and> rt_quad rt' = rt_quad rt3)"
proof -
  let ?L = "the_lib E" and ?u = "cp_uuid rd" and ?q3 = "rt_quad rt3"
  let ?saved = "snd (take_checkpoint ?u (cp_time rd) (rt_quad rt))"
  let ?d = "quad_diff ?L (key_order E) ?q3 (quad.truncate (rt_quad rt))"
  note 1 = phase_frames(1) [OF assms(9)]
  have q2: "rt_quad (snd (checkpoint_phase rd rt1)) = ?saved" using 1 by (simp add: checkpoint_phase_quad)
  have "quad_wf ?L ?saved = quad_wf ?L (rt_quad rt)" by (rule quad_wf_cong) (simp_all add: take_checkpoint_def Let_def)
  with q2 assms(2) have w2: "quad_wf ?L (rt_quad (snd (checkpoint_phase rd rt1)))" by simp
  have "checkpoints ?q3 = checkpoints ?saved @ []"
    using revise_phase_checkpoints [OF assms(1) w2 assms(3,10)] q2 by simp
  from rollback_captured [OF assms(4) this] have rb:
    "rollback_to ?L (key_order E) ?q3 ?u = (if has_contradictions ?d then (Inr ?d, with_checkpoints (quad.truncate (rt_quad rt)) [])
       else (Inl (UnnecessaryContraction ?d), ?q3))" .
  obtain r q4 where r: "rollback_to ?L (key_order E) ?q3 ?u = (r, q4)" by fastforce
  note 3 = phase_frames(4) [OF assms(10)]
  have e3: "engine rt3 = engine rt" "history rt3 = history rt" using 1 3 by (simp_all add: phase_frames)
  have s: "severe ct ?q3" using assms(11) severe_check by blast
  have c3: "contracts (engine rt3) = [ct]" using assms(5) e3 by simp
  obtain g w y where pu: "post_update E (viol_ids rd) (audit_time rd) (engine rt3) ?q3 (Some ?u) (key_of E rt b) ''system'' (store rt3) = (y, q4, g, w)"
    and y: "case r of Inl e \<Rightarrow> y = Inl (RecoveryFailed (RollbackRefused e)) | Inr d \<Rightarrow> (\<exists>x. y = Inr (Some x))"
    using rollback_contract [OF c3 assms(6,7) s r, where ids = "viol_ids rd" and now = "audit_time rd" and
        k = "key_of E rt b" and agent = "''system''" and w = "store rt3"] by (elim exE conjE)
  have en: "enforce_phase E rd ?u (key_of E rt b) rt3 = (y, rt3\<lparr>rt_quad := q4, engine := g, store := w\<rparr>)"
    using pu by (simp add: enforce_phase_def)
  obtain rt2 where cp: "checkpoint_phase rd rt1 = (?u, rt2)" by (metis checkpoint_phase_quad(2) prod.collapse)
  have rv: "revise_phase E rd b v p c rt2 = (Inr (fast, contradicted), rt3)" using assms(10) cp by simp
  note run = update_belief_def Let_def assms(8,9) cp rv en
  show ?thesis
  proof (cases "has_contradictions ?d")
    case True
    then have "r = Inr ?d" "q4 = with_checkpoints (quad.truncate (rt_quad rt)) []" using rb r by simp_all
    moreover from this obtain x where "y = Inr (Some x)" using y by auto
    moreover obtain z rt5 where f: "finish_phase E rd b fast contradicted (rt3\<lparr>rt_quad := q4, engine := g, store := w\<rparr>) = (z, rt5)"
      by fastforce
    moreover from this have "rt_quad rt5 = q4" "history rt5 = history_push (hist_time rd) b fast
        (if contradicted then mark_correct b False (history rt) else history rt)"
      using e3 by (auto simp: finish_phase_def Let_def split: if_splits)
    ultimately show ?thesis using True by (simp add: run)
  next
    case False
    then have "r = Inl (UnnecessaryContraction ?d)" "q4 = ?q3" using rb r by simp_all
    moreover from this have "y = Inl (RecoveryFailed (RollbackRefused (UnnecessaryContraction ?d)))" using y by simp
    ultimately show ?thesis using False by (simp add: run)
  qed
qed

definition demo_runtime where
  "demo_runtime = with_contract (min_contract RollbackToLastCheckpoint Hard ''a'' (1 / 2))
     (runtime_new demo_env empty_store demo_session (Fin (1 / 2)) 10 (Fin 1))"

lemma demo_session_wf: "quad_wf ref_lib demo_session"
proof -
  have "quad_wf ref_lib demo_session = quad_wf ref_lib demo_quad"
    by (rule quad_wf_cong) (simp_all add: demo_session_def)
  then show ?thesis using demo_wf(2) by simp
qed

definition demo_revised where
  "demo_revised = revise_phase demo_env demo_readings key_a (Asserted ''z'') (UserStatement 1) (Fin (1 / 4))
     (snd (checkpoint_phase demo_readings (snd (token_phase demo_runtime))))"

lemma demo_revised_facts:
  "\<not> isl (fst demo_revised)"
  "\<not> Option.is_none (check_invariants (\<lambda>k. 0) (min_contract RollbackToLastCheckpoint Hard ''a'' (1 / 2)) (rt_quad (snd demo_revised)) None)"
  "map_option value (by_key ref_lib (rt_quad (snd demo_revised)) ''a'') = Some (Asserted ''z'')"
  by code_simp+

lemma demo_before: "map_option value (by_key ref_lib demo_quad ''a'') = Some (Asserted ''a'')"
  by code_simp

lemma demo_conflict:
  "has_contradictions (quad_diff ref_lib sorted_list_of_set (rt_quad (snd demo_revised)) (quad.truncate demo_session))"
proof -
  have n: "by_key ref_lib (quad.truncate demo_session) = by_key ref_lib demo_quad"
    by (rule by_key_nodes) (simp add: demo_session_def)
  show ?thesis
    using diff_reports [of sorted_list_of_set ref_lib "rt_quad (snd demo_revised)" "quad.truncate demo_session"]
      demo_revised_facts(3) demo_before n by (auto simp: conf_changed_def)
qed

lemma demo_runtime_parts:
  "rt_quad demo_runtime = demo_session"
  "contracts (engine demo_runtime) = [min_contract RollbackToLastCheckpoint Hard ''a'' (1 / 2)]"
  "recovery (min_contract p v k x) = p" "\<forall>i \<in> set (invariants (min_contract p Hard k x)). class_of i \<noteq> Critical"
  by (simp_all add: demo_runtime_def runtime_new_def with_contract_def contract_engine_new_def min_contract_def)

lemma demo_revised_frame:
  "engine (snd demo_revised) = engine demo_runtime"
  "checkpoints (rt_quad (snd demo_revised)) = checkpoints (snd (take_checkpoint 7 0 demo_session))"
proof -
  obtain r1 rt1 where 1: "token_phase demo_runtime = (r1, rt1)" by fastforce
  let ?rt2 = "snd (checkpoint_phase demo_readings rt1)"
  obtain r3 rt3 where 3: "revise_phase demo_env demo_readings key_a (Asserted ''z'') (UserStatement 1) (Fin (1 / 4)) ?rt2 = (r3, rt3)"
    by fastforce
  have d: "snd demo_revised = rt3" by (simp only: demo_revised_def 1 3 snd_conv)
  note f = phase_frames(1) [OF 1] phase_frames(2,3) [of demo_readings rt1] phase_frames(4) [OF 3]
  show "engine (snd demo_revised) = engine demo_runtime" using f d by simp
  have q: "rt_quad ?rt2 = snd (take_checkpoint 7 0 demo_session)"
    using f by (simp add: checkpoint_phase_quad demo_runtime_parts) (simp add: demo_readings_def)
  have "quad_wf ref_lib (rt_quad ?rt2) = quad_wf ref_lib demo_session"
    unfolding q by (rule quad_wf_cong) (simp_all add: take_checkpoint_def Let_def)
  then have w: "quad_wf (the_lib demo_env) (rt_quad ?rt2)" using demo_session_wf by simp
  have "belief_lib (the_lib demo_env)" by (simp add: ref_belief_lib)
  from revise_phase_checkpoints [OF this w demo_fair 3] show "checkpoints (rt_quad (snd demo_revised)) = checkpoints (snd (take_checkpoint 7 0 demo_session))"
    unfolding d q by blast
qed

theorem violating_update_undone_witness:
  "\<exists>r rt'. update_belief demo_env demo_readings key_a (Asserted ''z'') (UserStatement 1) (Fin (1 / 4)) demo_runtime = (Inr r, rt') \<and>
     rt_quad rt' = demo_session"
proof -
  let ?ct = "min_contract RollbackToLastCheckpoint Hard ''a'' (1 / 2)"
  note q = demo_runtime_parts(1) and g = demo_runtime_parts(2)
  have t: "token_phase demo_runtime = (Inr (), snd (token_phase demo_runtime))"
    by (simp add: token_phase_def token_limit_def g min_contract_def governance_default_def track_token_usage_def Let_def)
  have pre: "pre_update (engine demo_runtime) (rt_quad demo_runtime) (key_of demo_env demo_runtime key_a) ''system'' = Inr ()"
    by (simp add: pre_update_def g) (simp add: demo_runtime_def runtime_new_def with_contract_def contract_engine_new_def
        min_contract_def check_preconditions_def)
  obtain fast contradicted rt3 where r: "demo_revised = (Inr (fast, contradicted), rt3)"
    using demo_revised_facts(1) by (metis isl_def prod.exhaust fst_conv sum.exhaust)
  have s3: "snd demo_revised = rt3" unfolding r by (rule snd_conv)
  have hc: "has_contradictions (quad_diff ref_lib sorted_list_of_set (rt_quad rt3) (quad.truncate demo_session))"
    using demo_conflict unfolding s3 .
  have lib: "belief_lib (the_lib demo_env)" "quad_wf (the_lib demo_env) (rt_quad demo_runtime)"
    using q by (simp_all add: ref_belief_lib demo_session_wf)
  have fresh: "cp_uuid demo_readings \<notin> cp_id ` set (checkpoints (rt_quad demo_runtime))"
    by (simp add: q demo_session_def)
  have sev: "check_invariants (\<lambda>k. 0) ?ct (rt_quad rt3) None \<noteq> None"
    using demo_revised_facts(2) unfolding s3 by (auto simp: Option.is_none_def)
  obtain y rt' where "update_belief demo_env demo_readings key_a (Asserted ''z'') (UserStatement 1) (Fin (1 / 4)) demo_runtime = (y, rt')"
    "\<exists>r. y = Inr r" "rt_quad rt' = with_checkpoints (quad.truncate demo_session) []"
    using violating_update_undone [OF lib demo_fair fresh g demo_runtime_parts(3,4) pre t r [unfolded demo_revised_def] sev] hc
    unfolding Let_def q demo_env_lib if_P [OF hc] by blast
  then show ?thesis by (auto simp: demo_session_def)
qed

end
