(* ===== verification/Runtime_Budget.thy ===== *)
theory Runtime_Budget
  imports Runtime_Properties
begin

text \<open>
  The resources of a runtime: the token bucket of System 2 and the governance limit on updates.
\<close>

section \<open>The token bucket stays within its capacity\<close>

definition bucket_top :: "token_bucket \<Rightarrow> f32" where
  "bucket_top bk = f_of_nat F32 (unat (capacity bk))"

definition bucket_ok :: "token_bucket \<Rightarrow> bool" where
  "bucket_ok bk \<longleftrightarrow> fle (Fin 0) (available bk) \<and> fle (available bk) (bucket_top bk)"

lemma representable_f32_int: "\<bar>n\<bar> \<le> 2 ^ 24 \<Longrightarrow> representable F32 (of_int n)"
  using representable_int [of n F32] by simp

lemma fround_grows: "0 \<le> x \<Longrightarrow> fle (Fin 0) (fround t x)"
  using fround_fle [of 0 x t] by simp

lemma top_finite: "\<exists>c. bucket_top bk = Fin c \<and> 0 \<le> c \<and> fround F32 c = Fin c"
proof -
  let ?n = "unat (capacity bk)"
  have "?n < 2 ^ 32" using unsigned_less [of "capacity bk"] by simp
  then have "of_nat ?n \<le> (2 ^ 32 :: rat)" by (metis less_imp_le of_nat_le_iff of_nat_numeral of_nat_power)
  then have "round_rat F32 (of_nat ?n) \<le> round_rat F32 (2 ^ 32)" by (rule round_rat_mono)
  moreover have "round_rat F32 (2 ^ 32) = 2 ^ 32"
    by (rule round_rat_exact) (simp add: representable_def, rule exI [of _ 1], rule exI [of _ 32], simp add: pow2_powi)
  ultimately have u: "round_rat F32 (of_nat ?n) \<le> 2 ^ 32" by simp
  have l: "0 \<le> round_rat F32 (of_nat ?n)" by (rule round_rat_nonneg, rule of_nat_0_le_iff)
  have "(2 ^ 32 :: rat) < 2 ^ fmax_exp F32" by (simp add: power_strict_increasing_iff)
  with u l show ?thesis by (simp add: bucket_top_def f_of_nat_def fround_def Let_def)
qed

lemma bucket_cap [simp]:
  "bucket_top (bk\<lparr>available := x\<rparr>) = bucket_top bk" "bucket_top (token_bucket_new k r) = f_of_nat F32 (unat k)"
  by (simp_all add: bucket_top_def token_bucket_new_def)

lemma bucket_okE:
  assumes "bucket_ok bk"
  obtains a c where "available bk = Fin a" "bucket_top bk = Fin c" "0 \<le> a" "a \<le> c" "fround F32 c = Fin c"
  using assms top_finite [of bk] by (cases "available bk") (auto simp: bucket_ok_def)

lemma capped_ok:
  assumes "x = NaN \<or> fle (Fin 0) x"
  shows "bucket_ok (bk\<lparr>available := fmin x (bucket_top bk)\<rparr>)"
proof -
  obtain c where "bucket_top bk = Fin c" "0 \<le> c" using top_finite [of bk] by auto
  with assms show ?thesis by (cases x) (auto simp: bucket_ok_def fmin_def)
qed

lemma grow_number:
  assumes "available bk = Fin a" "0 \<le> a" "y = NaN \<or> fle (Fin 0) y"
  shows "fadd F32 (available bk) y = NaN \<or> fle (Fin 0) (fadd F32 (available bk) y)"
  using assms by (cases y) (auto simp: fround_grows)

lemma product_number:
  assumes "fle (Fin 0) e" "\<not> fle r (Fin 0)"
  shows "fmul F32 e r = NaN \<or> fle (Fin 0) (fmul F32 e r)"
  using assms by (cases e; cases r) (auto simp: fround_grows)

lemma refill_ok:
  assumes "bucket_ok bk" "fle (Fin 0) elapsed"
  shows "bucket_ok (refill elapsed bk)"
proof (cases "fle (refill_rate bk) (Fin 0)")
  case False
  obtain a c where "available bk = Fin a" "0 \<le> a" using assms(1) by (elim bucket_okE)
  then have "fadd F32 (available bk) (fmul F32 elapsed (refill_rate bk)) = NaN \<or>
      fle (Fin 0) (fadd F32 (available bk) (fmul F32 elapsed (refill_rate bk)))"
    using product_number [OF assms(2) False] by (rule grow_number)
  from capped_ok [OF this, of bk] show ?thesis using False by (simp add: refill_def bucket_top_def)
qed (use assms in \<open>simp add: refill_def\<close>)

lemma consume_ok:
  assumes "bucket_ok bk" "fle (Fin 0) elapsed"
  shows "bucket_ok (snd (try_consume elapsed tokens bk))"
proof -
  let ?b = "refill elapsed bk"
  obtain a c where b: "available ?b = Fin a" "bucket_top ?b = Fin c" "0 \<le> a" "a \<le> c" "fround F32 c = Fin c"
    using refill_ok [OF assms] by (elim bucket_okE)
  have "f_of_nat F32 (unat tokens) = bucket_top \<lparr> capacity = tokens, available = Fin 0, refill_rate = Fin 0 \<rparr>"
    by (simp add: bucket_top_def)
  then obtain t where t: "f_of_nat F32 (unat tokens) = Fin t" "0 \<le> t" using top_finite by metis
  have "fle (fround F32 (a - t)) (Fin c)" if "t \<le> a"
    using fround_fle [of "a - t" c F32] that t(2) b(4,5) by simp
  then show ?thesis
    using refill_ok [OF assms] b t fround_grows [of "a - t" F32]
    by (auto simp: try_consume_def Let_def bucket_ok_def fsub_def)
qed

lemma release_ok:
  assumes "bucket_ok bk"
  shows "bucket_ok (release_tokens tokens bk)"
proof -
  obtain a c where a: "available bk = Fin a" "0 \<le> a" using assms by (elim bucket_okE)
  have "f_of_nat F32 (unat tokens) = NaN \<or> fle (Fin 0) (f_of_nat F32 (unat tokens))"
    unfolding f_of_nat_def by (rule disjI2, rule fround_grows, rule of_nat_0_le_iff)
  from capped_ok [OF grow_number [OF a this], of bk] show ?thesis by (simp add: release_tokens_def bucket_top_def)
qed

datatype bucket_op = Consume f32 u32 | Release u32

fun bucket_run :: "bucket_op list \<Rightarrow> token_bucket \<Rightarrow> token_bucket" where
  "bucket_run [] bk = bk"
| "bucket_run (Consume e t # ops) bk = bucket_run ops (snd (try_consume e t bk))"
| "bucket_run (Release t # ops) bk = bucket_run ops (release_tokens t bk)"

lemma bucket_run_ok:
  "bucket_ok bk \<Longrightarrow> \<forall>e t. Consume e t \<in> set ops \<longrightarrow> fle (Fin 0) e \<Longrightarrow> bucket_ok (bucket_run ops bk)"
proof (induction ops arbitrary: bk)
  case (Cons x ops)
  then show ?case by (cases x) (auto intro: consume_ok release_ok)
qed simp

lemma capacity_kept: "capacity (bucket_run ops bk) = capacity bk"
  by (induction ops bk rule: bucket_run.induct)
    (simp_all add: try_consume_def refill_def release_tokens_def Let_def)

lemma new_ok: "bucket_ok (token_bucket_new k r)"
proof -
  obtain c where "bucket_top (token_bucket_new k r) = Fin c" "0 \<le> c" using top_finite by metis
  then show ?thesis by (simp add: bucket_ok_def) (simp add: token_bucket_new_def)
qed

section \<open>A fixed budget\<close>

fun consumes :: "nat \<Rightarrow> token_bucket \<Rightarrow> bool list \<times> token_bucket" where
  "consumes 0 bk = ([], bk)"
| "consumes (Suc n) bk =
     (case try_consume (Fin 0) 1 bk of (ok, bk') \<Rightarrow> (case consumes n bk' of (oks, bk'') \<Rightarrow> (ok # oks, bk'')))"

lemma f32_nat: "n \<le> 2 ^ 24 \<Longrightarrow> fround F32 (of_nat n) = Fin (of_nat n)"
proof -
  assume n: "n \<le> 2 ^ 24"
  then have "round_rat F32 (of_nat n) = of_nat n"
    using round_rat_exact [OF representable_f32_int [of "int n"]] by simp
  moreover have "(of_nat n :: rat) \<le> of_nat (2 ^ 24)" using n by (simp only: of_nat_le_iff)
  then have "(of_nat n :: rat) < 2 ^ fmax_exp F32" by (rule le_less_trans) (simp add: power_strict_increasing_iff)
  ultimately show ?thesis by (simp add: fround_def)
qed

lemma fixed_consumes:
  assumes "available bk = Fin (of_nat a)" "a \<le> 2 ^ 24" "fle (refill_rate bk) (Fin 0)"
  shows "fst (consumes n bk) = replicate (min n a) True @ replicate (n - a) False"
  using assms
proof (induction n arbitrary: bk a)
  case (Suc n)
  have one: "f_of_nat F32 (unat (1 :: u32)) = Fin 1" by (simp add: f_of_nat_def)
  show ?case
  proof (cases a)
    case 0
    then have "try_consume (Fin 0) 1 bk = (False, bk)" using Suc.prems one by (simp add: try_consume_def refill_def)
    then show ?thesis using Suc.IH [of bk 0] Suc.prems 0 by (simp add: split_def)
  next
    case (Suc a')
    have "fsub F32 (Fin (of_nat a)) (Fin 1) = Fin (of_nat a')"
      using f32_nat [of a'] Suc Suc.prems(2) by (simp add: fsub_def)
    then have "try_consume (Fin 0) 1 bk = (True, bk\<lparr>available := Fin (of_nat a')\<rparr>)"
      using Suc.prems one Suc by (simp add: try_consume_def refill_def)
    then show ?thesis using Suc.IH [of "bk\<lparr>available := Fin (of_nat a')\<rparr>" a'] Suc.prems Suc by (simp add: split_def)
  qed
qed simp

text \<open>At \<open>2 ^ 25\<close> a unit is half a step of the format, and the difference rounds back.\<close>

lemma large_budget: "try_consume (Fin 0) 1 (token_bucket_new 33554432 (Fin 0)) = (True, token_bucket_new 33554432 (Fin 0))"
proof -
  have "fround F32 33554432 = Fin 33554432" "fround F32 33554431 = Fin 33554432" by code_simp+
  then show ?thesis
    by (simp add: try_consume_def refill_def token_bucket_new_def f_of_nat_def fsub_def Let_def)
qed

section \<open>The limit on updates\<close>

lemma token_phase_limit:
  "token_limit rt = Some m \<Longrightarrow> m \<le> tokens_used (tracker rt) \<Longrightarrow>
     token_phase rt = (Inl (GovernanceLimitExceeded ''tokens_per_session'' m (tokens_used (tracker rt) + 1)),
       rt\<lparr>tracker := (tracker rt)\<lparr>tokens_used := tokens_used (tracker rt) + 1\<rparr>\<rparr>)"
  using token_phase_cases [of rt "fst (token_phase rt)" "snd (token_phase rt)"]
  by (cases "token_phase rt") simp

section \<open>Properties\<close>

text \<open>
  C34. Whatever sequence of consumptions and refunds it sees, after any waits, a token bucket holds
  between zero and its capacity, even when its refill rate is NaN or infinite; a bucket without
  refill grants exactly its capacity, as long as that is at most \<open>2 ^ 24\<close>; from \<open>2 ^ 25\<close> on the
  subtraction is lost in the rounding and a fixed budget never runs out.
\<close>

theorem token_bucket_bounds:
  assumes "\<forall>e t. Consume e t \<in> set ops \<longrightarrow> fle (Fin 0) e"
  shows "fle (Fin 0) (available (bucket_run ops (token_bucket_new k rate))) \<and>
    fle (available (bucket_run ops (token_bucket_new k rate))) (f_of_nat F32 (unat k)) \<and>
    (unat k \<le> 2 ^ 24 \<and> fle rate (Fin 0) \<longrightarrow>
       fst (consumes n (token_bucket_new k rate)) = replicate (min n (unat k)) True @ replicate (n - unat k) False) \<and>
    try_consume (Fin 0) 1 (token_bucket_new 33554432 (Fin 0)) = (True, token_bucket_new 33554432 (Fin 0))"
proof -
  have "bucket_ok (bucket_run ops (token_bucket_new k rate))" by (rule bucket_run_ok [OF new_ok assms])
  then have 1: "fle (Fin 0) (available (bucket_run ops (token_bucket_new k rate)))"
    "fle (available (bucket_run ops (token_bucket_new k rate))) (f_of_nat F32 (unat k))"
    by (simp_all add: bucket_ok_def bucket_top_def capacity_kept) (simp_all add: token_bucket_new_def)
  have 2: "fst (consumes n (token_bucket_new k rate)) = replicate (min n (unat k)) True @ replicate (n - unat k) False"
    if "unat k \<le> 2 ^ 24" "fle rate (Fin 0)"
  proof (rule fixed_consumes [OF _ that(1)])
    show "available (token_bucket_new k rate) = Fin (of_nat (unat k))"
      unfolding token_bucket_new_def token_bucket.select_convs f_of_nat_def by (rule f32_nat [OF that(1)])
    show "fle (refill_rate (token_bucket_new k rate)) (Fin 0)" using that(2) by (simp add: token_bucket_new_def)
  qed
  note 3 = large_budget
  from 1 2 3 show ?thesis by blast
qed

theorem token_bucket_bounds_witness:
  "fle (available (bucket_run [Consume (Fin 0) 1, Release 3] (token_bucket_new 2 NaN))) (f_of_nat F32 2)"
proof -
  have "\<forall>e t. Consume e t \<in> set [Consume (Fin 0) 1, Release 3] \<longrightarrow> fle (Fin 0) e" by simp
  from token_bucket_bounds [OF this, of 2 NaN] show ?thesis by simp
qed

text \<open>
  The session limit on updates: once the counter has reached the limit of the first contract,
  every update that passes the checks before it fails with the usage in the error, and changes
  nothing but the counter; the limits of all further contracts are never consulted.
\<close>

theorem update_limit:
  assumes "contracts (engine rt) = ct # cts"
    and "pre_update (engine rt) (rt_quad rt) (key_of E rt b) ''system'' = Inr ()"
  shows "(max_tokens_per_session (governance ct) = Some m \<and> m \<le> tokens_used (tracker rt) \<longrightarrow>
      update_belief E rd b v p c rt =
        (Inl (GovernanceLimitExceeded ''tokens_per_session'' m (tokens_used (tracker rt) + 1)),
         rt\<lparr>tracker := (tracker rt)\<lparr>tokens_used := tokens_used (tracker rt) + 1\<rparr>\<rparr>)) \<and>
    (max_tokens_per_session (governance ct) = None \<or>
     (\<exists>m. max_tokens_per_session (governance ct) = Some m \<and> tokens_used (tracker rt) < m) \<longrightarrow>
      fst (token_phase rt) = Inr ())"
proof -
  have l: "token_limit rt = max_tokens_per_session (governance ct)" by (simp add: token_limit_def assms(1))
  show ?thesis
    using token_phase_limit [of rt m] token_phase_cases [of rt "fst (token_phase rt)" "snd (token_phase rt)"] l assms(2)
    by (auto simp: update_belief_def Let_def)
qed

theorem update_limit_witness:
  "fst (update_belief demo_env demo_readings key_a (Asserted ''z'') (UserStatement 1) (Fin 1)
      (with_contract ((min_contract RollbackToLastCheckpoint Hard ''a'' (1 / 2))
         \<lparr>governance := governance_default\<lparr>max_tokens_per_session := Some 0\<rparr>\<rparr>) empty_runtime)) =
   Inl (GovernanceLimitExceeded ''tokens_per_session'' 0 1)"
proof -
  let ?ct = "(min_contract RollbackToLastCheckpoint Hard ''a'' (1 / 2))
         \<lparr>governance := governance_default\<lparr>max_tokens_per_session := Some 0\<rparr>\<rparr>"
  let ?rt = "with_contract ?ct empty_runtime"
  have c: "contracts (engine ?rt) = [?ct]"
    by (simp add: with_contract_def empty_runtime_def runtime_new_def contract_engine_new_def)
  have s: "sovereignty (engine ?rt) = None" "tokens_used (tracker ?rt) = 0"
    by (simp_all add: with_contract_def empty_runtime_def runtime_new_def contract_engine_new_def governance_tracker_new_def)
  have p: "pre_update (engine ?rt) (rt_quad ?rt) (key_of demo_env ?rt key_a) ''system'' = Inr ()"
    unfolding pre_update_def c s by (simp add: check_preconditions_def min_contract_def)
  have m: "max_tokens_per_session (governance ?ct) = Some 0" by simp
  show ?thesis using update_limit [OF c p, of 0] m s by simp
qed

end
