(* ===== verification/Runtime_Retrieval.thy ===== *)
theory Runtime_Retrieval
  imports Runtime_Properties
begin

text \<open>Retrieval: what \<open>retrieve_for_query\<close> returns.\<close>

section \<open>Sorting by score\<close>

abbreviation score_ge :: "'a \<times> f32 \<Rightarrow> 'a \<times> f32 \<Rightarrow> bool" where
  "score_ge x y \<equiv> fle (snd y) (snd x)"

lemma insert_score_mset: "mset (insert_score x ys) = add_mset x (mset ys)"
  by (induction ys) auto

lemma sort_scores_mset: "mset (sort_scores xs) = mset xs"
  by (induction xs) (simp_all add: sort_scores_def insert_score_mset)

lemma sort_scores_set: "set (sort_scores xs) = set xs"
  using arg_cong [OF sort_scores_mset [of xs], of set_mset] by simp

lemma insert_score_sorted:
  assumes "sorted_wrt score_ge ys" "\<forall>y \<in> insert x (set ys). snd y \<noteq> NaN"
  shows "sorted_wrt score_ge (insert_score x ys)"
  using assms
proof (induction ys)
  case (Cons y ys)
  have s: "set (insert_score x ys) = insert x (set ys)"
    using arg_cong [OF insert_score_mset [of x ys], of set_mset] by simp
  show ?case
  proof (cases "flt (snd x) (snd y)")
    case True
    then have "score_ge y x" by (simp add: flt_fle)
    then show ?thesis using True Cons s by auto
  next
    case False
    then have "score_ge x y" using Cons.prems(2) flt_not_fle by auto
    moreover from this have "\<forall>z \<in> set ys. score_ge x z" using Cons.prems(1) fle_trans by auto
    ultimately show ?thesis using False Cons.prems(1) by simp
  qed
qed simp

lemma sort_scores_sorted: "\<forall>x \<in> set xs. snd x \<noteq> NaN \<Longrightarrow> sorted_wrt score_ge (sort_scores xs)"
proof (induction xs)
  case (Cons x xs)
  then show ?case
    using insert_score_sorted [of "sort_scores xs" x] sort_scores_set [of xs] by (simp add: sort_scores_def)
qed (simp add: sort_scores_def)

lemma sort_scores_distinct: "distinct (map fst xs) \<Longrightarrow> distinct (map fst (sort_scores xs))"
proof -
  have "mset (map fst (sort_scores xs)) = mset (map fst xs)" by (simp add: sort_scores_mset)
  then show "distinct (map fst xs) \<Longrightarrow> distinct (map fst (sort_scores xs))" using mset_eq_imp_distinct_iff by blast
qed

lemma take_dominates:
  assumes "sorted_wrt R xs" "x \<in> set (take k xs)" "y \<in> set (drop k xs)"
  shows "R x y"
  using assms by (metis append_take_drop_id sorted_wrt_append)

lemma top_dominates:
  assumes "distinct (map fst xs)" "\<forall>x \<in> set xs. snd x \<noteq> NaN" "(a, s) \<in> set xs" "(b, t) \<in> set xs"
    "a \<in> fst ` set (take k (sort_scores xs))" "b \<notin> fst ` set (take k (sort_scores xs))"
  shows "fle t s"
proof -
  let ?ss = "sort_scores xs"
  have mem: "(a, s) \<in> set ?ss" "(b, t) \<in> set ?ss" using assms(3,4) by (simp_all only: sort_scores_set)
  have inj: "inj_on fst (set ?ss)" using sort_scores_distinct [OF assms(1)] by (simp only: distinct_map)
  obtain z where z: "z \<in> set (take k ?ss)" "fst z = a" using assms(5) by auto
  have "z = (a, s)" by (rule inj_onD [OF inj]) (simp_all add: z mem in_set_takeD [OF z(1)])
  then have "(a, s) \<in> set (take k ?ss)" using z(1) by simp
  moreover have "(b, t) \<notin> set (take k ?ss)" using assms(6) by force
  then have "(b, t) \<in> set (drop k ?ss)"
    using mem(2) set_append [of "take k ?ss" "drop k ?ss"] by simp
  ultimately show ?thesis using take_dominates [OF sort_scores_sorted [OF assms(2)]] by force
qed

lemma filter_map_total: "(\<And>x. x \<in> set xs \<Longrightarrow> f x = Some (g x)) \<Longrightarrow> filter_map f xs = map g xs"
  by (induction xs) auto

context belief_lib begin

lemma quad_iter_distinct: "quad_wf L q \<Longrightarrow> distinct (map fst (quad_iter L q))"
  unfolding quad_iter_def by (rule nodes.iter_distinct) (rule wf_valid)

end

section \<open>Properties\<close>

definition live_beliefs ::
  "('s, 'a, 'b, 'c, 'd) lib \<Rightarrow> u64 \<Rightarrow> ('s, 'a, 'b, 'c, 'd) session_quad \<Rightarrow> (belief_id \<times> belief_node) list" where
  "live_beliefs L now q = filter (\<lambda>(b, n). \<not> is_expired n now) (quad_iter L q)"

definition query_embedding :: "('s, 'a, 'b, 'c, 'd) runtime \<Rightarrow> string \<Rightarrow> f32 list" where
  "query_embedding rt query =
     (case embedder rt of None \<Rightarrow> [] | Some e \<Rightarrow> (case e query of Inl _ \<Rightarrow> [] | Inr x \<Rightarrow> x))"

text \<open>
  C35. Retrieval returns one snapshot for every live belief, up to the number the budget pays for
  and at least one: each is the current state of a distinct belief that has not expired, and,
  when no score is NaN, no belief left out has a higher score than one returned. The contracts and
  the sovereignty policies of the runtime have no influence on the result, so read authorization,
  which the documentation has filter it, does not.
\<close>

theorem retrieval_top:
  assumes "belief_lib (the_lib E)" "quad_wf (the_lib E) (rt_quad rt)"
  shows "let L = the_lib E; q = rt_quad rt; res = retrieve_for_query E vs now query budget rt;
      sc = (\<lambda>(b, n). belief_score E vs now q (query_embedding rt query) b n)
    in length res = min (max (budget div 100) 1) (length (live_beliefs L now q)) \<and>
       distinct (map snap_id res) \<and>
       (\<forall>s \<in> set res. \<exists>n. quad_get L q (snap_id s) = Some n \<and> \<not> is_expired n now \<and>
          s = (from_node n (version q))\<lparr>snap_id := snap_id s\<rparr>) \<and>
       ((\<forall>x \<in> set (live_beliefs L now q). sc x \<noteq> NaN) \<longrightarrow>
          (\<forall>x \<in> set (live_beliefs L now q). \<forall>y \<in> set (live_beliefs L now q).
             fst x \<in> snap_id ` set res \<longrightarrow> fst y \<notin> snap_id ` set res \<longrightarrow> fle (sc y) (sc x))) \<and>
       (\<forall>g. retrieve_for_query E vs now query budget (rt\<lparr>engine := g\<rparr>) = res)"
proof -
  let ?L = "the_lib E" and ?q = "rt_quad rt" and ?k = "max (budget div 100) 1"
  let ?sc = "\<lambda>(b, n). belief_score E vs now ?q (query_embedding rt query) b n"
  let ?live = "live_beliefs ?L now ?q"
  let ?scored = "map (\<lambda>x. (fst x, ?sc x)) ?live"
  let ?top = "take ?k (sort_scores ?scored)"
  let ?snap = "\<lambda>b. (from_node (the (quad_get ?L ?q b)) (version ?q))\<lparr>snap_id := b\<rparr>"
  have live: "quad_get ?L ?q b = Some n \<and> \<not> is_expired n now" if "(b, n) \<in> set ?live" for b n
    using that belief_lib.iter_mem [OF assms] by (auto simp: live_beliefs_def)
  have top_sub: "set ?top \<subseteq> set ?scored"
    using set_take_subset [of ?k "sort_scores ?scored"] sort_scores_set [of ?scored] by blast
  have get: "quad_get ?L ?q (fst x) = Some (the (quad_get ?L ?q (fst x)))" if "x \<in> set ?top" for x
    using that top_sub live by fastforce
  have res: "retrieve_for_query E vs now query budget rt = map (\<lambda>x. ?snap (fst x)) ?top"
  proof -
    have "retrieve_for_query E vs now query budget rt =
        filter_map (\<lambda>(b, _). map_option (\<lambda>n. (from_node n (version ?q))\<lparr>snap_id := b\<rparr>) (quad_get ?L ?q b)) ?top"
      by (simp add: retrieve_for_query_def Let_def query_embedding_def live_beliefs_def split_def)
    also have "\<dots> = map (\<lambda>x. ?snap (fst x)) ?top"
      using get by (intro filter_map_total) (auto simp: split_def)
    finally show ?thesis .
  qed
  have ids: "map snap_id (map (\<lambda>x. ?snap (fst x)) ?top) = map fst ?top" by simp
  have "distinct (map fst (quad_iter ?L ?q))"
    by (rule belief_lib.quad_iter_distinct [OF assms])
  then have "distinct (map fst ?live)" unfolding live_beliefs_def by (rule distinct_map_filter)
  then have ds: "distinct (map fst ?scored)" by (simp add: comp_def)
  then have d: "distinct (map fst (sort_scores ?scored))" by (rule sort_scores_distinct)
  have dt: "distinct (map fst ?top)" using distinct_take [OF d, of ?k] by (simp only: take_map)
  have len: "length ?top = min ?k (length ?live)"
    using arg_cong [OF sort_scores_mset [of ?scored], of size] by simp
  have dom: "fle (?sc y) (?sc x)"
    if "\<forall>x \<in> set ?live. ?sc x \<noteq> NaN" "x \<in> set ?live" "y \<in> set ?live" "fst x \<in> fst ` set ?top" "fst y \<notin> fst ` set ?top" for x y
  proof -
    have "fst ` set ?top = fst ` set (take ?k (sort_scores ?scored))" ..
    moreover have "(fst x, ?sc x) \<in> set ?scored" "(fst y, ?sc y) \<in> set ?scored" using that(2,3) by auto
    moreover have "\<forall>x \<in> set ?scored. snd x \<noteq> NaN" using that(1) by auto
    ultimately show ?thesis using top_dominates [OF ds, of "fst x" "?sc x" "fst y" "?sc y" ?k] that(4,5) by blast
  qed
  have all: "\<forall>s \<in> set (map (\<lambda>x. ?snap (fst x)) ?top). \<exists>n. quad_get ?L ?q (snap_id s) = Some n \<and> \<not> is_expired n now \<and>
      s = (from_node n (version ?q))\<lparr>snap_id := snap_id s\<rparr>"
    using top_sub live by fastforce
  have im: "snap_id ` set (map (\<lambda>x. ?snap (fst x)) ?top) = fst ` set ?top" by force
  have "retrieve_for_query E vs now query budget (rt\<lparr>engine := g\<rparr>) = retrieve_for_query E vs now query budget rt" for g
    by (simp add: retrieve_for_query_def)
  then have free: "\<forall>g. retrieve_for_query E vs now query budget (rt\<lparr>engine := g\<rparr>) = map (\<lambda>x. ?snap (fst x)) ?top"
    unfolding res by blast
  show ?thesis
    unfolding Let_def res ids im using len dt all dom free by (intro conjI) (simp_all only: length_map, blast+)
qed

theorem retrieval_top_witness:
  "length (retrieve_for_query demo_env [] 0 ''q'' 250 demo_runtime) = 2"
proof -
  have q: "rt_quad demo_runtime = demo_session" by (simp add: demo_runtime_def runtime_new_def with_contract_def)
  have w: "belief_lib (the_lib demo_env)" "quad_wf (the_lib demo_env) (rt_quad demo_runtime)"
    using q by (simp_all add: ref_belief_lib demo_session_wf)
  have "length (live_beliefs ref_lib 0 demo_session) = 4" by code_simp
  then show ?thesis using retrieval_top [OF w, of "[]" 0 "''q''" 250] by (simp add: q Let_def)
qed

end
