(* ===== verification/Runtime_Concurrency.thy ===== *)
theory Runtime_Concurrency
  imports Runtime_Properties
begin

text \<open>
  Two updates at once. An update takes its checkpoint, revises and enforces its contracts under three
  separate acquisitions of the lock of the quad; the phases of other calls may run in between.
\<close>

lemma enforce_rollback:
  assumes "contracts (engine rt) = [ct]" "recovery ct = RollbackToLastCheckpoint"
    "\<forall>i \<in> set (invariants ct). class_of i \<noteq> Critical" "check_invariants ids ct (rt_quad rt) cp \<noteq> None"
    "rollback_to (the_lib E) (key_order E) (rt_quad rt) u = (r, q')"
  shows "\<exists>y rt'. enforce_phase E rd u k rt = (y, rt') \<and> rt_quad rt' = q' \<and>
    (case r of Inl e \<Rightarrow> y = Inl (RecoveryFailed (RollbackRefused e)) | Inr d \<Rightarrow> (\<exists>x. y = Inr (Some x)))"
proof -
  have s: "severe ct (rt_quad rt)" using assms(4) severe_check by blast
  obtain g w y where "post_update E (viol_ids rd) (audit_time rd) (engine rt) (rt_quad rt) (Some u) k ''system'' (store rt) = (y, q', g, w)"
    and "case r of Inl e \<Rightarrow> y = Inl (RecoveryFailed (RollbackRefused e)) | Inr d \<Rightarrow> (\<exists>x. y = Inr (Some x))"
    using rollback_contract [OF assms(1-3) s assms(5), where ids = "viol_ids rd" and now = "audit_time rd" and
        k = k and agent = "''system''" and w = "store rt"] by (elim exE conjE)
  then show ?thesis by (simp add: enforce_phase_def)
qed

text \<open>
  C33. A recovery undoes the work of every call that ran since its own checkpoint: the quad becomes what
  it was when that checkpoint was taken, whatever updates other calls completed in between. And it
  discards the checkpoints of the calls still running: a violation one of those then reports
  cannot be recovered, its call fails with \<open>CheckpointNotFound\<close>, and the violating state stays.
\<close>

theorem concurrent_recovery:
  assumes "contracts (engine rt2) = [ct]" "recovery ct = RollbackToLastCheckpoint"
    and "\<forall>i \<in> set (invariants ct). class_of i \<noteq> Critical"
    and "u \<notin> cp_id ` set (checkpoints (rt_quad rt))"
    and "checkpoints (rt_quad rt2) = checkpoints (snd (take_checkpoint u now (rt_quad rt))) @ later"
    and "check_invariants ids ct (rt_quad rt2) cp \<noteq> None"
    and "has_contradictions (quad_diff (the_lib E) (key_order E) (rt_quad rt2) (quad.truncate (rt_quad rt)))"
  shows "\<exists>x rt3. enforce_phase E rd u k rt2 = (Inr (Some x), rt3) \<and>
    rt_quad rt3 = with_checkpoints (quad.truncate (rt_quad rt)) [] \<and>
    (\<forall>rt4 u' rd' k'. checkpoints (rt_quad rt4) = checkpoints (rt_quad rt3) \<and> contracts (engine rt4) = [ct] \<and>
       check_invariants ids ct (rt_quad rt4) cp \<noteq> None \<longrightarrow>
       (\<exists>rt5. enforce_phase E rd' u' k' rt4 = (Inl (RecoveryFailed (RollbackRefused (CheckpointNotFound u'))), rt5) \<and>
          rt_quad rt5 = rt_quad rt4))"
proof -
  let ?q = "with_checkpoints (quad.truncate (rt_quad rt)) []"
  have "rollback_to (the_lib E) (key_order E) (rt_quad rt2) u =
      (Inr (quad_diff (the_lib E) (key_order E) (rt_quad rt2) (quad.truncate (rt_quad rt))), ?q)"
    using rollback_captured [OF assms(4,5), of "the_lib E" "key_order E"] assms(7) by simp
  from enforce_rollback [OF assms(1-3,6) this, of rd k] obtain x rt3
    where 3: "enforce_phase E rd u k rt2 = (Inr (Some x), rt3)" "rt_quad rt3 = ?q" by auto
  have "\<exists>rt5. enforce_phase E rd' u' k' rt4 = (Inl (RecoveryFailed (RollbackRefused (CheckpointNotFound u'))), rt5) \<and>
      rt_quad rt5 = rt_quad rt4"
    if "checkpoints (rt_quad rt4) = checkpoints (rt_quad rt3)" "contracts (engine rt4) = [ct]"
      "check_invariants ids ct (rt_quad rt4) cp \<noteq> None" for rt4 u' rd' k'
  proof -
    have "rollback_to (the_lib E) (key_order E) (rt_quad rt4) u' = (Inl (CheckpointNotFound u'), rt_quad rt4)"
      using that(1) 3(2) by (simp add: rollback_to_def)
    from enforce_rollback [OF that(2) assms(2,3) that(3) this, of rd' k'] show ?thesis by auto
  qed
  with 3 show ?thesis by blast
qed

theorem concurrent_recovery_witness:
  "\<exists>x rt3. enforce_phase demo_env demo_readings 7 ''a'' (snd demo_revised) = (Inr (Some x), rt3) \<and>
     rt_quad rt3 = demo_session"
proof -
  let ?ct = "min_contract RollbackToLastCheckpoint Hard ''a'' (1 / 2)"
  have c: "contracts (engine (snd demo_revised)) = [?ct]" by (simp add: demo_revised_frame demo_runtime_parts)
  have f: "7 \<notin> cp_id ` set (checkpoints (rt_quad demo_runtime))" by (simp add: demo_runtime_parts demo_session_def)
  have k: "checkpoints (rt_quad (snd demo_revised)) = checkpoints (snd (take_checkpoint 7 0 (rt_quad demo_runtime))) @ []"
    by (simp add: demo_revised_frame demo_runtime_parts)
  have s: "check_invariants (\<lambda>k. 0) ?ct (rt_quad (snd demo_revised)) None \<noteq> None"
    using demo_revised_facts(2) by (auto simp: Option.is_none_def)
  have h: "has_contradictions (quad_diff (the_lib demo_env) (key_order demo_env) (rt_quad (snd demo_revised))
      (quad.truncate (rt_quad demo_runtime)))"
    using demo_conflict by (simp add: demo_runtime_parts)
  from concurrent_recovery [OF c demo_runtime_parts(3,4) f k s h, of demo_readings "''a''"]
  have "\<exists>x rt3. enforce_phase demo_env demo_readings 7 ''a'' (snd demo_revised) = (Inr (Some x), rt3) \<and>
      rt_quad rt3 = with_checkpoints (quad.truncate demo_session) []"
    unfolding demo_runtime_parts(1) by blast
  then show ?thesis by (simp add: demo_session_def)
qed

end
