(* ===== verification/Runtime_Keys.thy ===== *)
theory Runtime_Keys
  imports Runtime_Properties
begin

text \<open>
  The key index of the runtime against the quad: what insertion establishes, and what rollback
  breaks.
\<close>

section \<open>Insertion\<close>

lemma index_frame: "key_index (index_belief_prospective E b v rt) = key_index rt"
  by (simp add: index_belief_prospective_def split: option.split sum.split)

lemma observe_frame: "key_index (observe_active_inference E b rt) = key_index rt"
  by (simp add: observe_active_inference_def split: option.split)

lemma insert_belief_effect:
  assumes "quad_insert (the_lib E) (rt_quad rt) n = (b, q)"
  shows "fst (insert_belief E n rt) = b"
    "key_index (snd (insert_belief E n rt)) = (key_index rt)(key n \<mapsto> b)"
    "nodes (rt_quad (snd (insert_belief E n rt))) = nodes q"
    "checkpoints (rt_quad (snd (insert_belief E n rt))) = checkpoints (rt_quad rt)"
proof -
  let ?rt1 = "rt\<lparr>rt_quad := q, key_index := (key_index rt)(key n \<mapsto> b)\<rparr>"
  obtain i where i: "rt_quad (index_belief_prospective E b (value n) ?rt1) = q\<lparr>prospective_index := i\<rparr>"
    using index_quad [of E b "value n" ?rt1] by auto
  have "checkpoints q = checkpoints (rt_quad rt)"
    using insert_checkpoints [of "the_lib E" "rt_quad rt" n] assms by simp
  then show "fst (insert_belief E n rt) = b"
    "key_index (snd (insert_belief E n rt)) = (key_index rt)(key n \<mapsto> b)"
    "nodes (rt_quad (snd (insert_belief E n rt))) = nodes q"
    "checkpoints (rt_quad (snd (insert_belief E n rt))) = checkpoints (rt_quad rt)"
    using i by (simp_all add: insert_belief_def assms Let_def index_frame observe_frame)
qed

text \<open>The id a slot map hands out depends on its state; \<open>same_slot\<close> says: not on the value.\<close>

definition same_slot ::
  "('s, 'a, 'b, 'c, 'd) lib \<Rightarrow> ('s, 'a, 'b, 'c, 'd) session_quad \<Rightarrow> belief_node \<Rightarrow> belief_node \<Rightarrow> bool" where
  "same_slot L q n m \<longleftrightarrow> fst (quad_insert L q n) = fst (quad_insert L q m)"

lemma insert_id_nodes: "nodes q = nodes r \<Longrightarrow> fst (quad_insert L q n) = fst (quad_insert L r n)"
  by (simp add: quad_insert_def split: prod.split)

section \<open>Rollback\<close>

lemma rolled_back:
  assumes "belief_lib (the_lib E)" "quad_wf (the_lib E) (rt_quad rt)" "\<forall>K. finite K \<longrightarrow> set (key_order E K) = K"
    and "u \<notin> cp_id ` set (checkpoints (rt_quad rt))" "key n \<notin> quad_keys (the_lib E) (rt_quad rt)"
    and ins: "insert_belief E n (snd (runtime_checkpoint u now rt)) = (b, rt2)"
    and rb: "runtime_rollback_to E u rt2 = (r, rt3)"
  shows "\<exists>d. r = Inr d" "rt_quad rt3 = with_checkpoints (quad.truncate (rt_quad rt)) []"
    "key_index rt3 = (key_index rt)(key n \<mapsto> b)" "quad_get (the_lib E) (rt_quad rt) b = None"
    "b = fst (quad_insert (the_lib E) (rt_quad rt) n)"
proof -
  let ?L = "the_lib E" and ?rt1 = "snd (runtime_checkpoint u now rt)" and ?q0 = "quad.truncate (rt_quad rt)"
  let ?q1 = "snd (take_checkpoint u now (rt_quad rt))"
  have q1: "rt_quad ?rt1 = ?q1" "key_index ?rt1 = key_index rt" "nodes ?q1 = nodes (rt_quad rt)"
    by (simp_all add: runtime_checkpoint_def take_checkpoint_def Let_def)
  have "quad_wf ?L ?q1 = quad_wf ?L (rt_quad rt)" by (rule quad_wf_cong) (simp_all add: take_checkpoint_def Let_def)
  then have w1: "quad_wf ?L ?q1" using assms(2) by simp
  obtain c q2 where i2: "quad_insert ?L ?q1 n = (c, q2)" by fastforce
  note e2 = insert_belief_effect [of E ?rt1 n c q2, unfolded q1(1), OF i2, unfolded ins fst_conv snd_conv]
  have c: "c = b" using e2(1) by simp
  have w2: "quad_wf ?L q2" by (rule belief_lib.insert_wf [OF assms(1) w1 i2])
  have cn: "quad_get ?L q2 c = Some (n\<lparr>id := c\<rparr>)" using belief_lib.insert_get(3) [OF assms(1) w1 i2] by simp
  have "(c, n\<lparr>id := c\<rparr>) \<in> set (quad_iter ?L (rt_quad rt2))"
    using belief_lib.iter_mem [OF assms(1) w2] cn e2(3) by (simp add: quad_iter_def)
  then have "key n \<in> quad_keys ?L (rt_quad rt2)" by (force simp: quad_keys_def)
  moreover have "quad_keys ?L ?q0 = quad_keys ?L (rt_quad rt)" by (simp add: quad_keys_def quad_iter_def)
  ultimately have "has_contradictions (quad_diff ?L (key_order E) (rt_quad rt2) ?q0)"
    using diff_reports [of "key_order E" ?L "rt_quad rt2" ?q0] assms(3,5) by auto
  moreover have "checkpoints (rt_quad rt2) = checkpoints ?q1 @ []" using e2(4) by simp
  ultimately have x: "rollback_to ?L (key_order E) (rt_quad rt2) u =
      (Inr (quad_diff ?L (key_order E) (rt_quad rt2) ?q0), with_checkpoints ?q0 [])"
    using rollback_captured [OF assms(4), of "rt_quad rt2" now "[]" ?L "key_order E"] by (simp only: if_True)
  show "\<exists>d. r = Inr d" "rt_quad rt3 = with_checkpoints ?q0 []" "key_index rt3 = (key_index rt)(key n \<mapsto> b)"
    using rb e2(2) q1(2) c by (auto simp: runtime_rollback_to_def x)
  have "c \<notin> beliefs ?L ?q1" by (rule belief_lib.insert_get(1) [OF assms(1) w1 i2])
  then show "quad_get ?L (rt_quad rt) b = None" using c q1(3) by (auto simp: beliefs_def quad_get_fun)
  show "b = fst (quad_insert ?L (rt_quad rt) n)"
    using insert_id_nodes [OF q1(3), of ?L n] i2 c by simp
qed

text \<open>
  A rollback does not roll the key index back: the key of a belief inserted after the
  checkpoint stays registered, the slot map hands its id out again, and the next insertion under
  another key makes the old key resolve to the new belief.
\<close>

theorem rollback_aliases_key:
  assumes "belief_lib (the_lib E)" "quad_wf (the_lib E) (rt_quad rt)" "\<And>K. finite K \<Longrightarrow> set (key_order E K) = K"
    and "u \<notin> cp_id ` set (checkpoints (rt_quad rt))"
    and "key n \<notin> quad_keys (the_lib E) (rt_quad rt)" "key m \<noteq> key n" "same_slot (the_lib E) (rt_quad rt) n m"
    and "insert_belief E n (snd (runtime_checkpoint u now rt)) = (b, rt2)"
    and "insert_belief E m (snd (runtime_rollback_to E u rt2)) = (b', rt4)"
  shows "b' = b \<and> get_by_key rt4 (key n) = Some b \<and> get_by_key rt4 (key m) = Some b \<and>
    quad_get (the_lib E) (rt_quad rt4) b = Some (m\<lparr>id := b\<rparr>)"
proof -
  let ?L = "the_lib E" and ?q3 = "with_checkpoints (quad.truncate (rt_quad rt)) []"
  obtain r rt3 where rb: "runtime_rollback_to E u rt2 = (r, rt3)" by fastforce
  have order: "\<forall>K. finite K \<longrightarrow> set (key_order E K) = K" using assms(3) by blast
  note undone = rolled_back [OF assms(1,2) order assms(4,5,8) rb]
  have "quad_wf ?L ?q3 = quad_wf ?L (rt_quad rt)" by (rule quad_wf_cong) simp_all
  then have w3: "quad_wf ?L ?q3" using assms(2) by simp
  obtain d q4 where i4: "quad_insert ?L ?q3 m = (d, q4)" by fastforce
  have ins: "insert_belief E m rt3 = (b', rt4)" using assms(9) rb by simp
  note e4 = insert_belief_effect [of E rt3 m d q4, unfolded undone(2), OF i4, unfolded ins fst_conv snd_conv]
  have "d = fst (quad_insert ?L (rt_quad rt) m)" using insert_id_nodes [of ?q3 "rt_quad rt" ?L m] i4 by simp
  also have "\<dots> = b" using assms(7) undone(5) by (simp add: same_slot_def)
  finally have d: "d = b" .
  have "quad_get ?L (rt_quad rt4) = quad_get ?L q4" using e4(3) by (simp add: quad_get_fun)
  then show ?thesis
    using belief_lib.insert_get(3) [OF assms(1) w3 i4] e4(1,2) d assms(6) undone(3) by (simp add: get_by_key_def)
qed

theorem rollback_aliases_key_witness:
  "\<exists>b rt2 rt4. insert_belief demo_env (demo_node ''x'' 1) (snd (runtime_checkpoint 7 0 empty_runtime)) = (b, rt2) \<and>
     insert_belief demo_env (demo_node ''y'' 1) (snd (runtime_rollback_to demo_env 7 rt2)) = (b, rt4) \<and>
     get_by_key rt4 ''x'' = Some b \<and> map_option key (quad_get ref_lib (rt_quad rt4) b) = Some ''y''"
proof -
  obtain b rt2 where 2: "insert_belief demo_env (demo_node ''x'' 1) (snd (runtime_checkpoint 7 0 empty_runtime)) = (b, rt2)"
    by fastforce
  obtain b' rt4 where 4: "insert_belief demo_env (demo_node ''y'' 1) (snd (runtime_rollback_to demo_env 7 rt2)) = (b', rt4)"
    by fastforce
  have k: "key (demo_node k x) = k" for k x
    by (simp add: demo_node_def with_reflection_threshold_def belief_node_new_def)
  have q: "rt_quad empty_runtime = session_new ref_lib" by (simp add: empty_runtime_def runtime_new_def)
  have s: "same_slot ref_lib (session_new ref_lib) (demo_node ''x'' 1) (demo_node ''y'' 1)" by code_simp
  have n: "quad_iter ref_lib (session_new ref_lib) = []" by code_simp
  have "b' = b \<and> get_by_key rt4 (key (demo_node ''x'' 1)) = Some b \<and> get_by_key rt4 (key (demo_node ''y'' 1)) = Some b \<and>
      quad_get (the_lib demo_env) (rt_quad rt4) b = Some ((demo_node ''y'' 1)\<lparr>id := b\<rparr>)"
  proof (rule rollback_aliases_key [OF _ _ _ _ _ _ _ 2 4])
    show "quad_wf (the_lib demo_env) (rt_quad empty_runtime)"
      using belief_lib.reachable_session_wf [OF ref_belief_lib reachable.start] by (simp add: q session_wf_def)
    show "same_slot (the_lib demo_env) (rt_quad empty_runtime) (demo_node ''x'' 1) (demo_node ''y'' 1)"
      unfolding q demo_env_lib by (rule s)
    show "key (demo_node ''x'' 1) \<notin> quad_keys (the_lib demo_env) (rt_quad empty_runtime)"
      by (simp only: q demo_env_lib quad_keys_def n list.map list.set empty_iff not_False_eq_True)
  qed (simp_all add: q k ref_belief_lib session_new_def)
  with 2 4 show ?thesis by (simp add: k)
qed

end
