(* ===== verification/Runtime_Ungoverned.thy ===== *)
theory Runtime_Ungoverned
  imports Runtime_Properties
begin

text \<open>
  A runtime without contracts and without a sovereignty policy, as the MCP server and the Python
  bindings run it: an update is its revision, System 1 and the decision on System 2.
\<close>

definition ungoverned :: "('s, 'a, 'b, 'c, 'd) runtime \<Rightarrow> bool" where
  "ungoverned rt \<longleftrightarrow> contracts (engine rt) = [] \<and> sovereignty (engine rt) = None"

lemma ungoverned_frame:
  "ungoverned (rt\<lparr>rt_quad := q\<rparr>) = ungoverned rt" "ungoverned (rt\<lparr>tracker := t\<rparr>) = ungoverned rt"
  "ungoverned (rt\<lparr>history := h\<rparr>) = ungoverned rt" "ungoverned (rt\<lparr>reflection_budget := bk\<rparr>) = ungoverned rt"
  "ungoverned (rt\<lparr>key_index := ki\<rparr>) = ungoverned rt" "ungoverned (rt\<lparr>active_inference := m\<rparr>) = ungoverned rt"
  "ungoverned (rt\<lparr>system2_activations := n\<rparr>) = ungoverned rt" "ungoverned (rt\<lparr>llm_client := l\<rparr>) = ungoverned rt"
  by (simp_all add: ungoverned_def)

lemma enforce_phase_ungoverned:
  assumes "ungoverned rt"
  shows "\<exists>g. enforce_phase E rd u k rt = (Inr None, rt\<lparr>engine := g\<rparr>) \<and> contracts g = [] \<and> sovereignty g = None"
  using assms by (cases rt) (auto simp: ungoverned_def enforce_phase_def post_update_def update_audit_def)

text \<open>The state in which the revision of an update runs.\<close>

definition revised_from :: "readings \<Rightarrow> ('s, 'a, 'b, 'c, 'd) runtime \<Rightarrow> ('s, 'a, 'b, 'c, 'd) runtime" where
  "revised_from rd rt =
     rt\<lparr>tracker := (tracker rt)\<lparr>tokens_used := tokens_used (tracker rt) + 1\<rparr>,
        rt_quad := snd (take_checkpoint (cp_uuid rd) (cp_time rd) (rt_quad rt))\<rparr>"

lemma update_ungoverned_shape:
  assumes "ungoverned rt"
  obtains (fails) e rt' where "revise_phase E rd b v p c (revised_from rd rt) = (Inl (Core (RevisionFailed e)), rt')"
      "update_belief E rd b v p c rt = (Inl (Core (RevisionFailed e)), rt')" "ungoverned rt'"
  | (finished) fast con rt' g r rt'' where "revise_phase E rd b v p c (revised_from rd rt) = (Inr (fast, con), rt')"
      "contracts g = []" "sovereignty g = None"
      "finish_phase E rd b fast con (rt'\<lparr>engine := g\<rparr>) = (r, rt'')" "update_belief E rd b v p c rt = (Inr r, rt'')" "ungoverned rt''"
proof -
  have pre: "pre_update (engine rt) (rt_quad rt) k agent = Inr ()" for k agent
    using assms by (simp add: ungoverned_def pre_update_def)
  obtain r1 rt1 where 1: "token_phase rt = (r1, rt1)" by fastforce
  have "token_limit rt = None" using assms by (simp add: token_limit_def ungoverned_def)
  then have r1: "r1 = Inr ()" "rt1 = rt\<lparr>tracker := (tracker rt)\<lparr>tokens_used := tokens_used (tracker rt) + 1\<rparr>\<rparr>"
    using token_phase_cases [OF 1] by simp_all
  obtain u rt2 where 2: "checkpoint_phase rd rt1 = (u, rt2)" by fastforce
  then have g2: "rt2 = revised_from rd rt" by (auto simp: checkpoint_phase_def revised_from_def r1(2) split: prod.splits)
  obtain r3 rt3 where 3: "revise_phase E rd b v p c rt2 = (r3, rt3)" by fastforce
  have "ungoverned rt2" using assms by (simp add: g2 revised_from_def ungoverned_frame)
  then have g3: "ungoverned rt3" "isl r3 \<Longrightarrow> \<exists>e. r3 = Inl (Core (RevisionFailed e))"
    using 3 by (auto simp: revise_phase_def Let_def ungoverned_frame split: prod.splits sum.splits)
  show thesis
  proof (cases r3)
    case (Inl x)
    then obtain e where "x = Core (RevisionFailed e)" using g3(2) by auto
    then show thesis using Inl g3(1) pre 1 2 3 r1(1) g2 by (intro fails) (auto simp: update_belief_def Let_def)
  next
    case (Inr y)
    obtain fast con where y: "y = (fast, con)" by fastforce
    obtain g where 4: "enforce_phase E rd u (key_of E rt b) rt3 = (Inr None, rt3\<lparr>engine := g\<rparr>)"
      "contracts g = []" "sovereignty g = None" using enforce_phase_ungoverned [OF g3(1)] by blast
    obtain r5 rt5 where 5: "finish_phase E rd b fast con (rt3\<lparr>engine := g\<rparr>) = (r5, rt5)" by fastforce
    moreover have "ungoverned (rt3\<lparr>engine := g\<rparr>)" using 4 by (simp add: ungoverned_def)
    ultimately have "ungoverned rt5" by (auto simp: finish_phase_def Let_def ungoverned_frame split: if_splits)
    then show thesis using pre 1 2 3 4 5 r1(1) Inr y g2 by (intro finished) (auto simp: update_belief_def Let_def)
  qed
qed

lemma update_ungoverned:
  assumes "ungoverned rt" "update_belief E rd b v p c rt = (r, rt')"
  shows "ungoverned rt' \<and> (isl r \<longrightarrow> (\<exists>e. r = Inl (Core (RevisionFailed e))))"
  by (rule update_ungoverned_shape [OF assms(1), of E rd b v p c]) (use assms(2) in auto)

lemma insert_ungoverned: "ungoverned rt \<Longrightarrow> ungoverned (snd (insert_belief E n rt))"
  by (auto simp: insert_belief_def index_belief_prospective_def observe_active_inference_def Let_def ungoverned_frame
      split: prod.split option.split sum.split)

end
