(* ===== verification/Mcp_Tasks.thy ===== *)
theory Mcp_Tasks
  imports Belief
begin

text \<open>
  The task store of the MCP server (\<open>epica-mcp/src/tasks.rs\<close>) and its event stream
  (\<open>handlers/task_stream.rs\<close>): tasks and their states, the store trait as the locale
  \<open>task_store\<close>, the in-memory store, the store over the key-value database \<open>sled\<close> with its JSON
  codec, the choice of the store from the environment, and the stream of status events.
\<close>

section \<open>Tasks\<close>

datatype task_status = Pending | Running | Completed json | Failed string

record mcp_task =
  task_id :: uuid
  task_belief_key :: string
  task_status :: task_status
  task_created_at_ms :: u64

datatype task_store_error = Backend string | Serde string

definition is_terminal :: "task_status \<Rightarrow> bool" where
  "is_terminal s = (case s of Completed r \<Rightarrow> True | Failed e \<Rightarrow> True | _ \<Rightarrow> False)"

section \<open>The trait\<close>

text \<open>
  What a store promises of one call, over the map of its tasks: a lookup answers from the map, an
  insertion overwrites, an update of an absent task does nothing. A call may fail; then the map
  stays as it was. \<open>storable\<close> names the states a store can keep.
\<close>

type_synonym task_map = "uuid \<rightharpoonup> mcp_task"

definition map_update_status :: "task_map \<Rightarrow> uuid \<Rightarrow> task_status \<Rightarrow> task_map" where
  "map_update_status m u s = (case m u of None \<Rightarrow> m | Some t \<Rightarrow> m(u \<mapsto> t\<lparr>task_status := s\<rparr>))"

locale task_store =
  fixes get :: "'s \<Rightarrow> uuid \<Rightarrow> task_store_error + mcp_task option"
    and ins :: "'s \<Rightarrow> mcp_task \<Rightarrow> (task_store_error + unit) \<times> 's"
    and upd :: "'s \<Rightarrow> uuid \<Rightarrow> task_status \<Rightarrow> (task_store_error + unit) \<times> 's"
    and tasks :: "'s \<Rightarrow> task_map"
    and invar :: "'s \<Rightarrow> bool"
    and storable :: "task_status \<Rightarrow> bool"
  assumes get_ok: "invar s \<Longrightarrow> get s u = Inr r \<Longrightarrow> r = tasks s u"
    and ins_invar: "invar s \<Longrightarrow> storable (task_status t) \<Longrightarrow> invar (snd (ins s t))"
    and ins_ok: "invar s \<Longrightarrow> storable (task_status t) \<Longrightarrow> ins s t = (Inr (), s') \<Longrightarrow>
      tasks s' = (tasks s)(task_id t \<mapsto> t)"
    and ins_fails: "invar s \<Longrightarrow> storable (task_status t) \<Longrightarrow> ins s t = (Inl e, s') \<Longrightarrow> tasks s' = tasks s"
    and upd_invar: "invar s \<Longrightarrow> storable st \<Longrightarrow> invar (snd (upd s u st))"
    and upd_ok: "invar s \<Longrightarrow> storable st \<Longrightarrow> upd s u st = (Inr (), s') \<Longrightarrow>
      tasks s' = map_update_status (tasks s) u st"
    and upd_fails: "invar s \<Longrightarrow> storable st \<Longrightarrow> upd s u st = (Inl e, s') \<Longrightarrow> tasks s' = tasks s"

text \<open>Sequences of calls, their answers, and the answers the map allows.\<close>

datatype task_call = Get uuid | Insert mcp_task | UpdateStatus uuid task_status
datatype task_answer = Found "mcp_task option" | Stored | Error task_store_error

definition stored :: "(task_store_error + unit) \<times> 's \<Rightarrow> task_answer \<times> 's" where
  "stored r = (case fst r of Inl e \<Rightarrow> Error e | Inr _ \<Rightarrow> Stored, snd r)"

fun task_calls ::
  "('s \<Rightarrow> uuid \<Rightarrow> task_store_error + mcp_task option) \<Rightarrow> ('s \<Rightarrow> mcp_task \<Rightarrow> (task_store_error + unit) \<times> 's) \<Rightarrow>
     ('s \<Rightarrow> uuid \<Rightarrow> task_status \<Rightarrow> (task_store_error + unit) \<times> 's) \<Rightarrow> task_call list \<Rightarrow> 's \<Rightarrow> task_answer list \<times> 's" where
  "task_calls g i u [] s = ([], s)"
| "task_calls g i u (c # cs) s =
     (let (a, s') = (case c of
          Get x \<Rightarrow> (case g s x of Inl e \<Rightarrow> Error e | Inr r \<Rightarrow> Found r, s)
        | Insert t \<Rightarrow> stored (i s t)
        | UpdateStatus x st \<Rightarrow> stored (u s x st));
        (as, s'') = task_calls g i u cs s'
      in (a # as, s''))"

fun storable_call :: "(task_status \<Rightarrow> bool) \<Rightarrow> task_call \<Rightarrow> bool" where
  "storable_call P (Get x) = True"
| "storable_call P (Insert t) = P (task_status t)"
| "storable_call P (UpdateStatus x st) = P st"

fun map_calls :: "task_call list \<Rightarrow> task_answer list \<Rightarrow> task_map \<Rightarrow> task_map option" where
  "map_calls [] [] m = Some m"
| "map_calls (c # cs) (Error e # as) m = map_calls cs as m"
| "map_calls (Get x # cs) (Found r # as) m = (if r = m x then map_calls cs as m else None)"
| "map_calls (Insert t # cs) (Stored # as) m = map_calls cs as (m(task_id t \<mapsto> t))"
| "map_calls (UpdateStatus x st # cs) (Stored # as) m = map_calls cs as (map_update_status m x st)"
| "map_calls _ _ m = None"

context task_store
begin

lemma calls_refine:
  "invar s \<Longrightarrow> list_all (storable_call storable) cs \<Longrightarrow> task_calls get ins upd cs s = (as, s') \<Longrightarrow>
     invar s' \<and> map_calls cs as (tasks s) = Some (tasks s')"
proof (induction cs arbitrary: s as)
  case (Cons c cs)
  show ?case
  proof (cases c)
    case (Get x)
    then show ?thesis using Cons get_ok [of s x]
      by (cases "get s x") (auto simp: Let_def split: prod.splits)
  next
    case (Insert t)
    obtain r s1 where i: "ins s t = (r, s1)" by fastforce
    have st: "storable (task_status t)" using Cons.prems(2) Insert by simp
    have v: "invar s1" using ins_invar [OF Cons.prems(1) st] i by simp
    obtain as' where c: "task_calls get ins upd cs s1 = (as', s')" "as = fst (stored (r, s1)) # as'"
      using Cons.prems(3) Insert i by (auto simp: Let_def stored_def split: prod.splits)
    have IH: "invar s' \<and> map_calls cs as' (tasks s1) = Some (tasks s')"
      using Cons.IH [OF v _ c(1)] Cons.prems(2) by simp
    show ?thesis
    proof (cases r)
      case (Inl e)
      then show ?thesis using IH c(2) ins_fails [OF Cons.prems(1) st] i by (simp add: Insert stored_def)
    next
      case (Inr y)
      then show ?thesis using IH c(2) ins_ok [OF Cons.prems(1) st] i by (simp add: Insert stored_def)
    qed
  next
    case (UpdateStatus x st)
    obtain r s1 where i: "upd s x st = (r, s1)" by fastforce
    have st: "storable st" using Cons.prems(2) UpdateStatus by simp
    have v: "invar s1" using upd_invar [OF Cons.prems(1) st, of x] i by simp
    obtain as' where c: "task_calls get ins upd cs s1 = (as', s')" "as = fst (stored (r, s1)) # as'"
      using Cons.prems(3) UpdateStatus i by (auto simp: Let_def stored_def split: prod.splits)
    have IH: "invar s' \<and> map_calls cs as' (tasks s1) = Some (tasks s')"
      using Cons.IH [OF v _ c(1)] Cons.prems(2) by simp
    show ?thesis
    proof (cases r)
      case (Inl e)
      then show ?thesis using IH c(2) upd_fails [OF Cons.prems(1) st] i by (simp add: UpdateStatus stored_def)
    next
      case (Inr y)
      then show ?thesis using IH c(2) upd_ok [OF Cons.prems(1) st] i by (simp add: UpdateStatus stored_def)
    qed
  qed
qed simp

end

section \<open>The in-memory store\<close>

type_synonym memory_store = "uuid \<rightharpoonup> mcp_task"

definition memory_new :: memory_store where
  "memory_new = Map.empty"

definition memory_get :: "memory_store \<Rightarrow> uuid \<Rightarrow> task_store_error + mcp_task option" where
  "memory_get m u = Inr (m u)"

definition memory_insert :: "memory_store \<Rightarrow> mcp_task \<Rightarrow> (task_store_error + unit) \<times> memory_store" where
  "memory_insert m t = (Inr (), m(task_id t \<mapsto> t))"

definition memory_update_status ::
  "memory_store \<Rightarrow> uuid \<Rightarrow> task_status \<Rightarrow> (task_store_error + unit) \<times> memory_store" where
  "memory_update_status m u s =
     (case m u of
        Some t \<Rightarrow> (Inr (), m(u \<mapsto> t\<lparr>task_status := s\<rparr>))
      | None \<Rightarrow> (Inr (), m))"

lemma memory_updates: "memory_update_status m u s = (Inr (), map_update_status m u s)"
  by (simp add: memory_update_status_def map_update_status_def split: option.split)

interpretation memory: task_store memory_get memory_insert memory_update_status "\<lambda>m. m" "\<lambda>m. True" "\<lambda>s. True"
  by unfold_locales
    (auto simp: memory_get_def memory_insert_def memory_update_status_def map_update_status_def split: option.splits)

section \<open>The sled store\<close>

text \<open>
  What the code calls of \<open>sled\<close> and \<open>serde_json\<close>. A database call can fail with a text. The keys are
  the sixteen bytes of the identifier, most significant first.
\<close>

record 'd sled_api =
  db_get :: "'d \<Rightarrow> u8 list \<Rightarrow> string + u8 list option"
  db_insert :: "'d \<Rightarrow> u8 list \<Rightarrow> u8 list \<Rightarrow> (string + unit) \<times> 'd"
  from_slice :: "u8 list \<Rightarrow> string + mcp_task"
  to_vec :: "mcp_task \<Rightarrow> string + u8 list"

definition sled_key :: "uuid \<Rightarrow> u8 list" where
  "sled_key u = rev (le_bytes 16 u)"

definition sled_get :: "'d sled_api \<Rightarrow> 'd \<Rightarrow> uuid \<Rightarrow> task_store_error + mcp_task option" where
  "sled_get A d u =
     (case db_get A d (sled_key u) of
        Inl e \<Rightarrow> Inl (Backend e)
      | Inr None \<Rightarrow> Inr None
      | Inr (Some bs) \<Rightarrow> (case from_slice A bs of Inl e \<Rightarrow> Inl (Serde e) | Inr t \<Rightarrow> Inr (Some t)))"

definition sled_insert :: "'d sled_api \<Rightarrow> 'd \<Rightarrow> mcp_task \<Rightarrow> (task_store_error + unit) \<times> 'd" where
  "sled_insert A d t =
     (case to_vec A t of
        Inl e \<Rightarrow> (Inl (Serde e), d)
      | Inr bs \<Rightarrow>
          (case db_insert A d (sled_key (task_id t)) bs of
             (Inl e, d') \<Rightarrow> (Inl (Backend e), d')
           | (Inr _, d') \<Rightarrow> (Inr (), d')))"

definition sled_update_status ::
  "'d sled_api \<Rightarrow> 'd \<Rightarrow> uuid \<Rightarrow> task_status \<Rightarrow> (task_store_error + unit) \<times> 'd" where
  "sled_update_status A d u s =
     (case db_get A d (sled_key u) of
        Inl e \<Rightarrow> (Inl (Backend e), d)
      | Inr None \<Rightarrow> (Inr (), d)
      | Inr (Some bs) \<Rightarrow>
          (case from_slice A bs of
             Inl e \<Rightarrow> (Inl (Serde e), d)
           | Inr t \<Rightarrow>
               (case to_vec A (t\<lparr>task_status := s\<rparr>) of
                  Inl e \<Rightarrow> (Inl (Serde e), d)
                | Inr bs' \<Rightarrow>
                    (case db_insert A d (sled_key u) bs' of
                       (Inl e, d') \<Rightarrow> (Inl (Backend e), d')
                     | (Inr _, d') \<Rightarrow> (Inr (), d')))))"

text \<open>
  What the code relies on: a successful database call reads or writes one key, a failed one changes
  nothing, and the codec reads back what it writes. \<open>codable\<close> names the states whose JSON numbers
  survive their text, which \<open>serde_json\<close> does not promise of every float.
\<close>

locale sled_library =
  fixes A :: "'d sled_api"
    and contents :: "'d \<Rightarrow> u8 list \<rightharpoonup> u8 list"
    and codable :: "task_status \<Rightarrow> bool"
  assumes reads: "db_get A d k = Inr r \<Longrightarrow> r = contents d k"
    and writes: "db_insert A d k bs = (Inr (), d') \<Longrightarrow> contents d' = (contents d)(k \<mapsto> bs)"
    and write_fails: "db_insert A d k bs = (Inl e, d') \<Longrightarrow> contents d' = contents d"
    and codec: "codable (task_status t) \<Longrightarrow> to_vec A t = Inr bs \<Longrightarrow> from_slice A bs = Inr t"

definition sled_tasks :: "'d sled_api \<Rightarrow> ('d \<Rightarrow> u8 list \<rightharpoonup> u8 list) \<Rightarrow> 'd \<Rightarrow> task_map" where
  "sled_tasks A contents d u =
     (case contents d (sled_key u) of
        None \<Rightarrow> None
      | Some bs \<Rightarrow> (case from_slice A bs of Inl _ \<Rightarrow> None | Inr t \<Rightarrow> Some t))"

lemma sled_key_inject [simp]: "sled_key u = sled_key v \<longleftrightarrow> u = v"
  by (auto simp: sled_key_def intro: le_bytes_inject)

lemma sled_update_cases:
  assumes "sled_update_status A d u st = (Inr (), d')"
  shows "db_get A d (sled_key u) = Inr None \<and> d' = d \<or>
    (\<exists>bs t bs'. db_get A d (sled_key u) = Inr (Some bs) \<and> from_slice A bs = Inr t \<and>
       to_vec A (t\<lparr>task_status := st\<rparr>) = Inr bs' \<and> db_insert A d (sled_key u) bs' = (Inr (), d'))"
  using assms by (auto simp: sled_update_status_def split: sum.splits prod.splits option.splits)

context sled_library
begin

lemma written:
  assumes "db_insert A d (sled_key u) bs = (Inr (), d')" "from_slice A bs = Inr t"
  shows "sled_tasks A contents d' = (sled_tasks A contents d)(u \<mapsto> t)"
  using assms writes [OF assms(1)] by (auto simp: sled_tasks_def fun_eq_iff)

lemma unwritten:
  "db_insert A d k bs = (Inl e, d') \<Longrightarrow> sled_tasks A contents d' = sled_tasks A contents d"
  by (simp add: sled_tasks_def fun_eq_iff write_fails)

end

sublocale sled_library \<subseteq> sled: task_store "sled_get A" "sled_insert A" "sled_update_status A"
  "sled_tasks A contents" "\<lambda>d. True" codable
proof unfold_locales
  fix s u r
  assume "sled_get A s u = Inr r"
  then show "r = sled_tasks A contents s u"
    by (auto simp: sled_get_def sled_tasks_def split: sum.splits option.splits dest!: reads)
next
  fix s t s'
  assume c: "codable (task_status t)" and "sled_insert A s t = (Inr (), s')"
  then obtain bs where "to_vec A t = Inr bs" "db_insert A s (sled_key (task_id t)) bs = (Inr (), s')"
    by (auto simp: sled_insert_def split: sum.splits prod.splits)
  with codec [OF c] show "sled_tasks A contents s' = (sled_tasks A contents s)(task_id t \<mapsto> t)"
    by (blast intro: written)
next
  fix s t e s'
  assume "sled_insert A s t = (Inl e, s')"
  then show "sled_tasks A contents s' = sled_tasks A contents s"
    by (auto simp: sled_insert_def split: sum.splits prod.splits dest: unwritten)
next
  fix s u st s'
  assume c: "codable st" and "sled_update_status A s u st = (Inr (), s')"
  from sled_update_cases [OF this(2)] consider "contents s (sled_key u) = None" "s' = s"
    | bs t bs' where "contents s (sled_key u) = Some bs" "from_slice A bs = Inr t"
        "to_vec A (t\<lparr>task_status := st\<rparr>) = Inr bs'" "db_insert A s (sled_key u) bs' = (Inr (), s')"
    by (metis reads)
  then show "sled_tasks A contents s' = map_update_status (sled_tasks A contents s) u st"
  proof cases
    case 1
    then show ?thesis by (simp add: map_update_status_def sled_tasks_def)
  next
    case 2
    have "from_slice A bs' = Inr (t\<lparr>task_status := st\<rparr>)" using c 2(3) by (intro codec) simp_all
    with 2 show ?thesis by (simp add: written map_update_status_def sled_tasks_def [of A contents s u])
  qed
next
  fix s u st e s'
  assume "sled_update_status A s u st = (Inl e, s')"
  then show "sled_tasks A contents s' = sled_tasks A contents s"
    by (auto simp: sled_update_status_def split: sum.splits prod.splits option.splits dest: unwritten)
qed simp_all

section \<open>Choice of the store\<close>

definition eq_ignore_ascii_case :: "string \<Rightarrow> string \<Rightarrow> bool" where
  "eq_ignore_ascii_case a b \<longleftrightarrow> to_lowercase a = to_lowercase b"

text \<open>
  \<open>None\<close> is the in-memory store. \<open>feature\<close> says whether the build has \<open>sled-store\<close>; \<open>open_db\<close> opens a
  database at a path.
\<close>

definition task_store_from_env :: "bool \<Rightarrow> (string \<Rightarrow> string + 'd) \<Rightarrow> string option \<Rightarrow> 'd option" where
  "task_store_from_env feature open_db env =
     (let trimmed = str_trim (case env of None \<Rightarrow> '''' | Some s \<Rightarrow> s)
      in if trimmed = [] \<or> eq_ignore_ascii_case trimmed ''memory'' \<or> eq_ignore_ascii_case trimmed ''in-memory''
         then None
         else if \<not> feature then None
         else (case strip_prefix ''sled:'' trimmed of
                 None \<Rightarrow> None
               | Some path \<Rightarrow> (case open_db path of Inl e \<Rightarrow> None | Inr d \<Rightarrow> Some d)))"

section \<open>The stream of a task\<close>

datatype sse_event = Event string string

text \<open>
  \<open>looked n\<close> is the store's answer at tick \<open>n\<close>, after its sleep; \<open>to_string\<close> the JSON text of a
  state.
\<close>

definition stream_event ::
  "(task_status \<Rightarrow> string option) \<Rightarrow> task_store_error + mcp_task option \<Rightarrow> sse_event \<times> bool" where
  "stream_event to_string answer =
     (case answer of
        Inr (Some t) \<Rightarrow>
          (Event ''status'' (case to_string (task_status t) of None \<Rightarrow> ''{}'' | Some s \<Rightarrow> s), is_terminal (task_status t))
      | _ \<Rightarrow> (Event ''error'' ''{\"error\":\"task not found\"}'', True))"

lemma tick_grows: "\<not> 300 < (tick :: u32) \<Longrightarrow> unat tick \<le> 300 \<and> unat (tick + 1) = Suc (unat tick)"
  by (auto simp: word_less_nat_alt unat_word_ariths not_less)

function task_stream_from ::
  "(task_status \<Rightarrow> string option) \<Rightarrow> (nat \<Rightarrow> task_store_error + mcp_task option) \<Rightarrow> u32 \<Rightarrow> bool \<Rightarrow> sse_event list" where
  "task_stream_from ts looked tick finished =
     (if finished \<or> 300 < tick then []
      else (let (ev, next_done) = stream_event ts (looked (unat tick))
            in ev # task_stream_from ts looked (tick + 1) next_done))"
  by pat_completeness auto

termination
  by (relation "measure (\<lambda>(_, _, tick, _). 301 - unat tick)") (auto dest!: tick_grows)

definition task_stream ::
  "(task_status \<Rightarrow> string option) \<Rightarrow> (nat \<Rightarrow> task_store_error + mcp_task option) \<Rightarrow> sse_event list" where
  "task_stream ts looked = task_stream_from ts looked 0 False"

section \<open>Properties\<close>

declare task_stream_from.simps [simp del]

lemma stream_from:
  "unat tick \<le> 301 \<Longrightarrow>
     \<exists>n. unat tick \<le> n \<and> n \<le> 301 \<and> (unat tick < 301 \<longrightarrow> unat tick < n) \<and>
       task_stream_from ts looked tick False = map (\<lambda>k. fst (stream_event ts (looked k))) [unat tick..<n] \<and>
       (\<forall>k. unat tick \<le> k \<and> Suc k < n \<longrightarrow> \<not> snd (stream_event ts (looked k))) \<and>
       (n = 301 \<or> snd (stream_event ts (looked (n - 1))))"
proof (induction ts looked tick False rule: task_stream_from.induct)
  case (1 ts looked tick)
  obtain ev stop where e: "stream_event ts (looked (unat tick)) = (ev, stop)" by fastforce
  show ?case
  proof (cases "300 < tick")
    case True
    then have "unat tick = 301" using 1(2) by (simp add: word_less_nat_alt)
    then show ?thesis using True by (intro exI [of _ 301]) (auto simp: task_stream_from.simps)
  next
    case False
    note g = tick_grows [OF this]
    have unfolded: "task_stream_from ts looked tick False = ev # task_stream_from ts looked (tick + 1) stop"
      by (subst task_stream_from.simps) (simp add: False e)
    show ?thesis
    proof (cases stop)
      case True
      have "task_stream_from ts looked (tick + 1) True = []" by (simp add: task_stream_from.simps)
      then show ?thesis using g e unfolded True by (intro exI [of _ "Suc (unat tick)"]) auto
    next
      case running: False
      from 1(1) [OF _ e [symmetric]] False running g obtain n where n: "Suc (unat tick) \<le> n" "n \<le> 301"
        "task_stream_from ts looked (tick + 1) False = map (\<lambda>k. fst (stream_event ts (looked k))) [Suc (unat tick)..<n]"
        "\<forall>k. Suc (unat tick) \<le> k \<and> Suc k < n \<longrightarrow> \<not> snd (stream_event ts (looked k))"
        "n = 301 \<or> snd (stream_event ts (looked (n - 1)))"
        by auto
      have "\<not> snd (stream_event ts (looked k))" if "unat tick \<le> k" "Suc k < n" for k
        using that n(4) e running by (cases "k = unat tick") auto
      moreover have "ev # map (\<lambda>k. fst (stream_event ts (looked k))) [Suc (unat tick)..<n] =
          map (\<lambda>k. fst (stream_event ts (looked k))) [unat tick..<n]"
        using n(1) e by (simp add: upt_conv_Cons)
      ultimately show ?thesis using n running unfolded by (intro exI [of _ n]) auto
    qed
  qed
qed

text \<open>
  Every stream ends. It yields the events of ticks \<open>0\<close> to \<open>n - 1\<close>, at least one and at most
  301, stops right after the first tick at which the task is gone or in a final state, and only then
  or after 301 ticks.
\<close>

theorem stream_terminates:
  "\<exists>n. 0 < n \<and> n \<le> 301 \<and>
     task_stream ts looked = map (\<lambda>k. fst (stream_event ts (looked k))) [0..<n] \<and>
     (\<forall>k. Suc k < n \<longrightarrow> (\<exists>t. looked k = Inr (Some t) \<and> \<not> is_terminal (task_status t))) \<and>
     (n = 301 \<or> (\<forall>t. looked (n - 1) = Inr (Some t) \<longrightarrow> is_terminal (task_status t)))"
proof -
  have stop: "snd (stream_event ts a) \<longleftrightarrow> (\<forall>t. a = Inr (Some t) \<longrightarrow> is_terminal (task_status t))" for a
    by (auto simp: stream_event_def split: sum.split option.split)
  obtain n where "0 < n" "n \<le> 301" "task_stream ts looked = map (\<lambda>k. fst (stream_event ts (looked k))) [0..<n]"
    "\<forall>k. Suc k < n \<longrightarrow> \<not> snd (stream_event ts (looked k))" "n = 301 \<or> snd (stream_event ts (looked (n - 1)))"
    using stream_from [of 0 ts looked] unfolding task_stream_def by auto
  then show ?thesis unfolding stop by blast
qed

definition demo_task :: "task_status \<Rightarrow> mcp_task" where
  "demo_task s = \<lparr> task_id = 5, task_belief_key = ''sky'', task_status = s, task_created_at_ms = 9 \<rparr>"

theorem stream_terminates_witness:
  "\<exists>n. 0 < n \<and> n \<le> 301 \<and>
     length (task_stream (\<lambda>s. None) (\<lambda>n. Inr (Some (demo_task (if n < 2 then Running else Failed ''timeout''))))) = n \<and> n = 3"
proof -
  let ?looked = "\<lambda>n :: nat. Inr (Some (demo_task (if n < 2 then Running else Failed ''timeout''))) :: task_store_error + mcp_task option"
  obtain n where n: "0 < n" "n \<le> 301"
    "task_stream (\<lambda>s. None) ?looked = map (\<lambda>k. fst (stream_event (\<lambda>s. None) (?looked k))) [0..<n]"
    "\<forall>k. Suc k < n \<longrightarrow> (\<exists>t. ?looked k = Inr (Some t) \<and> \<not> is_terminal (task_status t))"
    "n = 301 \<or> (\<forall>t. ?looked (n - 1) = Inr (Some t) \<longrightarrow> is_terminal (task_status t))"
    using stream_terminates [of "\<lambda>s. None" ?looked] by blast
  have "n \<le> 3"
  proof (rule ccontr)
    assume "\<not> n \<le> 3"
    then have "Suc 2 < n" by simp
    with n(4) have "\<not> is_terminal (task_status (demo_task (Failed ''timeout'')))" by fastforce
    then show False by (simp add: demo_task_def is_terminal_def)
  qed
  with n(5) have "is_terminal (task_status (demo_task (if n - 1 < 2 then Running else Failed ''timeout'')))" by auto
  with \<open>n \<le> 3\<close> n(1) have "n = 3" by (auto simp: demo_task_def is_terminal_def split: if_splits)
  then show ?thesis using n(3) by auto
qed

context sled_library
begin

lemma refines:
  "list_all (storable_call codable) cs \<Longrightarrow>
     task_calls (sled_get A) (sled_insert A) (sled_update_status A) cs d = (as, d') \<Longrightarrow>
     map_calls cs as (sled_tasks A contents d) = Some (sled_tasks A contents d')"
  using sled.calls_refine [OF TrueI] by blast

end

lemma map_calls_memory:
  "map_calls cs as m = Some m' \<Longrightarrow> (\<And>e. Error e \<notin> set as) \<Longrightarrow>
     task_calls memory_get memory_insert memory_update_status cs m = (as, m')"
  by (induction cs as m rule: map_calls.induct)
    (auto simp: memory_get_def memory_insert_def memory_updates stored_def split: if_splits)

text \<open>
  C17. The store over \<open>sled\<close> keeps the promise of its trait whatever fails: through any sequence of
  calls each answer is the one of a map from identifiers to tasks, where a call that fails changes
  nothing; and when no call fails, the answers and the tasks are those of the in-memory store, so
  the two are interchangeable.
\<close>

theorem sled_refines_memory:
  assumes "sled_library A contents codable" "list_all (storable_call codable) cs"
    "task_calls (sled_get A) (sled_insert A) (sled_update_status A) cs d = (as, d')"
  shows "map_calls cs as (sled_tasks A contents d) = Some (sled_tasks A contents d') \<and>
    ((\<forall>e. Error e \<notin> set as) \<longrightarrow>
       task_calls memory_get memory_insert memory_update_status cs (sled_tasks A contents d) =
         (as, sled_tasks A contents d'))"
  using sled_library.refines [OF assms] map_calls_memory by blast

text \<open>
  A database that refuses blobs of more than a hundred bytes, with a codec for the states without
  payload.
\<close>

definition demo_sled :: "(u8 list \<rightharpoonup> u8 list) sled_api" where
  "demo_sled =
     \<lparr> db_get = (\<lambda>d k. Inr (d k)),
       db_insert = (\<lambda>d k bs. if 100 < length bs then (Inl ''full'', d) else (Inr (), d(k \<mapsto> bs))),
       from_slice = (\<lambda>bs. Inr \<lparr> task_id = of_nat (of_le_bytes (take 16 bs)),
         task_belief_key = map (\<lambda>b. char_of (unat b)) (drop 25 bs),
         task_status = (if bs ! 24 = 0 then Pending else Running),
         task_created_at_ms = of_nat (of_le_bytes (take 8 (drop 16 bs))) \<rparr>),
       to_vec = (\<lambda>t. Inr (le_bytes 16 (task_id t) @ le_bytes 8 (task_created_at_ms t) @
         [if task_status t = Pending then 0 else 1] @ map (\<lambda>c. of_nat (of_char c)) (task_belief_key t))) \<rparr>"

definition demo_codable :: "task_status \<Rightarrow> bool" where
  "demo_codable s \<longleftrightarrow> s \<in> {Pending, Running}"

lemma demo_sled_library: "sled_library demo_sled (\<lambda>d. d) demo_codable"
proof
  fix t bs
  assume "demo_codable (task_status t)" "to_vec demo_sled t = Inr bs"
  moreover have "map ((\<lambda>b. char_of (unat b)) \<circ> (\<lambda>c. of_nat (of_char c) :: u8)) k = k" for k :: string
    by (rule map_idI) (simp add: unat_of_nat)
  ultimately show "from_slice demo_sled bs = Inr t"
    by (cases t) (auto simp: demo_sled_def demo_codable_def nth_append of_le_bytes_inverse)
qed (auto simp: demo_sled_def split: if_splits)

interpretation demo_tasks: sled_library demo_sled "\<lambda>d. d" demo_codable
  by (rule demo_sled_library)

theorem sled_refines_memory_witness:
  "\<exists>as d'. task_calls (sled_get demo_sled) (sled_insert demo_sled) (sled_update_status demo_sled)
       [Insert (demo_task Pending), UpdateStatus 5 Running, Get 5, Get 6] Map.empty = (as, d') \<and>
     map_calls [Insert (demo_task Pending), UpdateStatus 5 Running, Get 5, Get 6] as Map.empty =
       Some (sled_tasks demo_sled (\<lambda>d. d) d')"
proof -
  let ?cs = "[Insert (demo_task Pending), UpdateStatus 5 Running, Get 5, Get 6]"
  obtain as d' where r: "task_calls (sled_get demo_sled) (sled_insert demo_sled) (sled_update_status demo_sled)
      ?cs Map.empty = (as, d')" by fastforce
  have "list_all (storable_call demo_codable) ?cs" by (simp add: demo_task_def demo_codable_def)
  moreover have "sled_tasks demo_sled (\<lambda>d. d) Map.empty = Map.empty" by (simp add: sled_tasks_def fun_eq_iff)
  ultimately show ?thesis using sled_refines_memory [OF demo_sled_library _ r] r by auto
qed

end
