(* ===== verification/Mcp_Http.thy ===== *)
theory Mcp_Http
  imports Mcp_Tasks
begin

text \<open>
  The HTTP front of the MCP server: requests and the text of headers, bearer authentication and key
  publication (\<open>epica-mcp/src/auth.rs\<close>), rate limiting and CORS (\<open>middleware.rs\<close>), errors
  (\<open>error.rs\<close>), the route table and the order of the layers (\<open>server.rs\<close>). The JWT and RSA crates, the
  rate limiter \<open>governor\<close>, the CORS and trace layers of \<open>tower-http\<close> are parameters.
\<close>

section \<open>Requests and responses\<close>

text \<open>Header names are in lower case; \<open>header_get\<close> returns the first value of a name.\<close>

record request =
  req_method :: string
  req_path :: string
  req_headers :: "(string \<times> string) list"

datatype http_body = Json json | Text string

record response =
  resp_status :: nat
  resp_body :: http_body

definition header_get :: "request \<Rightarrow> string \<Rightarrow> string option" where
  "header_get req h = map_of (req_headers req) h"

text \<open>\<open>to_str\<close>: a header value is text when all its bytes are visible ASCII or tabs.\<close>

definition header_str :: "string \<Rightarrow> string option" where
  "header_str v =
     (if list_all (\<lambda>c. let n = (of_char c :: nat) in 32 \<le> n \<and> n < 127 \<or> n = 9) v then Some v else None)"

definition error_response :: "nat \<Rightarrow> string \<Rightarrow> response" where
  "error_response code message = \<lparr> resp_status = code, resp_body = Json (JObject [(''error'', JString message)]) \<rparr>"

section \<open>Errors\<close>

datatype mcp_error =
    McpNotFound string
  | McpRuntime string
  | McpSerialization string
  | McpTaskNotFound uuid
  | McpBadRequest string

text \<open>\<open>uuid_text\<close> is the text form of an identifier.\<close>

definition mcp_error_text :: "(uuid \<Rightarrow> string) \<Rightarrow> mcp_error \<Rightarrow> string" where
  "mcp_error_text uuid_text e =
     (case e of
        McpNotFound k \<Rightarrow> ''belief not found: '' @ k
      | McpRuntime m \<Rightarrow> ''runtime error: '' @ m
      | McpSerialization m \<Rightarrow> ''serialization error: '' @ m
      | McpTaskNotFound u \<Rightarrow> ''task not found: '' @ uuid_text u
      | McpBadRequest m \<Rightarrow> ''bad request: '' @ m)"

definition into_response :: "(uuid \<Rightarrow> string) \<Rightarrow> mcp_error \<Rightarrow> response" where
  "into_response uuid_text e =
     (case e of
        McpNotFound k \<Rightarrow> error_response 404 (mcp_error_text uuid_text e)
      | McpTaskNotFound u \<Rightarrow> error_response 404 (mcp_error_text uuid_text e)
      | McpBadRequest m \<Rightarrow> error_response 400 m
      | _ \<Rightarrow> error_response 500 (mcp_error_text uuid_text e))"

section \<open>Authentication\<close>

record jwt_claims =
  sub :: string
  exp :: u64
  iat :: u64
  scope :: "string list"

datatype jwt_algorithm = Hs256 string | Rs256 string string

record auth_config =
  algorithm :: jwt_algorithm
  audience :: string
  issuer :: string
  disabled :: bool

text \<open>
  What the code calls of \<open>jsonwebtoken\<close> and \<open>rsa\<close>: keys from their text, the decoder for an algorithm,
  an audience and an issuer, and the modulus and exponent of a public key in either of two encodings.
  Errors are texts.
\<close>

datatype alg = HS256 | RS256

record 'k jwt_api =
  from_secret :: "string \<Rightarrow> 'k"
  from_rsa_pem :: "string \<Rightarrow> string + 'k"
  decode :: "alg \<Rightarrow> string \<Rightarrow> string \<Rightarrow> 'k \<Rightarrow> string \<Rightarrow> string + jwt_claims"
  public_key_pem :: "string \<Rightarrow> string + u8 list \<times> u8 list"
  pkcs1_pem :: "string \<Rightarrow> string + u8 list \<times> u8 list"

definition auth_config_disabled :: auth_config where
  "auth_config_disabled =
     \<lparr> algorithm = Hs256 '''', audience = ''epica'', issuer = ''epica'', disabled = True \<rparr>"

definition or_default :: "string \<Rightarrow> string option \<Rightarrow> string" where
  "or_default d v = (case v of None \<Rightarrow> d | Some s \<Rightarrow> s)"

text \<open>\<open>env\<close> reads an environment variable, \<open>read_file\<close> a file; \<open>Inl\<close> is a panic.\<close>

definition auth_config_from_env ::
  "(string \<Rightarrow> string option) \<Rightarrow> (string \<Rightarrow> string + string) \<Rightarrow> string + auth_config" where
  "auth_config_from_env env read_file =
     (let aud = or_default ''epica'' (env ''EPICA_JWT_AUDIENCE'');
          iss = or_default ''epica'' (env ''EPICA_JWT_ISSUER'');
          off = (case env ''EPICA_NO_AUTH'' of None \<Rightarrow> False | Some v \<Rightarrow> v = ''1'' \<or> eq_ignore_ascii_case v ''true'');
          alg_str = or_default ''hs256'' (env ''EPICA_JWT_ALG'');
          config = (\<lambda>a. \<lparr> algorithm = a, audience = aud, issuer = iss, disabled = off \<rparr>)
      in if eq_ignore_ascii_case alg_str ''rs256''
         then (case
             (case env ''EPICA_JWT_RSA_PEM'' of
                Some pem \<Rightarrow> Inr pem
              | None \<Rightarrow>
                  (case env ''EPICA_JWT_RSA_PEM_FILE'' of
                     Some path \<Rightarrow>
                       (case read_file path of
                          Inl e \<Rightarrow> Inl (''failed to read EPICA_JWT_RSA_PEM_FILE='' @ path @ '': '' @ e)
                        | Inr pem \<Rightarrow> Inr pem)
                   | None \<Rightarrow> Inl ''RS256 mode requires EPICA_JWT_RSA_PEM or EPICA_JWT_RSA_PEM_FILE to be set''))
           of Inl e \<Rightarrow> Inl e
            | Inr pem \<Rightarrow> Inr (config (Rs256 pem (or_default ''epica-rs256-1'' (env ''EPICA_JWT_KID'')))))
         else Inr (config (Hs256 (or_default ''epica-dev-secret-change-in-production'' (env ''EPICA_JWT_SECRET'')))))"

definition validate_jwt :: "'k jwt_api \<Rightarrow> string \<Rightarrow> auth_config \<Rightarrow> string + jwt_claims" where
  "validate_jwt J token cfg =
     (let finish = (\<lambda>r. case r of Inl e \<Rightarrow> Inl (''invalid JWT: '' @ e) | Inr c \<Rightarrow> Inr c)
      in case algorithm cfg of
           Hs256 secret \<Rightarrow> finish (decode J HS256 (audience cfg) (issuer cfg) (from_secret J secret) token)
         | Rs256 pem kid \<Rightarrow>
             (case from_rsa_pem J pem of
                Inl e \<Rightarrow> Inl (''invalid RSA public key PEM: '' @ e)
              | Inr k \<Rightarrow> finish (decode J RS256 (audience cfg) (issuer cfg) k token)))"

definition exempt_path :: "string \<Rightarrow> bool" where
  "exempt_path p \<longleftrightarrow> strip_prefix ''/.well-known/'' p \<noteq> None \<or> p = ''/health'' \<or> p = ''/ready'' \<or> p = ''/metrics''"

definition bearer_token :: "request \<Rightarrow> string option" where
  "bearer_token req =
     Option.bind (Option.bind (header_get req ''authorization'') header_str) (strip_prefix ''Bearer '')"

definition check_auth :: "'k jwt_api \<Rightarrow> request \<Rightarrow> auth_config \<Rightarrow> response + unit" where
  "check_auth J req cfg =
     (if disabled cfg then Inr ()
      else if exempt_path (req_path req) then Inr ()
      else (case bearer_token req of
              None \<Rightarrow> Inl (error_response 401 ''missing Authorization: Bearer <token> header'')
            | Some token \<Rightarrow>
                (case validate_jwt J token cfg of
                   Inl e \<Rightarrow> Inl (error_response 401 e)
                 | Inr _ \<Rightarrow> Inr ())))"

section \<open>Key publication\<close>

definition base64_table :: string where
  "base64_table = ''ABCDEFGHIJKLMNOPQRSTUVWXYZabcdefghijklmnopqrstuvwxyz0123456789-_''"

definition base64_char :: "nat \<Rightarrow> char" where
  "base64_char i = base64_table ! i"

fun base64url :: "u8 list \<Rightarrow> string" where
  "base64url [] = []"
| "base64url [b0] = [base64_char (unat b0 div 4), base64_char ((unat b0 mod 4) * 16)]"
| "base64url [b0, b1] =
     [base64_char (unat b0 div 4), base64_char ((unat b0 mod 4) * 16 + unat b1 div 16),
      base64_char ((unat b1 mod 16) * 4)]"
| "base64url (b0 # b1 # b2 # bs) =
     [base64_char (unat b0 div 4), base64_char ((unat b0 mod 4) * 16 + unat b1 div 16),
      base64_char ((unat b1 mod 16) * 4 + unat b2 div 64), base64_char (unat b2 mod 64)] @ base64url bs"

definition extract_rsa_jwk :: "'k jwt_api \<Rightarrow> string \<Rightarrow> string \<Rightarrow> string + json" where
  "extract_rsa_jwk J pem kid =
     (case (case public_key_pem J pem of Inr k \<Rightarrow> Inr k | Inl _ \<Rightarrow> pkcs1_pem J pem) of
        Inl e \<Rightarrow> Inl (''failed to parse RSA public key PEM: '' @ e)
      | Inr (n, e) \<Rightarrow>
          Inr (JObject [(''kty'', JString ''RSA''), (''use'', JString ''sig''), (''alg'', JString ''RS256''),
                        (''kid'', JString kid), (''n'', JString (base64url n)), (''e'', JString (base64url e))]))"

text \<open>The note of the symmetric key is \<open>note_text\<close>, whose text has a character outside ASCII.\<close>

definition jwks_response :: "string \<Rightarrow> 'k jwt_api \<Rightarrow> auth_config \<Rightarrow> json" where
  "jwks_response note_text J cfg =
     (case algorithm cfg of
        Hs256 secret \<Rightarrow>
          JObject [(''keys'', JArray [JObject
            [(''kty'', JString ''oct''), (''use'', JString ''sig''), (''alg'', JString ''HS256''),
             (''kid'', JString ''epica-dev-1''), (''_note'', JString note_text)]])]
      | Rs256 pem kid \<Rightarrow>
          (case extract_rsa_jwk J pem kid of
             Inr jwk \<Rightarrow> JObject [(''keys'', JArray [jwk])]
           | Inl e \<Rightarrow> JObject [(''keys'', JArray []), (''error'', JString (''JWK serialization failed: '' @ e))]))"

section \<open>Layers\<close>

text \<open>
  A service answers a request and changes the server's state, a layer wraps a service. The state is
  that of the rate limiter and that of the application.
\<close>

record ('l, 'a) server =
  limiter :: 'l
  app :: 'a

type_synonym 's service = "request \<Rightarrow> 's \<Rightarrow> response \<times> 's"
type_synonym 's layer = "'s service \<Rightarrow> 's service"

text \<open>The limiter of \<open>governor\<close>: whether a key may pass, and its state afterwards.\<close>

record ('ip, 'l) limiter_api =
  parse_ip :: "string \<Rightarrow> 'ip option"
  localhost :: 'ip
  check_key :: "'l \<Rightarrow> 'ip \<Rightarrow> bool \<times> 'l"

definition limiter_quota :: "u32 \<Rightarrow> u32" where
  "limiter_quota requests_per_second = max requests_per_second 1"

definition extract_client_ip :: "('ip, 'l) limiter_api \<Rightarrow> request \<Rightarrow> 'ip" where
  "extract_client_ip G req =
     (case Option.bind (Option.bind (header_get req ''x-forwarded-for'') header_str)
             (\<lambda>s. parse_ip G (str_trim (takeWhile (\<lambda>c. c \<noteq> CHR '','') s))) of
        None \<Rightarrow> localhost G
      | Some ip \<Rightarrow> ip)"

text \<open>The dash in the refusal's text is outside ASCII; \<open>refusal\<close> is that text.\<close>

definition rate_limit_middleware :: "string \<Rightarrow> ('ip, 'l) limiter_api \<Rightarrow> ('l, 'a) server layer" where
  "rate_limit_middleware refusal G next_svc req s =
     (if exempt_path (req_path req) then next_svc req s
      else (case check_key G (limiter s) (extract_client_ip G req) of
              (True, l) \<Rightarrow> next_svc req (s\<lparr>limiter := l\<rparr>)
            | (False, l) \<Rightarrow> (error_response 429 refusal, s\<lparr>limiter := l\<rparr>)))"

definition auth_layer :: "'k jwt_api \<Rightarrow> auth_config \<Rightarrow> ('l, 'a) server layer" where
  "auth_layer J cfg next_svc req s =
     (case check_auth J req cfg of Inr _ \<Rightarrow> next_svc req s | Inl resp \<Rightarrow> (resp, s))"

text \<open>The middleware function \<open>auth_middleware\<close> reads the configuration a request carries, if any.\<close>

definition auth_middleware :: "'k jwt_api \<Rightarrow> auth_config option \<Rightarrow> ('l, 'a) server layer" where
  "auth_middleware J ext = auth_layer J (case ext of None \<Rightarrow> auth_config_disabled | Some c \<Rightarrow> c)"

datatype cors_config = Permissive | Origins "string list"

definition cors_layer :: "(string \<Rightarrow> string option) \<Rightarrow> string option \<Rightarrow> cors_config" where
  "cors_layer parse_header env =
     (case env of
        None \<Rightarrow> Permissive
      | Some origins \<Rightarrow>
          (let valid = filter_map (\<lambda>s. parse_header (str_trim s)) (split_on CHR '','' origins)
           in if valid = [] then Permissive else Origins valid))"

section \<open>Routes\<close>

datatype endpoint =
    Health | Ready | Metrics | ServerCard | Jwks
  | BeliefGet string | BeliefSet | TaskGet string | TaskStream string
  | Checkpoint | Rollback | ContractStatus | Query | Counterfactual | Diff | VisualizeDot
  | MethodNotAllowed | NoRoute

definition on_get :: "string \<Rightarrow> endpoint \<Rightarrow> endpoint" where
  "on_get m e = (if m = ''GET'' \<or> m = ''HEAD'' then e else MethodNotAllowed)"

definition on_post :: "string \<Rightarrow> endpoint \<Rightarrow> endpoint" where
  "on_post m e = (if m = ''POST'' then e else MethodNotAllowed)"

definition route :: "string \<Rightarrow> string \<Rightarrow> endpoint" where
  "route m p =
     (if p = ''/health'' then on_get m Health
      else if p = ''/ready'' then on_get m Ready
      else if p = ''/metrics'' then on_get m Metrics
      else if p = ''/.well-known/epica-server-card.json'' then on_get m ServerCard
      else if p = ''/.well-known/jwks.json'' then on_get m Jwks
      else if p = ''/v1/beliefs'' then on_post m BeliefSet
      else if p = ''/v1/checkpoint'' then on_post m Checkpoint
      else if p = ''/v1/rollback'' then on_post m Rollback
      else if p = ''/v1/contract/status'' then on_get m ContractStatus
      else if p = ''/v1/query'' then on_post m Query
      else if p = ''/v1/counterfactual'' then on_post m Counterfactual
      else if p = ''/v1/diff'' then on_post m Diff
      else if p = ''/v1/visualize/dot'' then on_get m VisualizeDot
      else (case split_on CHR ''/'' p of
              [a, v, kind, x] \<Rightarrow>
                (if a = [] \<and> v = ''v1'' \<and> x \<noteq> []
                 then (if kind = ''beliefs'' then on_get m (BeliefGet x)
                       else if kind = ''tasks'' then on_get m (TaskGet x) else NoRoute)
                 else NoRoute)
            | [a, v, kind, x, y] \<Rightarrow>
                (if a = [] \<and> v = ''v1'' \<and> kind = ''tasks'' \<and> x \<noteq> [] \<and> y = ''stream''
                 then on_get m (TaskStream x) else NoRoute)
            | _ \<Rightarrow> NoRoute))"

text \<open>
  \<open>Router::layer\<close>: each layer added wraps what is there, so the last one added sees a request first.
  \<open>handle\<close> is the handler of an endpoint; \<open>cors\<close> and \<open>trace\<close> are the layers of the library.
\<close>

definition add_layers :: "'s service \<Rightarrow> 's layer list \<Rightarrow> 's service" where
  "add_layers svc ls = foldl (\<lambda>s l. l s) svc ls"

definition build_router ::
  "'k jwt_api \<Rightarrow> string \<Rightarrow> ('ip, 'l) limiter_api \<Rightarrow> ('l, 'a) server layer \<Rightarrow> ('l, 'a) server layer \<Rightarrow> auth_config \<Rightarrow>
     (endpoint \<Rightarrow> request \<Rightarrow> 'a \<Rightarrow> response \<times> 'a) \<Rightarrow> ('l, 'a) server service" where
  "build_router J refusal G cors trace cfg handle =
     add_layers
       (\<lambda>req s. case handle (route (req_method req) (req_path req)) req (app s) of (r, a) \<Rightarrow> (r, s\<lparr>app := a\<rparr>))
       [rate_limit_middleware refusal G, auth_layer J cfg, cors, trace]"

section \<open>Properties\<close>

definition infrastructure :: "endpoint set" where
  "infrastructure = {Health, Ready, Metrics, ServerCard, Jwks, MethodNotAllowed, NoRoute}"

lemma exempt_routes:
  assumes "exempt_path p"
  shows "route m p \<in> infrastructure"
proof -
  consider r where "p = ''/.well-known/'' @ r" | "p = ''/health''" | "p = ''/ready''" | "p = ''/metrics''"
    using assms by (auto simp: exempt_path_def strip_prefix_Some)
  then show ?thesis
  proof cases
    case 1
    have "split_on CHR ''/'' p = [] # ''.well-known'' # split_on CHR ''/'' r"
      using split_on_append [of "CHR ''/''" "''.well-known''" r] 1 by simp
    then show ?thesis
      using 1 by (simp add: route_def infrastructure_def on_get_def split: list.split)
  qed (simp_all add: route_def infrastructure_def on_get_def)
qed

text \<open>What is assumed of the library's layers: they answer themselves or hand the request on as it is.\<close>

definition forwards :: "'s layer \<Rightarrow> bool" where
  "forwards l \<longleftrightarrow> (\<forall>svc req s. snd (l svc req s) \<in> {s, snd (svc req s)})"

definition routed_service ::
  "(endpoint \<Rightarrow> request \<Rightarrow> 'a \<Rightarrow> response \<times> 'a) \<Rightarrow> ('l, 'a) server service" where
  "routed_service handle req s =
     (case handle (route (req_method req) (req_path req)) req (app s) of (r, a) \<Rightarrow> (r, s\<lparr>app := a\<rparr>))"

lemma build_router_layers:
  "build_router J refusal G cors trace cfg handle =
     trace (cors (auth_layer J cfg (rate_limit_middleware refusal G (routed_service handle))))"
  by (simp add: build_router_def add_layers_def routed_service_def [abs_def])

text \<open>
  C16. The guard of the server. With authentication on, a request changes nothing at all, the rate
  limiter included, unless its path is exempt or it carries a valid bearer token. An exempt path leads to
  no handler of beliefs, tasks or checkpoints and is not counted; any other request reaches the
  application only if the limiter lets its claimed address pass.
\<close>

theorem http_guard:
  assumes "forwards cors" "forwards trace" "\<not> disabled cfg"
    "build_router J refusal G cors trace cfg handle req s = (r, s')"
  shows "(s' \<noteq> s \<longrightarrow> exempt_path (req_path req) \<or>
            (\<exists>tok claims. bearer_token req = Some tok \<and> validate_jwt J tok cfg = Inr claims)) \<and>
    (exempt_path (req_path req) \<longrightarrow>
       limiter s' = limiter s \<and> route (req_method req) (req_path req) \<in> infrastructure) \<and>
    (app s' \<noteq> app s \<and> \<not> exempt_path (req_path req) \<longrightarrow>
       fst (check_key G (limiter s) (extract_client_ip G req)))"
proof -
  let ?limited = "rate_limit_middleware refusal G (routed_service handle)"
  have s': "s' = s \<or> s' = snd (auth_layer J cfg ?limited req s)"
    using assms(1,2,4) unfolding build_router_layers forwards_def
    by (metis insert_iff singletonD snd_conv)
  have auth: "auth_layer J cfg ?limited req s = ?limited req s" if "isl (check_auth J req cfg) = False"
    using that by (cases "check_auth J req cfg") (simp_all add: auth_layer_def)
  have no_auth: "snd (auth_layer J cfg ?limited req s) = s" if "isl (check_auth J req cfg)"
    using that by (cases "check_auth J req cfg") (simp_all add: auth_layer_def)
  have passed: "exempt_path (req_path req) \<or>
      (\<exists>tok claims. bearer_token req = Some tok \<and> validate_jwt J tok cfg = Inr claims)"
    if "isl (check_auth J req cfg) = False"
    using that assms(3) by (auto simp: check_auth_def split: if_splits option.splits sum.splits)
  have exempt: "limiter (snd (?limited req s)) = limiter s" if "exempt_path (req_path req)"
    using that by (simp add: rate_limit_middleware_def routed_service_def split: prod.split)
  have counted: "fst (check_key G (limiter s) (extract_client_ip G req))"
    if "app (snd (?limited req s)) \<noteq> app s" "\<not> exempt_path (req_path req)"
    using that by (auto simp: rate_limit_middleware_def split: prod.splits bool.splits)
  show ?thesis
    using s' auth no_auth passed exempt counted exempt_routes by (cases "isl (check_auth J req cfg)") auto
qed

definition demo_jwt :: "unit jwt_api" where
  "demo_jwt =
     \<lparr> from_secret = (\<lambda>s. ()), from_rsa_pem = (\<lambda>p. Inl ''no key''),
       decode = (\<lambda>a aud iss k t. if t = ''good'' then Inr \<lparr> sub = ''agent'', exp = 0, iat = 0, scope = [] \<rparr> else Inl ''bad''),
       public_key_pem = (\<lambda>p. Inl ''no key''), pkcs1_pem = (\<lambda>p. Inl ''no key'') \<rparr>"

definition demo_limiter :: "(string, string set) limiter_api" where
  "demo_limiter =
     \<lparr> parse_ip = (\<lambda>s. if s = [] then None else Some s), localhost = ''127.0.0.1'',
       check_key = (\<lambda>seen ip. (ip \<notin> seen, insert ip seen)) \<rparr>"

definition demo_request :: "string \<Rightarrow> request" where
  "demo_request token =
     \<lparr> req_method = ''POST'', req_path = ''/v1/checkpoint'',
       req_headers = [(''authorization'', ''Bearer '' @ token), (''x-forwarded-for'', ''10.0.0.1, 10.0.0.2'')] \<rparr>"

definition demo_count :: "endpoint \<Rightarrow> request \<Rightarrow> nat \<Rightarrow> response \<times> nat" where
  "demo_count e req n = (\<lparr> resp_status = 200, resp_body = Text '''' \<rparr>, if e = Checkpoint then n + 1 else n)"

definition demo_server :: "string \<Rightarrow> (string set, nat) server \<Rightarrow> response \<times> (string set, nat) server" where
  "demo_server token =
     build_router demo_jwt ''slow down'' demo_limiter (\<lambda>svc. svc) (\<lambda>svc. svc)
       (auth_config_disabled\<lparr>disabled := False\<rparr>) demo_count (demo_request token)"

theorem http_guard_witness:
  "snd (demo_server ''bad'' \<lparr>limiter = {}, app = 0\<rparr>) = \<lparr>limiter = {}, app = 0\<rparr> \<and>
   snd (demo_server ''good'' \<lparr>limiter = {}, app = 0\<rparr>) = \<lparr>limiter = {''10.0.0.1''}, app = 1\<rparr>"
proof -
  let ?s = "\<lparr>limiter = {} :: string set, app = 0 :: nat\<rparr>"
  obtain r s' where d: "demo_server ''bad'' ?s = (r, s')" by fastforce
  have f: "forwards (\<lambda>svc. svc)" by (simp add: forwards_def)
  have "\<not> exempt_path (req_path (demo_request ''bad''))" by code_simp
  moreover have "bearer_token (demo_request ''bad'') = Some ''bad''" by code_simp
  moreover have "isl (validate_jwt demo_jwt ''bad'' (auth_config_disabled\<lparr>disabled := False\<rparr>))" by code_simp
  ultimately have "s' = ?s"
    using http_guard [OF f f, of "auth_config_disabled\<lparr>disabled := False\<rparr>" demo_jwt "''slow down''" demo_limiter
        demo_count "demo_request ''bad''" ?s r s'] d
    by (auto simp: demo_server_def)
  moreover have "snd (demo_server ''good'' ?s) = \<lparr>limiter = {''10.0.0.1''}, app = 1\<rparr>" by code_simp
  ultimately show ?thesis using d by simp
qed

end
