(* ===== verification/Mcp_Beliefs.thy ===== *)
theory Mcp_Beliefs
  imports Runtime_Keys Runtime_Ungoverned Mcp_Http
begin

text \<open>
  The handlers of the MCP server (\<open>epica-mcp/src/handlers\<close>) over the runtime and the task store, the
  task spawned for a reflection, and the start of the server (\<open>main.rs\<close>). A handler maps the parsed
  body of a request to its response or error and the state it leaves; extraction of bodies and path
  segments and the metrics are left out.
\<close>

section \<open>State\<close>

record ('s, 'a, 'b, 'c, 'd, 't) app_state =
  app_runtime :: "('s, 'a, 'b, 'c, 'd) runtime"
  task_db :: 't
  app_contract :: "('s, 'a, 'b, 'c, 'd) contract option"

text \<open>
  The environment of the handlers: the task store behind its trait, and the texts of the library and
  of derived formatters: of JSON values, identifiers, provenances, values and errors.
\<close>

record ('s, 'a, 'b, 'c, 'd, 't) mcp_env =
  base_env :: "('s, 'a, 'b, 'c, 'd) environment"
  st_get :: "'t \<Rightarrow> uuid \<Rightarrow> task_store_error + mcp_task option"
  st_insert :: "'t \<Rightarrow> mcp_task \<Rightarrow> (task_store_error + unit) \<times> 't"
  st_update_status :: "'t \<Rightarrow> uuid \<Rightarrow> task_status \<Rightarrow> (task_store_error + unit) \<times> 't"
  json_text :: "json \<Rightarrow> string"
  id_text :: "belief_id \<Rightarrow> string"
  provenance_text :: "provenance \<Rightarrow> string"
  value_text :: "belief_value \<Rightarrow> string"
  runtime_error_text :: "runtime_error \<Rightarrow> string"
  rollback_error_text :: "rollback_error \<Rightarrow> string"
  store_error_text :: "task_store_error \<Rightarrow> string"
  llm_error_text :: "llm_client_error \<Rightarrow> string"
  show_uuid :: "uuid \<Rightarrow> string"
  parse_uuid :: "string \<Rightarrow> uuid option"

text \<open>What one request reads from the clock and the random generator.\<close>

record mcp_readings =
  rd_update :: readings
  rd_task :: uuid
  rd_call :: uuid
  rd_now :: u64
  rd_elapsed :: f32

definition json_f32 :: "f32 \<Rightarrow> json" where
  "json_f32 c = (case c of Fin r \<Rightarrow> JNumber (FloatNum (f_cast F64 c)) | _ \<Rightarrow> JNull)"

definition json_f64 :: "f64 \<Rightarrow> json" where
  "json_f64 c = (case c of Fin r \<Rightarrow> JNumber (FloatNum c) | _ \<Rightarrow> JNull)"

definition json_usize :: "nat \<Rightarrow> json" where
  "json_usize n = JNumber (PosInt (of_nat n))"

definition json_opt_f32 :: "f32 option \<Rightarrow> json" where
  "json_opt_f32 c = (case c of None \<Rightarrow> JNull | Some x \<Rightarrow> json_f32 x)"

section \<open>Reading a belief\<close>

record belief_get_response =
  get_key :: string
  get_value :: json
  get_fast_confidence :: f32
  get_slow_confidence :: "f32 option"
  get_provenance :: string

definition find_by_key ::
  "('s, 'a, 'b, 'c, 'd) lib \<Rightarrow> ('s, 'a, 'b, 'c, 'd, 'z) quad_scheme \<Rightarrow> string \<Rightarrow> (belief_id \<times> belief_node) option" where
  "find_by_key L q k = List.find (\<lambda>(_, n). key n = k) (quad_iter L q)"

definition json_of_value :: "(belief_id \<Rightarrow> string) \<Rightarrow> belief_value \<Rightarrow> json" where
  "json_of_value show_id v =
     (case v of
        Deterministic j \<Rightarrow> j
      | Inferred j \<Rightarrow> j
      | Asserted s \<Rightarrow> JString s
      | Reference b \<Rightarrow> JObject [(''reference'', JString (show_id b))])"

definition handle_belief_get ::
  "('s, 'a, 'b, 'c, 'd, 't) mcp_env \<Rightarrow> string \<Rightarrow> ('s, 'a, 'b, 'c, 'd, 't) app_state \<Rightarrow> mcp_error + belief_get_response" where
  "handle_belief_get X k st =
     (case find_by_key (the_lib (base_env X)) (rt_quad (app_runtime st)) k of
        None \<Rightarrow> Inl (McpNotFound k)
      | Some (_, n) \<Rightarrow>
          Inr \<lparr> get_key = key n, get_value = json_of_value (id_text X) (value n),
                get_fast_confidence = fast_confidence n, get_slow_confidence = slow_confidence n,
                get_provenance = provenance_text X (provenance n) \<rparr>)"

section \<open>Setting a belief\<close>

record belief_set_request =
  set_key :: string
  set_value :: json
  set_confidence :: f32
  provenance_kind :: "string option"

record belief_set_response =
  resp_belief_id :: string
  resp_task_id :: "uuid option"
  system2_triggered :: bool

function trim_start_matches :: "string \<Rightarrow> string \<Rightarrow> string" where
  "trim_start_matches p s =
     (if p = [] then s
      else (case strip_prefix p s of None \<Rightarrow> s | Some r \<Rightarrow> trim_start_matches p r))"
  by pat_completeness auto

termination
  by (relation "measure (\<lambda>(p, s). length s)") (auto simp: strip_prefix_Some)

definition parse_provenance :: "uuid \<Rightarrow> string option \<Rightarrow> provenance" where
  "parse_provenance call kind =
     (let s = (case kind of None \<Rightarrow> ''user'' | Some k \<Rightarrow> k)
      in if s = ''tool'' then ToolResult ''external'' call
         else if strip_prefix ''llm'' s \<noteq> None then LlmInference (trim_start_matches ''llm:'' s) call 0
         else UserStatement 0)"

text \<open>A task spawned for a reflection.\<close>

record spawned =
  sp_task :: uuid
  sp_belief :: belief_id
  sp_signal :: diagnostic_signal

definition insert_task ::
  "('s, 'a, 'b, 'c, 'd, 't) mcp_env \<Rightarrow> mcp_readings \<Rightarrow> string \<Rightarrow> task_status \<Rightarrow> ('s, 'a, 'b, 'c, 'd, 't) app_state \<Rightarrow>
     ('s, 'a, 'b, 'c, 'd, 't) app_state" where
  "insert_task X rd k s st =
     st\<lparr>task_db := snd (st_insert X (task_db st)
          \<lparr> task_id = rd_task rd, task_belief_key = k, task_status = s, task_created_at_ms = rd_now rd \<rparr>)\<rparr>"

definition update_task ::
  "('s, 'a, 'b, 'c, 'd, 't) mcp_env \<Rightarrow> uuid \<Rightarrow> task_status \<Rightarrow> ('s, 'a, 'b, 'c, 'd, 't) app_state \<Rightarrow>
     ('s, 'a, 'b, 'c, 'd, 't) app_state" where
  "update_task X u s st = st\<lparr>task_db := snd (st_update_status X (task_db st) u s)\<rparr>"

definition after_update ::
  "('s, 'a, 'b, 'c, 'd, 't) mcp_env \<Rightarrow> mcp_readings \<Rightarrow> string \<Rightarrow> belief_id \<Rightarrow> update_result \<Rightarrow>
     ('s, 'a, 'b, 'c, 'd, 't) app_state \<Rightarrow>
     belief_set_response \<times> spawned option \<times> ('s, 'a, 'b, 'c, 'd, 't) app_state" where
  "after_update X rd k b r st =
     (let plain = \<lparr> resp_belief_id = id_text X b, resp_task_id = None, system2_triggered = False \<rparr>;
          tracked = \<lparr> resp_belief_id = id_text X b, resp_task_id = Some (rd_task rd), system2_triggered = True \<rparr>
      in case r of
           System2Activated sig res \<Rightarrow>
             (tracked, None,
              insert_task X rd k (Completed (JObject [(''revised_confidence'', json_f32 (revised_confidence res))])) st)
         | System2Pending sig \<Rightarrow>
             (case try_consume_system2_budget (rd_elapsed rd) (app_runtime st) of
                (False, rt) \<Rightarrow> (plain, None, st\<lparr>app_runtime := rt\<rparr>)
              | (True, rt) \<Rightarrow>
                  (tracked, Some \<lparr> sp_task = rd_task rd, sp_belief = b, sp_signal = sig \<rparr>,
                   insert_task X rd k Pending (st\<lparr>app_runtime := rt\<rparr>)))
         | System2Throttled \<Rightarrow> (plain, None, st)
         | System1Only \<Rightarrow> (plain, None, st))"

definition handle_belief_set ::
  "('s, 'a, 'b, 'c, 'd, 't) mcp_env \<Rightarrow> mcp_readings \<Rightarrow> belief_set_request \<Rightarrow> ('s, 'a, 'b, 'c, 'd, 't) app_state \<Rightarrow>
     (mcp_error + belief_set_response) \<times> spawned option \<times> ('s, 'a, 'b, 'c, 'd, 't) app_state" where
  "handle_belief_set X rd req st =
     (let p = parse_provenance (rd_call rd) (provenance_kind req);
          v = Asserted (json_text X (set_value req))
      in case get_by_key (app_runtime st) (set_key req) of
           Some b \<Rightarrow>
             (case update_belief (base_env X) (rd_update rd) b v p (set_confidence req) (app_runtime st) of
                (Inl e, rt) \<Rightarrow> (Inl (McpRuntime (runtime_error_text X e)), None, st\<lparr>app_runtime := rt\<rparr>)
              | (Inr r, rt) \<Rightarrow>
                  (case after_update X rd (set_key req) b r (st\<lparr>app_runtime := rt\<rparr>) of
                     (resp, sp, st') \<Rightarrow> (Inr resp, sp, st')))
         | None \<Rightarrow>
             (case insert_belief (base_env X) (belief_node_new (rd_now rd) (set_key req) v p (set_confidence req)) (app_runtime st) of
                (b, rt) \<Rightarrow>
                  (Inr \<lparr> resp_belief_id = id_text X b, resp_task_id = None, system2_triggered = False \<rparr>, None,
                   st\<lparr>app_runtime := rt\<rparr>)))"

text \<open>The spawned task, before and after the client's answer.\<close>

definition spawned_start ::
  "('s, 'a, 'b, 'c, 'd, 't) mcp_env \<Rightarrow> spawned \<Rightarrow> ('s, 'a, 'b, 'c, 'd, 't) app_state \<Rightarrow> ('s, 'a, 'b, 'c, 'd, 't) app_state" where
  "spawned_start X sp st = update_task X (sp_task sp) Running st"

definition spawned_finish ::
  "('s, 'a, 'b, 'c, 'd, 't) mcp_env \<Rightarrow> spawned \<Rightarrow> ('s, 'a, 'b, 'c, 'd, 't) app_state \<Rightarrow> ('s, 'a, 'b, 'c, 'd, 't) app_state" where
  "spawned_finish X sp st =
     (case llm_client (app_runtime st) of
        None \<Rightarrow> st
      | Some client \<Rightarrow>
          (case client (sp_signal sp) of
             Inr res \<Rightarrow>
               update_task X (sp_task sp)
                 (Completed (JObject [(''revised_confidence'', json_f32 (revised_confidence res)),
                                      (''reasoning'', JString (reasoning res))]))
                 (st\<lparr>app_runtime := apply_system2_result (base_env X) (sp_belief sp) (revised_confidence res) (app_runtime st)\<rparr>)
           | Inl e \<Rightarrow>
               update_task X (sp_task sp) (Failed (llm_error_text X e))
                 (st\<lparr>app_runtime := release_system2_budget (app_runtime st)\<rparr>)))"

definition status_json :: "task_status \<Rightarrow> json" where
  "status_json s =
     (case s of
        Pending \<Rightarrow> JObject [(''type'', JString ''pending'')]
      | Running \<Rightarrow> JObject [(''type'', JString ''running'')]
      | Completed r \<Rightarrow> JObject [(''type'', JString ''completed''), (''result'', r)]
      | Failed e \<Rightarrow> JObject [(''type'', JString ''failed''), (''error'', JString e)])"

definition handle_belief_set_result ::
  "('s, 'a, 'b, 'c, 'd, 't) mcp_env \<Rightarrow> uuid \<Rightarrow> ('s, 'a, 'b, 'c, 'd, 't) app_state \<Rightarrow> mcp_error + json" where
  "handle_belief_set_result X u st =
     (case st_get X (task_db st) u of
        Inl e \<Rightarrow> Inl (McpRuntime (''task store error: '' @ store_error_text X e))
      | Inr None \<Rightarrow> Inl (McpTaskNotFound u)
      | Inr (Some t) \<Rightarrow>
          Inr (JObject [(''task_id'', JString (show_uuid X (task_id t))), (''belief_key'', JString (task_belief_key t)),
                        (''status'', status_json (task_status t)),
                        (''created_at_ms'', JNumber (PosInt (task_created_at_ms t)))]))"

section \<open>Checkpoints, queries, probes\<close>

record checkpoint_response =
  resp_checkpoint_id :: string
  resp_version :: u64

definition handle_checkpoint ::
  "('s, 'a, 'b, 'c, 'd, 't) mcp_env \<Rightarrow> uuid \<Rightarrow> u64 \<Rightarrow> ('s, 'a, 'b, 'c, 'd, 't) app_state \<Rightarrow>
     checkpoint_response \<times> ('s, 'a, 'b, 'c, 'd, 't) app_state" where
  "handle_checkpoint X u now st =
     (case runtime_checkpoint u now (app_runtime st) of
        (c, rt) \<Rightarrow> (\<lparr> resp_checkpoint_id = checkpoint_id_display (show_uuid X) c, resp_version = version (rt_quad rt) \<rparr>,
                    st\<lparr>app_runtime := rt\<rparr>))"

definition diff_json :: "belief_quad_diff \<Rightarrow> json" where
  "diff_json d =
     JObject [(''added'', json_usize (length (added d))), (''removed'', json_usize (length (removed d))),
              (''modified'', json_usize (length (modified d))), (''trajectory_ece'', json_opt_f32 (trajectory_ece d))]"

definition handle_rollback ::
  "('s, 'a, 'b, 'c, 'd, 't) mcp_env \<Rightarrow> string \<Rightarrow> ('s, 'a, 'b, 'c, 'd, 't) app_state \<Rightarrow>
     (mcp_error + json) \<times> ('s, 'a, 'b, 'c, 'd, 't) app_state" where
  "handle_rollback X text st =
     (case checkpoint_id_parse (parse_uuid X) text of
        None \<Rightarrow> (Inl (McpBadRequest (''invalid checkpoint_id: '' @ text)), st)
      | Some u \<Rightarrow>
          (case runtime_rollback_to (base_env X) u (app_runtime st) of
             (Inl e, rt) \<Rightarrow> (Inl (McpRuntime (rollback_error_text X e)), st\<lparr>app_runtime := rt\<rparr>)
           | (Inr d, rt) \<Rightarrow> (Inr (diff_json d), st\<lparr>app_runtime := rt\<rparr>)))"

definition handle_diff ::
  "('s, 'a, 'b, 'c, 'd, 't) mcp_env \<Rightarrow> string \<Rightarrow> ('s, 'a, 'b, 'c, 'd, 't) app_state \<Rightarrow> mcp_error + json" where
  "handle_diff X text st =
     (case checkpoint_id_parse (parse_uuid X) text of
        None \<Rightarrow> Inl (McpBadRequest (''invalid checkpoint_id: '' @ text))
      | Some u \<Rightarrow>
          (let q = rt_quad (app_runtime st)
           in case checkpoint_by_id q u of
                None \<Rightarrow> Inl (McpBadRequest (''checkpoint not found: '' @ checkpoint_id_display (show_uuid X) u))
              | Some c \<Rightarrow> Inr (diff_json (quad_diff (the_lib (base_env X)) (key_order (base_env X)) q (cp_quad c)))))"

definition handle_belief_query ::
  "('s, 'a, 'b, 'c, 'd, 't) mcp_env \<Rightarrow> nat list \<Rightarrow> u64 \<Rightarrow> string \<Rightarrow> nat option \<Rightarrow> ('s, 'a, 'b, 'c, 'd, 't) app_state \<Rightarrow> json" where
  "handle_belief_query X vs now query budget_tokens st =
     (let budget = (case budget_tokens of None \<Rightarrow> 4096 | Some n \<Rightarrow> n);
          results = retrieve_for_query (base_env X) vs now query budget (app_runtime st)
      in JObject [(''beliefs'', JArray (map (\<lambda>s. JObject
           [(''key'', JString (snap_key s)), (''fast_confidence'', json_f32 (snap_fast_confidence s)),
            (''slow_confidence'', json_opt_f32 (snap_slow_confidence s)), (''value'', JString (value_text X (snap_value s)))]) results))])"

definition handle_counterfactual ::
  "('s, 'a, 'b, 'c, 'd, 't) mcp_env \<Rightarrow> string \<Rightarrow> ('s, 'a, 'b, 'c, 'd, 't) app_state \<Rightarrow> mcp_error + json" where
  "handle_counterfactual X k st =
     (let L = the_lib (base_env X); q = rt_quad (app_runtime st)
      in case find_by_key L q k of
           None \<Rightarrow> Inl (McpNotFound k)
         | Some (b, _) \<Rightarrow>
             (let w = counterfactual_query L q b
              in Inr (JObject
                   [(''surviving'', JArray (map (\<lambda>(_, n). JObject [(''key'', JString (key n)),
                        (''fast_confidence'', json_f32 (fast_confidence n))]) (surviving_beliefs L w))),
                    (''excluded_count'', json_usize (card (excluded w)))])))"

definition handle_contract_status :: "('s, 'a, 'b, 'c, 'd, 't) app_state \<Rightarrow> json" where
  "handle_contract_status st =
     (case app_contract st of
        None \<Rightarrow> JObject [(''status'', JString ''no contract configured'')]
      | Some c \<Rightarrow>
          (let b = contract_drift_bound c
           in JObject [(''alpha'', json_f64 (alpha b)), (''gamma'', json_f64 (gamma b)),
                       (''expected_drift'', json_f64 (expected_drift b)),
                       (''gaussian_concentration'', json_f64 (gaussian_concentration b)),
                       (''satisfies_delta_1_k_100'', JBool (drift_satisfies b 1 100))]))"

text \<open>\<open>beliefs\<close> of the readiness probe; the liveness probe is a constant with the crate's version.\<close>

definition handle_ready :: "('s, 'a, 'b, 'c, 'd, 't) mcp_env \<Rightarrow> ('s, 'a, 'b, 'c, 'd, 't) app_state \<Rightarrow> string \<times> nat" where
  "handle_ready X st = (''ready'', length (quad_iter (the_lib (base_env X)) (rt_quad (app_runtime st))))"

definition handle_health :: "string \<Rightarrow> string \<times> string" where
  "handle_health cargo_version = (''ok'', cargo_version)"

definition handle_metrics :: "string option \<Rightarrow> string" where
  "handle_metrics rendered = (case rendered of None \<Rightarrow> '''' | Some s \<Rightarrow> s)"

section \<open>The start of the server\<close>

definition env_flag :: "(string \<Rightarrow> string option) \<Rightarrow> string \<Rightarrow> bool" where
  "env_flag env k = (case env k of None \<Rightarrow> False | Some v \<Rightarrow> v = ''1'' \<or> eq_ignore_ascii_case v ''true'')"

definition env_or :: "(string \<Rightarrow> string option) \<Rightarrow> string \<Rightarrow> string \<Rightarrow> string" where
  "env_or env k d = (case env k of None \<Rightarrow> d | Some v \<Rightarrow> v)"

definition env_parsed :: "(string \<Rightarrow> string option) \<Rightarrow> (string \<Rightarrow> 'v option) \<Rightarrow> string \<Rightarrow> 'v \<Rightarrow> 'v" where
  "env_parsed env parse k d = (case Option.bind (env k) parse of None \<Rightarrow> d | Some v \<Rightarrow> v)"

text \<open>
  \<open>Inl\<close> is an exit or a panic before the server listens. The text printed before the exit is
  shortened here: the program's also quotes the value of \<open>EPICA_ENV\<close> and says how to go on.
\<close>

definition server_auth :: "(string \<Rightarrow> string option) \<Rightarrow> (string \<Rightarrow> string + string) \<Rightarrow> string + auth_config" where
  "server_auth env read_file =
     (if env_flag env ''EPICA_NO_AUTH''
      then (if to_lowercase (env_or env ''EPICA_ENV'' '''') \<in> {''development'', ''dev'', ''test''}
            then Inr auth_config_disabled
            else Inl ''FATAL: EPICA_NO_AUTH=1 is only permitted in development or test'')
      else auth_config_from_env env read_file)"

definition server_contract ::
  "('s, 'a, 'b, 'c, 'd) lib \<Rightarrow> (string \<Rightarrow> string option) \<Rightarrow> (string \<Rightarrow> string + string) \<Rightarrow>
     (string \<Rightarrow> string + contract_config) \<Rightarrow> string + ('s, 'a, 'b, 'c, 'd) contract option" where
  "server_contract L env read_file parse_toml =
     (case env ''EPICA_CONTRACTS_FILE'' of
        None \<Rightarrow> Inr None
      | Some path \<Rightarrow>
          (case read_file path of
             Inl e \<Rightarrow> Inl (''failed to read EPICA_CONTRACTS_FILE='' @ path @ '': '' @ e)
           | Inr s \<Rightarrow>
               (case parse_toml s of
                  Inl e \<Rightarrow> Inl (''failed to parse contract TOML at '' @ path @ '': '' @ e)
                | Inr cfg \<Rightarrow> Inr (Some (from_config L cfg)))))"

text \<open>\<open>client_for\<close> makes the client of a provider that the build has, if its credentials are there.\<close>

definition server_runtime ::
  "('s, 'a, 'b, 'c, 'd) environment \<Rightarrow> audit_store \<Rightarrow> (string \<Rightarrow> string option) \<Rightarrow> (string \<Rightarrow> f32 option) \<Rightarrow>
     (string \<Rightarrow> u32 option) \<Rightarrow> string \<Rightarrow> (string \<Rightarrow> llm option) \<Rightarrow> ('s, 'a, 'b, 'c, 'd) runtime" where
  "server_runtime E w env parse_f32 parse_u32 default_provider client_for =
     (let rt = with_default_tau (env_parsed env parse_f32 ''EPICA_REFLECTION_THRESHOLD'' (f_lit F32 (15 / 100)))
                 (runtime_new E w (session_new (the_lib E))
                    (env_parsed env parse_f32 ''EPICA_RELIABILITY'' (Fin (1 / 2)))
                    (env_parsed env parse_u32 ''EPICA_SYSTEM2_BUDGET'' 50)
                    (env_parsed env parse_f32 ''EPICA_SYSTEM2_REFILL'' (Fin 1)));
          provider = to_lowercase (env_or env ''EPICA_LLM_PROVIDER'' default_provider)
      in if provider = ''none'' then rt
         else (case client_for provider of None \<Rightarrow> rt | Some client \<Rightarrow> set_llm_client client rt))"

definition start_server ::
  "('s, 'a, 'b, 'c, 'd) environment \<Rightarrow> audit_store \<Rightarrow> (string \<Rightarrow> string option) \<Rightarrow> (string \<Rightarrow> string + string) \<Rightarrow>
     (string \<Rightarrow> string + contract_config) \<Rightarrow> (string \<Rightarrow> f32 option) \<Rightarrow> (string \<Rightarrow> u32 option) \<Rightarrow> string \<Rightarrow>
     (string \<Rightarrow> llm option) \<Rightarrow> (string \<Rightarrow> 'addr option) \<Rightarrow> 't \<Rightarrow>
     string + 'addr \<times> auth_config \<times> ('s, 'a, 'b, 'c, 'd, 't) app_state" where
  "start_server E w env read_file parse_toml parse_f32 parse_u32 default_provider client_for parse_addr db =
     (case parse_addr (env_or env ''EPICA_ADDR'' ''127.0.0.1:8765'') of
        None \<Rightarrow> Inl ''EPICA_ADDR must be a valid socket address (e.g. 0.0.0.0:8080)''
      | Some addr \<Rightarrow>
          (case server_auth env read_file of
             Inl e \<Rightarrow> Inl e
           | Inr auth \<Rightarrow>
               (case server_contract (the_lib E) env read_file parse_toml of
                  Inl e \<Rightarrow> Inl e
                | Inr c \<Rightarrow>
                    Inr (addr, auth,
                         \<lparr> app_runtime = server_runtime E w env parse_f32 parse_u32 default_provider client_for,
                           task_db = db, app_contract = c \<rparr>))))"

section \<open>A key that was rolled back\<close>

text \<open>A belief the quad does not hold cannot be updated, and trying leaves the beliefs alone.\<close>

lemma update_absent:
  assumes "quad_get (the_lib E) (rt_quad rt) b = None"
  shows "isl (fst (update_belief E rd b v p c rt)) \<and>
    nodes (rt_quad (snd (update_belief E rd b v p c rt))) = nodes (rt_quad rt) \<and>
    key_index (snd (update_belief E rd b v p c rt)) = key_index rt"
proof (cases "pre_update (engine rt) (rt_quad rt) (key_of E rt b) ''system''")
  case (Inl e)
  then show ?thesis by (simp add: update_belief_def Let_def)
next
  case pre: (Inr x)
  obtain r1 rt1 where 1: "token_phase rt = (r1, rt1)" by fastforce
  note t = token_phase_cases [OF 1]
  let ?q = "snd (take_checkpoint (cp_uuid rd) (cp_time rd) (rt_quad rt))"
  have "quad_get (the_lib E) ?q b = None"
    using assms by (simp add: take_checkpoint_def Let_def quad_get_fun)
  then have r: "revise (the_lib E) (rev_uuid rd) (rev_time rd) ?q b v p c = (Inl BeliefNotFound, ?q)"
    by (simp add: revise_def)
  have c: "checkpoint_phase rd rt1 = (fst (take_checkpoint (cp_uuid rd) (cp_time rd) (rt_quad rt)), rt1\<lparr>rt_quad := ?q\<rparr>)"
    using t by (simp add: checkpoint_phase_def split: prod.split)
  show ?thesis
  proof (cases r1)
    case (Inl e)
    then show ?thesis using t by (simp add: update_belief_def Let_def pre 1)
  next
    case (Inr y)
    have "update_belief E rd b v p c rt = (Inl (Core (RevisionFailed BeliefNotFound)), rt1\<lparr>rt_quad := ?q\<rparr>)"
      by (simp add: update_belief_def Let_def pre 1 Inr c revise_phase_def r)
    then show ?thesis using t by (simp add: take_checkpoint_def Let_def)
  qed
qed

fun run_sets ::
  "('s, 'a, 'b, 'c, 'd, 't) mcp_env \<Rightarrow> (mcp_readings \<times> belief_set_request) list \<Rightarrow> ('s, 'a, 'b, 'c, 'd, 't) app_state \<Rightarrow>
     (mcp_error + belief_set_response) list \<times> ('s, 'a, 'b, 'c, 'd, 't) app_state" where
  "run_sets X [] st = ([], st)"
| "run_sets X ((rd, req) # calls) st =
     (case handle_belief_set X rd req st of
        (a, _, st') \<Rightarrow> (case run_sets X calls st' of (as, st'') \<Rightarrow> (a # as, st'')))"

lemma stale_set:
  assumes "get_by_key (app_runtime st) (set_key req) = Some b"
    "quad_get (the_lib (base_env X)) (rt_quad (app_runtime st)) b = None"
    "handle_belief_set X rd req st = (a, sp, st')"
  shows "isl a" "nodes (rt_quad (app_runtime st')) = nodes (rt_quad (app_runtime st))"
    "key_index (app_runtime st') = key_index (app_runtime st)"
proof -
  let ?p = "parse_provenance (rd_call rd) (provenance_kind req)" and ?v = "Asserted (json_text X (set_value req))"
  obtain r rt where u: "update_belief (base_env X) (rd_update rd) b ?v ?p (set_confidence req) (app_runtime st) = (r, rt)"
    by fastforce
  note f = update_absent [OF assms(2), of "rd_update rd" ?v ?p "set_confidence req", unfolded u fst_conv snd_conv]
  then obtain e where "r = Inl e" by (cases r) auto
  then have "a = Inl (McpRuntime (runtime_error_text X e))" "st' = st\<lparr>app_runtime := rt\<rparr>"
    using assms(1,3) u by (auto simp: handle_belief_set_def Let_def)
  with f show "isl a" "nodes (rt_quad (app_runtime st')) = nodes (rt_quad (app_runtime st))"
    "key_index (app_runtime st') = key_index (app_runtime st)" by simp_all
qed

lemma stale_sets:
  "get_by_key (app_runtime st) k = Some b \<Longrightarrow> quad_get (the_lib (base_env X)) (rt_quad (app_runtime st)) b = None \<Longrightarrow>
     list_all (\<lambda>(rd, req). set_key req = k) calls \<Longrightarrow> run_sets X calls st = (as, st') \<Longrightarrow>
     list_all isl as \<and> nodes (rt_quad (app_runtime st')) = nodes (rt_quad (app_runtime st))"
proof (induction calls arbitrary: st as)
  case (Cons call calls)
  obtain rd req where call: "call = (rd, req)" by fastforce
  obtain a sp st1 where h: "handle_belief_set X rd req st = (a, sp, st1)" by (metis prod.exhaust)
  have k: "get_by_key (app_runtime st) (set_key req) = Some b" using Cons.prems(1,3) call by simp
  note one = stale_set [OF k Cons.prems(2) h]
  obtain as1 where r: "run_sets X calls st1 = (as1, st')" "as = a # as1"
    using Cons.prems(4) call h by (auto split: prod.splits)
  have "list_all isl as1 \<and> nodes (rt_quad (app_runtime st')) = nodes (rt_quad (app_runtime st1))"
  proof (rule Cons.IH [OF _ _ _ r(1)])
    show "get_by_key (app_runtime st1) k = Some b" using Cons.prems(1) one(3) by (simp add: get_by_key_def)
    show "quad_get (the_lib (base_env X)) (rt_quad (app_runtime st1)) b = None"
      using Cons.prems(2) one(2) by (simp add: quad_get_fun)
    show "list_all (\<lambda>(rd, req). set_key req = k) calls" using Cons.prems(3) by simp
  qed
  then show ?case using one r(2) by simp
qed simp

lemma find_by_key_None:
  "find_by_key L q k = None \<longleftrightarrow> k \<notin> quad_keys L q"
  by (auto simp: find_by_key_def quad_keys_def find_None_set)

text \<open>
  C14. Rolling back loses a key. When a key that the server does not know is set after a checkpoint
  with a fresh id, and the server is rolled back to that checkpoint, both by requests that succeed,
  the key reads as not found, and every set of that key that follows directly is refused with an
  internal error, however many there are and whatever their values, and leaves it not found: the
  key index still names the discarded belief, so the server neither updates nor inserts. A set of another
  new key in between is not covered: it can make the slot map issue the discarded id again, and then
  the old key resolves to that other belief (\<open>rollback_aliases_key\<close> of \<open>Runtime_Keys\<close>).
\<close>

theorem rolled_back_key_unusable:
  assumes "belief_lib (the_lib (base_env X))" "quad_wf (the_lib (base_env X)) (rt_quad (app_runtime st))"
    "\<And>K. finite K \<Longrightarrow> set (key_order (base_env X) K) = K" "u \<notin> cp_id ` set (checkpoints (rt_quad (app_runtime st)))"
    "k \<notin> quad_keys (the_lib (base_env X)) (rt_quad (app_runtime st))" "get_by_key (app_runtime st) k = None"
    "handle_checkpoint X u now st = (cp, st1)" "set_key req = k" "handle_belief_set X rd req st1 = (a1, sp, st2)"
    "checkpoint_id_parse (parse_uuid X) text = Some u" "handle_rollback X text st2 = (a2, st3)"
    "list_all (\<lambda>(rd, req). set_key req = k) calls" "run_sets X calls st3 = (answers, st4)"
  shows "\<not> isl a1 \<and> \<not> isl a2 \<and> handle_belief_get X k st3 = Inl (McpNotFound k) \<and>
    list_all isl answers \<and> handle_belief_get X k st4 = Inl (McpNotFound k)"
proof -
  let ?E = "base_env X" and ?rt = "app_runtime st"
  let ?n = "belief_node_new (rd_now rd) k (Asserted (json_text X (set_value req)))
    (parse_provenance (rd_call rd) (provenance_kind req)) (set_confidence req)"
  have key: "key ?n = k" by (simp add: belief_node_new_def)
  have 1: "app_runtime st1 = snd (runtime_checkpoint u now ?rt)"
    using assms(7) by (auto simp: handle_checkpoint_def split: prod.splits)
  have "get_by_key (app_runtime st1) k = None"
    using assms(6) 1 by (simp add: get_by_key_def runtime_checkpoint_def take_checkpoint_def Let_def)
  then obtain b rt2 where 2: "insert_belief ?E ?n (app_runtime st1) = (b, rt2)" "\<not> isl a1" "app_runtime st2 = rt2"
    using assms(8,9) by (auto simp: handle_belief_set_def Let_def split: prod.splits)
  obtain r rt3 where 3: "runtime_rollback_to ?E u rt2 = (r, rt3)" by fastforce
  have order: "\<forall>K. finite K \<longrightarrow> set (key_order ?E K) = K" using assms(3) by blast
  have fresh: "key ?n \<notin> quad_keys (the_lib ?E) (rt_quad ?rt)" using assms(5) key by simp
  note undone = rolled_back [OF assms(1,2) order assms(4) fresh 2(1) [unfolded 1] 3, unfolded key]
  obtain d where "r = Inr d" using undone(1) by blast
  then have a2: "\<not> isl a2" "app_runtime st3 = rt3"
    using assms(10,11) 2(3) 3 by (auto simp: handle_rollback_def)
  have n3: "nodes (rt_quad rt3) = nodes (rt_quad ?rt)" by (simp add: undone(2))
  have missing: "handle_belief_get X k st' = Inl (McpNotFound k)"
    if "nodes (rt_quad (app_runtime st')) = nodes (rt_quad ?rt)" for st'
  proof -
    have "find_by_key (the_lib ?E) (rt_quad (app_runtime st')) k = None"
      using that assms(5) by (simp add: find_by_key_None quad_keys_def quad_iter_def)
    then show ?thesis by (simp add: handle_belief_get_def)
  qed
  have "list_all isl answers \<and> nodes (rt_quad (app_runtime st4)) = nodes (rt_quad (app_runtime st3))"
  proof (rule stale_sets [OF _ _ assms(12,13)])
    show "get_by_key (app_runtime st3) k = Some b" using undone(3) a2(2) by (simp add: get_by_key_def)
    show "quad_get (the_lib ?E) (rt_quad (app_runtime st3)) b = None"
      using undone(4) a2(2) n3 by (simp add: quad_get_fun)
  qed
  then show ?thesis using 2(2) a2 n3 missing by simp
qed

section \<open>Set, then get\<close>

text \<open>
  A first set of a key is read back by a get as the JSON text of the value, as a string: the value's
  own type is lost, and a string comes back with its quotes. The confidence is clamped to the unit
  interval.
\<close>

theorem set_then_get:
  assumes "belief_lib (the_lib (base_env X))" "quad_wf (the_lib (base_env X)) (rt_quad (app_runtime st))"
    "k \<notin> quad_keys (the_lib (base_env X)) (rt_quad (app_runtime st))" "get_by_key (app_runtime st) k = None"
    "set_key req = k" "handle_belief_set X rd req st = (a, sp, st')"
  shows "(\<exists>r. a = Inr r \<and> resp_task_id r = None) \<and> sp = None \<and>
    handle_belief_get X k st' = Inr \<lparr> get_key = k, get_value = JString (json_text X (set_value req)),
      get_fast_confidence = clamp01 (set_confidence req), get_slow_confidence = None,
      get_provenance = provenance_text X (parse_provenance (rd_call rd) (provenance_kind req)) \<rparr>"
proof -
  let ?L = "the_lib (base_env X)" and ?rt = "app_runtime st"
  let ?n = "belief_node_new (rd_now rd) k (Asserted (json_text X (set_value req)))
    (parse_provenance (rd_call rd) (provenance_kind req)) (set_confidence req)"
  obtain b q where i: "quad_insert ?L (rt_quad ?rt) ?n = (b, q)" by fastforce
  note e = insert_belief_effect [OF i]
  have w: "quad_wf ?L q" by (rule belief_lib.insert_wf [OF assms(1,2) i])
  note g = belief_lib.insert_get [OF assms(1,2) i]
  let ?rt' = "snd (insert_belief (base_env X) ?n ?rt)"
  have st': "app_runtime st' = ?rt'" "\<exists>r. a = Inr r \<and> resp_task_id r = None" "sp = None"
    using assms(4-6) by (auto simp: handle_belief_set_def Let_def split: prod.splits)
  have iter: "quad_iter ?L (rt_quad ?rt') = quad_iter ?L q" using e(3) by (simp add: quad_iter_def)
  have in_q: "(c, m) \<in> set (quad_iter ?L q) \<longleftrightarrow> ((quad_get ?L (rt_quad ?rt))(b \<mapsto> ?n\<lparr>id := b\<rparr>)) c = Some m" for c m
    using belief_lib.iter_mem [OF assms(1) w] g(3) by simp
  have old: "key m \<noteq> k" if "quad_get ?L (rt_quad ?rt) c = Some m" for c m
    using that assms(3) belief_lib.iter_mem [OF assms(1,2)] by (force simp: quad_keys_def)
  have "k \<in> quad_keys ?L q" using in_q [of b "?n\<lparr>id := b\<rparr>"] by (force simp: quad_keys_def belief_node_new_def)
  then obtain c m where f: "find_by_key ?L q k = Some (c, m)" by (metis find_by_key_None option.exhaust surj_pair)
  then have "(c, m) \<in> set (quad_iter ?L q)" "key m = k" using find_Some_set by (fastforce simp: find_by_key_def)+
  then have "m = ?n\<lparr>id := b\<rparr>" using in_q old by (auto split: if_splits)
  moreover have "find_by_key ?L (rt_quad (app_runtime st')) k = Some (c, m)"
    using f iter st'(1) by (simp add: find_by_key_def)
  ultimately show ?thesis
    using st' by (simp add: handle_belief_get_def belief_node_new_def json_of_value_def)
qed

section \<open>A server without governance\<close>

text \<open>
  The requests and background steps of a server, in any order; readings, clients and answers are
  arbitrary.
\<close>

inductive server_step ::
  "('s, 'a, 'b, 'c, 'd, 't) mcp_env \<Rightarrow> ('s, 'a, 'b, 'c, 'd, 't) app_state \<Rightarrow> ('s, 'a, 'b, 'c, 'd, 't) app_state \<Rightarrow> bool" for X where
  set: "handle_belief_set X rd req st = (a, sp, st') \<Longrightarrow> server_step X st st'"
| start: "server_step X st (spawned_start X sp st)"
| finish: "server_step X st (spawned_finish X sp st)"
| checkpoint: "handle_checkpoint X u now st = (a, st') \<Longrightarrow> server_step X st st'"
| rollback: "handle_rollback X text st = (a, st') \<Longrightarrow> server_step X st st'"

lemma set_ungoverned:
  assumes "ungoverned (app_runtime st)" "handle_belief_set X rd req st = (a, sp, st')"
  shows "ungoverned (app_runtime st')"
proof (cases "get_by_key (app_runtime st) (set_key req)")
  case None
  then show ?thesis
    using assms insert_ungoverned [OF assms(1), of "base_env X"]
    by (auto simp: handle_belief_set_def Let_def split: prod.splits) (metis snd_conv)
next
  case (Some b)
  obtain r rt where u: "update_belief (base_env X) (rd_update rd) b (Asserted (json_text X (set_value req)))
      (parse_provenance (rd_call rd) (provenance_kind req)) (set_confidence req) (app_runtime st) = (r, rt)" by fastforce
  have g: "ungoverned rt" using update_ungoverned [OF assms(1) u] by blast
  have "ungoverned (app_runtime (snd (snd (after_update X rd k b x (st\<lparr>app_runtime := rt\<rparr>)))))" for k x
    using g by (auto simp: after_update_def Let_def insert_task_def try_consume_system2_budget_def ungoverned_frame
        split: update_result.split prod.split bool.split)
  then show ?thesis using assms(2) Some u g
    by (auto simp: handle_belief_set_def Let_def split: sum.splits prod.splits) (metis snd_conv)
qed

lemma step_ungoverned: "server_step X st st' \<Longrightarrow> ungoverned (app_runtime st) \<Longrightarrow> ungoverned (app_runtime st')"
proof (induction rule: server_step.induct)
  case (set rd req st a sp st')
  then show ?case using set_ungoverned by blast
next
  case (finish st sp)
  then show ?case
    by (auto simp: spawned_finish_def update_task_def apply_system2_result_def release_system2_budget_def
        ungoverned_frame split: option.split sum.split)
qed (auto simp: spawned_start_def update_task_def handle_checkpoint_def runtime_checkpoint_def handle_rollback_def
    runtime_rollback_to_def ungoverned_frame split: prod.splits option.splits sum.splits)

text \<open>
  C4. The contract a server is started with is never enforced. It reaches the status endpoint only:
  in every state the server can get to, whatever requests and reflections ran, its runtime has no
  contract, no update is refused or rolled back by governance, and an update fails only because the
  revision itself fails.
\<close>

theorem configured_contract_unenforced:
  assumes "start_server (base_env X) w env read_file parse_toml parse_f32 parse_u32 provider client_for parse_addr db = Inr (addr, auth, st0)"
    "(server_step X)\<^sup>*\<^sup>* st0 st"
  shows "contracts (engine (app_runtime st)) = [] \<and> token_limit (app_runtime st) = None \<and>
    (\<forall>E rd b v p c. isl (fst (update_belief E rd b v p c (app_runtime st))) \<longrightarrow>
       (\<exists>e. fst (update_belief E rd b v p c (app_runtime st)) = Inl (Core (RevisionFailed e)))) \<and>
    (\<forall>E rd u k. fst (enforce_phase E rd u k (app_runtime st)) = Inr None)"
proof -
  have "ungoverned (app_runtime st0)"
    using assms(1) by (auto simp: start_server_def server_runtime_def Let_def runtime_new_def with_default_tau_def
        set_llm_client_def contract_engine_new_def ungoverned_def split: sum.splits if_splits option.splits)
  with assms(2) have g: "ungoverned (app_runtime st)"
    by (induction rule: rtranclp_induct) (auto dest: step_ungoverned)
  then have "contracts (engine (app_runtime st)) = []" "token_limit (app_runtime st) = None"
    by (simp_all add: ungoverned_def token_limit_def)
  moreover have "\<exists>e. fst (update_belief E rd b v p c (app_runtime st)) = Inl (Core (RevisionFailed e))"
    if "isl (fst (update_belief E rd b v p c (app_runtime st)))"
    for E rd b v p c
    using update_ungoverned [OF g, of E rd b v p c] that by (metis prod.collapse)
  moreover have "fst (enforce_phase E rd u k (app_runtime st)) = Inr None"
    for E rd u k
    using enforce_phase_ungoverned [OF g, of E rd u k] by auto
  ultimately show ?thesis by blast
qed

section \<open>Witnesses\<close>

definition demo_mcp where
  "demo_mcp =
     \<lparr> base_env = demo_env, st_get = memory_get, st_insert = memory_insert, st_update_status = memory_update_status,
       json_text = (\<lambda>j. case j of JString s \<Rightarrow> CHR 0x22 # s @ [CHR 0x22] | _ \<Rightarrow> ''null''),
       id_text = (\<lambda>b. ''id''), provenance_text = (\<lambda>p. ''user''), value_text = (\<lambda>v. ''value''),
       runtime_error_text = (\<lambda>e. ''error''), rollback_error_text = (\<lambda>e. ''error''), store_error_text = (\<lambda>e. ''error''),
       llm_error_text = (\<lambda>e. ''error''), show_uuid = (\<lambda>u. ''seven''),
       parse_uuid = (\<lambda>s. if s = ''seven'' then Some 7 else None) \<rparr>"

definition demo_calls :: mcp_readings where
  "demo_calls = \<lparr> rd_update = demo_readings, rd_task = 3, rd_call = 4, rd_now = 0, rd_elapsed = Fin 0 \<rparr>"

definition demo_set :: "string \<Rightarrow> belief_set_request" where
  "demo_set v = \<lparr> set_key = ''sky'', set_value = JString v, set_confidence = Fin (1 / 2), provenance_kind = None \<rparr>"

definition demo_app where
  "demo_app = \<lparr> app_runtime = empty_runtime, task_db = Map.empty :: memory_store, app_contract = None \<rparr>"

lemma demo_mcp_env [simp]: "base_env demo_mcp = demo_env"
  by (simp add: demo_mcp_def)

lemma demo_app_facts:
  "quad_wf ref_lib (rt_quad (app_runtime demo_app))" "checkpoints (rt_quad (app_runtime demo_app)) = []"
  "k \<notin> quad_keys ref_lib (rt_quad (app_runtime demo_app))" "get_by_key (app_runtime demo_app) k = None"
proof -
  have q: "rt_quad (app_runtime demo_app) = session_new ref_lib"
    by (simp add: demo_app_def empty_runtime_def runtime_new_def)
  have n: "quad_iter ref_lib (session_new ref_lib) = []" by code_simp
  show "quad_wf ref_lib (rt_quad (app_runtime demo_app))"
    using belief_lib.reachable_session_wf [OF ref_belief_lib reachable.start] by (simp add: q session_wf_def)
  show "checkpoints (rt_quad (app_runtime demo_app)) = []" by (simp add: q session_new_def)
  show "k \<notin> quad_keys ref_lib (rt_quad (app_runtime demo_app))"
    by (simp only: q quad_keys_def n list.map list.set empty_iff not_False_eq_True)
  show "get_by_key (app_runtime demo_app) k = None"
    by (simp only: demo_app_def get_by_key_def empty_runtime_def runtime_new_def build_key_index_def app_state.simps
        runtime.simps demo_env_lib n fold_simps id_apply)
qed

theorem rolled_back_key_unusable_witness:
  "\<exists>a1 sp st2 a2 st3 a st4.
     handle_belief_set demo_mcp demo_calls (demo_set ''blue'') (snd (handle_checkpoint demo_mcp 7 0 demo_app)) = (a1, sp, st2) \<and>
     handle_rollback demo_mcp ''seven'' st2 = (a2, st3) \<and> handle_belief_get demo_mcp ''sky'' st3 = Inl (McpNotFound ''sky'') \<and>
     run_sets demo_mcp [(demo_calls, demo_set ''grey'')] st3 = ([a], st4) \<and> isl a"
proof -
  obtain cp st1 where 1: "handle_checkpoint demo_mcp 7 0 demo_app = (cp, st1)" by fastforce
  obtain a1 sp st2 where 2: "handle_belief_set demo_mcp demo_calls (demo_set ''blue'') st1 = (a1, sp, st2)"
    by (metis prod.exhaust)
  obtain a2 st3 where 3: "handle_rollback demo_mcp ''seven'' st2 = (a2, st3)" by fastforce
  obtain a s st4 where h: "handle_belief_set demo_mcp demo_calls (demo_set ''grey'') st3 = (a, s, st4)"
    by (metis prod.exhaust)
  then have 4: "run_sets demo_mcp [(demo_calls, demo_set ''grey'')] st3 = ([a], st4)" by simp
  have "checkpoint_id_parse (parse_uuid demo_mcp) ''seven'' = Some 7"
    by (simp add: demo_mcp_def checkpoint_id_parse_def strip_prefix_def)
  then have "\<not> isl a1 \<and> \<not> isl a2 \<and> handle_belief_get demo_mcp ''sky'' st3 = Inl (McpNotFound ''sky'') \<and>
      list_all isl [a] \<and> handle_belief_get demo_mcp ''sky'' st4 = Inl (McpNotFound ''sky'')"
    by (intro rolled_back_key_unusable [OF _ _ _ _ _ _ 1 _ 2 _ 3 _ 4])
      (simp_all add: demo_app_facts ref_belief_lib demo_set_def)
  then show ?thesis using 1 2 3 4 by auto
qed

theorem set_then_get_witness:
  "map_sum (\<lambda>e. ()) get_value
     (handle_belief_get demo_mcp ''sky'' (snd (snd (handle_belief_set demo_mcp demo_calls (demo_set ''blue'') demo_app)))) =
     Inr (JString (CHR 0x22 # ''blue'' @ [CHR 0x22]))"
proof -
  obtain a sp st' where s: "handle_belief_set demo_mcp demo_calls (demo_set ''blue'') demo_app = (a, sp, st')"
    by (metis prod.exhaust)
  have "(\<exists>r. a = Inr r \<and> resp_task_id r = None) \<and> sp = None \<and>
    handle_belief_get demo_mcp ''sky'' st' = Inr \<lparr> get_key = ''sky'', get_value = JString (json_text demo_mcp (set_value (demo_set ''blue''))),
      get_fast_confidence = clamp01 (set_confidence (demo_set ''blue'')), get_slow_confidence = None,
      get_provenance = provenance_text demo_mcp (parse_provenance (rd_call demo_calls) (provenance_kind (demo_set ''blue''))) \<rparr>"
    by (rule set_then_get [OF _ _ _ _ _ s]) (simp_all add: demo_app_facts ref_belief_lib demo_set_def)
  then show ?thesis using s by (simp add: demo_set_def demo_mcp_def)
qed

definition demo_start where
  "demo_start =
     start_server demo_env empty_store (\<lambda>k. if k = ''EPICA_CONTRACTS_FILE'' then Some ''contract.toml'' else None)
       (\<lambda>path. Inr ''text'')
       (\<lambda>text. Inr \<lparr> cfg_domain = ''agent'', cfg_alpha = default_alpha, cfg_gamma = default_gamma, cfg_p = default_p,
          cfg_delta = 1, cfg_k = 100, cfg_preconditions = [ExistsConfig ''goal''], cfg_invariants = [],
          cfg_governance = governance_default \<rparr>)
       (\<lambda>s. None) (\<lambda>s. None) ''none'' (\<lambda>p. None) Some (Map.empty :: memory_store)"

theorem configured_contract_unenforced_witness:
  "\<exists>addr auth st0. demo_start = Inr (addr, auth, st0) \<and> app_contract st0 \<noteq> None \<and>
     contracts (engine (app_runtime (spawned_start demo_mcp \<lparr> sp_task = 3, sp_belief = NullKey, sp_signal =
       \<lparr> sig_key = ''goal'', sig_fast_confidence = Fin 0, sig_baseline = Fin 1, sig_divergence = Fin 1 \<rparr> \<rparr> st0))) = []"
proof -
  obtain addr auth st0 where d: "demo_start = Inr (addr, auth, st0)" "app_contract st0 \<noteq> None"
    by (simp add: demo_start_def start_server_def server_auth_def env_flag_def auth_config_from_env_def server_contract_def
        or_default_def Let_def eq_ignore_ascii_case_def to_lowercase_def char_lower_def)
  have "(server_step demo_mcp)\<^sup>*\<^sup>* st0 (spawned_start demo_mcp sp st0)" for sp
    by (rule r_into_rtranclp) (rule server_step.start)
  from configured_contract_unenforced [OF d(1) [unfolded demo_start_def, folded demo_mcp_env] this] d
  show ?thesis by blast
qed

end
