(* ===== verification/Llm_Clients.thy ===== *)
theory Llm_Clients
  imports Runtime
begin

text \<open>
  The clients of the language models and of the embedding service (\<open>epica-openai/src/client.rs\<close> and
  \<open>embeddings.rs\<close>, \<open>epica-anthropic/src/client.rs\<close>): the decoding of a reply, the retry loop, the
  mapping of errors, and the embedding provider with its cache and its queue. The HTTP exchange and
  the JSON decoders are parameters; prompts and schemas are texts of the request and left out.
\<close>

section \<open>Replies\<close>

text \<open>An exchange fails, or gives a status with its display text and a body.\<close>

datatype http_reply = NoReply string | Reply nat string string

definition success_status :: "nat \<Rightarrow> bool" where
  "success_status s \<longleftrightarrow> 200 \<le> s \<and> s < 300"

definition client_error_status :: "nat \<Rightarrow> bool" where
  "client_error_status s \<longleftrightarrow> 400 \<le> s \<and> s < 500"

definition http_text :: "string \<Rightarrow> string \<Rightarrow> string" where
  "http_text status body = ''HTTP '' @ status @ '': '' @ body"

section \<open>Retrying\<close>

definition MAX_RETRIES :: nat where "MAX_RETRIES = 3"
definition BASE_DELAY_MS :: u64 where "BASE_DELAY_MS = 500"
definition JITTER_MS :: u64 where "JITTER_MS = 150"

text \<open>The sleep before an attempt.\<close>

definition backoff_ms :: "nat \<Rightarrow> u64" where
  "backoff_ms attempt =
     (if attempt = 0 then 0
      else BASE_DELAY_MS * push_bit (attempt - 1) 1 + of_nat attempt * (JITTER_MS div of_nat MAX_RETRIES))"

text \<open>\<open>try n\<close> is the outcome of attempt \<open>n\<close>; the loop is the same in the three clients.\<close>

function retry_from :: "('e \<Rightarrow> bool) \<Rightarrow> (nat \<Rightarrow> 'e + 'r) \<Rightarrow> nat \<Rightarrow> 'e \<Rightarrow> 'e + 'r" where
  "retry_from retryable try attempt last_err =
     (if MAX_RETRIES \<le> attempt then Inl last_err
      else (case try attempt of
              Inr r \<Rightarrow> Inr r
            | Inl e \<Rightarrow> if retryable e then retry_from retryable try (attempt + 1) e else Inl e))"
  by pat_completeness auto

termination
  by (relation "measure (\<lambda>(_, _, attempt, _). MAX_RETRIES - attempt)") (auto simp: MAX_RETRIES_def)

definition llm_retryable :: "llm_client_error \<Rightarrow> bool" where
  "llm_retryable e = (case e of LlmRateLimited \<Rightarrow> True | LlmNetwork _ \<Rightarrow> True | _ \<Rightarrow> False)"

definition reflect :: "(nat \<Rightarrow> llm_client_error + system2_result) \<Rightarrow> llm_client_error + system2_result" where
  "reflect try = retry_from llm_retryable try 0 (LlmNetwork ''no attempts made'')"

section \<open>The chat completions client\<close>

record tool_call =
  call_name :: string
  call_arguments :: string

text \<open>\<open>decode_chat\<close> gives the tool calls of each choice, \<open>decode_args\<close> the two arguments.\<close>

record chat_api =
  decode_chat :: "string \<Rightarrow> string + tool_call list list"
  decode_args :: "string \<Rightarrow> string + f32 \<times> string"
  decode_scenarios :: "string \<Rightarrow> string + string list"

definition forced_call :: "string \<Rightarrow> tool_call list list \<Rightarrow> tool_call option" where
  "forced_call name choices =
     (case choices of
        (c # _) # _ \<Rightarrow> if call_name c = name then Some c else None
      | _ \<Rightarrow> None)"

definition openai_try_reflect :: "chat_api \<Rightarrow> http_reply \<Rightarrow> llm_client_error + system2_result" where
  "openai_try_reflect A reply =
     (case reply of
        NoReply e \<Rightarrow> Inl (LlmNetwork e)
      | Reply status shown body \<Rightarrow>
          if status = 429 then Inl LlmRateLimited
          else if client_error_status status then Inl (LlmClientFault (http_text shown body))
          else if \<not> success_status status then Inl (LlmNetwork (http_text shown body))
          else (case decode_chat A body of
                  Inl e \<Rightarrow> Inl (LlmDeserialize e)
                | Inr choices \<Rightarrow>
                    (case forced_call ''report_confidence'' choices of
                       None \<Rightarrow> Inl (LlmDeserialize ''no report_confidence tool_call in OpenAI response'')
                     | Some c \<Rightarrow>
                         (case decode_args A (call_arguments c) of
                            Inl e \<Rightarrow> Inl (LlmDeserialize e)
                          | Inr (conf, why) \<Rightarrow> Inr \<lparr> revised_confidence = clamp01 conf, reasoning = why \<rparr>))))"

definition openai_reflect :: "chat_api \<Rightarrow> (nat \<Rightarrow> http_reply) \<Rightarrow> llm_client_error + system2_result" where
  "openai_reflect A replies = reflect (\<lambda>n. openai_try_reflect A (replies n))"

definition openai_generate_scenarios ::
  "chat_api \<Rightarrow> http_reply \<Rightarrow> prospective_client_error + raw_prospective_scenario list" where
  "openai_generate_scenarios A reply =
     (case reply of
        NoReply e \<Rightarrow> Inl (ProspectiveNetwork e)
      | Reply status shown body \<Rightarrow>
          if status = 429 then Inl ProspectiveRateLimited
          else if \<not> success_status status then Inl (ProspectiveNetwork (http_text shown body))
          else (case decode_chat A body of
                  Inl e \<Rightarrow> Inl (ProspectiveDeserialize e)
                | Inr choices \<Rightarrow>
                    (case forced_call ''generate_scenarios'' choices of
                       None \<Rightarrow> Inl (ProspectiveDeserialize ''no generate_scenarios tool_call in OpenAI response'')
                     | Some c \<Rightarrow>
                         (case decode_scenarios A (call_arguments c) of
                            Inl e \<Rightarrow> Inl (ProspectiveDeserialize e)
                          | Inr qs \<Rightarrow> Inr (map (\<lambda>q. \<lparr> raw_scenario = q, raw_causal_events = [] \<rparr>) qs)))))"

section \<open>The messages client\<close>

record content_block =
  block_type :: string
  block_name :: "string option"
  block_input :: "json option"

record messages_api =
  decode_messages :: "string \<Rightarrow> string + content_block list"
  decode_confidence :: "json \<Rightarrow> string + f32 \<times> string"
  decode_queries :: "json \<Rightarrow> string + string list"

definition tool_input :: "string \<Rightarrow> content_block list \<Rightarrow> json option" where
  "tool_input name blocks =
     Option.bind (List.find (\<lambda>c. block_type c = ''tool_use'' \<and> block_name c = Some name) blocks) block_input"

definition anthropic_try_reflect :: "messages_api \<Rightarrow> http_reply \<Rightarrow> llm_client_error + system2_result" where
  "anthropic_try_reflect A reply =
     (case reply of
        NoReply e \<Rightarrow> Inl (LlmNetwork e)
      | Reply status shown body \<Rightarrow>
          if status = 429 then Inl LlmRateLimited
          else if client_error_status status then Inl (LlmClientFault (http_text shown body))
          else if \<not> success_status status then Inl (LlmNetwork (http_text shown body))
          else (case decode_messages A body of
                  Inl e \<Rightarrow> Inl (LlmDeserialize e)
                | Inr blocks \<Rightarrow>
                    (case tool_input ''report_confidence'' blocks of
                       None \<Rightarrow> Inl (LlmDeserialize ''no report_confidence tool_use in response'')
                     | Some j \<Rightarrow>
                         (case decode_confidence A j of
                            Inl e \<Rightarrow> Inl (LlmDeserialize e)
                          | Inr (conf, why) \<Rightarrow> Inr \<lparr> revised_confidence = clamp01 conf, reasoning = why \<rparr>))))"

definition anthropic_reflect :: "messages_api \<Rightarrow> (nat \<Rightarrow> http_reply) \<Rightarrow> llm_client_error + system2_result" where
  "anthropic_reflect A replies = reflect (\<lambda>n. anthropic_try_reflect A (replies n))"

definition anthropic_generate_scenarios ::
  "messages_api \<Rightarrow> http_reply \<Rightarrow> prospective_client_error + raw_prospective_scenario list" where
  "anthropic_generate_scenarios A reply =
     (case reply of
        NoReply e \<Rightarrow> Inl (ProspectiveNetwork e)
      | Reply status shown body \<Rightarrow>
          if status = 429 then Inl ProspectiveRateLimited
          else if \<not> success_status status then Inl (ProspectiveNetwork (http_text shown body))
          else (case decode_messages A body of
                  Inl e \<Rightarrow> Inl (ProspectiveDeserialize e)
                | Inr blocks \<Rightarrow>
                    (case tool_input ''generate_scenarios'' blocks of
                       None \<Rightarrow> Inl (ProspectiveDeserialize ''no generate_scenarios tool_use in response'')
                     | Some j \<Rightarrow>
                         (case decode_queries A j of
                            Inl e \<Rightarrow> Inl (ProspectiveDeserialize e)
                          | Inr qs \<Rightarrow> Inr (map (\<lambda>q. \<lparr> raw_scenario = q, raw_causal_events = [] \<rparr>) qs)))))"

section \<open>The embedding provider\<close>

datatype embedding_error =
    EmbeddingNetwork string
  | EmbeddingClient string
  | EmbeddingDeserialize string
  | EmbeddingRateLimited
  | EmbeddingMismatch nat nat

text \<open>The cache and the queue of texts asked for by the synchronous \<open>warm\<close>.\<close>

record openai_embeddings =
  batch_size :: nat
  emb_cache :: "string \<rightharpoonup> f32 list"
  emb_pending :: "string list"

definition openai_embeddings_new :: openai_embeddings where
  "openai_embeddings_new = \<lparr> batch_size = 64, emb_cache = Map.empty, emb_pending = [] \<rparr>"

definition with_batch_size :: "nat \<Rightarrow> openai_embeddings \<Rightarrow> openai_embeddings" where
  "with_batch_size n P = P\<lparr>batch_size := max 1 (min n 2048)\<rparr>"

definition embed_cached :: "openai_embeddings \<Rightarrow> string \<Rightarrow> f32 list option" where
  "embed_cached P t = emb_cache P t"

definition insert_cached :: "string \<Rightarrow> f32 list \<Rightarrow> openai_embeddings \<Rightarrow> openai_embeddings" where
  "insert_cached t v P = P\<lparr>emb_cache := (emb_cache P)(t \<mapsto> v)\<rparr>"

text \<open>Appends the texts that are neither cached nor listed yet.\<close>

definition add_missing :: "(string \<rightharpoonup> f32 list) \<Rightarrow> string list \<Rightarrow> string list \<Rightarrow> string list" where
  "add_missing known texts out = fold (\<lambda>t out. if known t = None \<and> t \<notin> set out then out @ [t] else out) texts out"

definition warm :: "string list \<Rightarrow> openai_embeddings \<Rightarrow> openai_embeddings" where
  "warm texts P = P\<lparr>emb_pending := add_missing (emb_cache P) texts (emb_pending P)\<rparr>"

definition embedding_retryable :: "embedding_error \<Rightarrow> bool" where
  "embedding_retryable e = (case e of EmbeddingRateLimited \<Rightarrow> True | EmbeddingNetwork _ \<Rightarrow> True | _ \<Rightarrow> False)"

text \<open>A reply's entries are sorted by their index, stably; \<open>decode\<close> is the JSON decoder.\<close>

definition try_fetch ::
  "(string \<Rightarrow> string + (f32 list \<times> nat) list) \<Rightarrow> string list \<Rightarrow> http_reply \<Rightarrow> embedding_error + f32 list list" where
  "try_fetch decode inputs reply =
     (case reply of
        NoReply e \<Rightarrow> Inl (EmbeddingNetwork e)
      | Reply status shown body \<Rightarrow>
          if status = 429 then Inl EmbeddingRateLimited
          else if client_error_status status then Inl (EmbeddingClient (http_text shown body))
          else if \<not> success_status status then Inl (EmbeddingNetwork (http_text shown body))
          else (case decode body of
                  Inl e \<Rightarrow> Inl (EmbeddingDeserialize e)
                | Inr data \<Rightarrow>
                    if length data \<noteq> length inputs then Inl (EmbeddingMismatch (length inputs) (length data))
                    else Inr (map fst (sort_key snd data))))"

text \<open>\<open>service inputs n\<close> is the reply to attempt \<open>n\<close> of a request for \<open>inputs\<close>.\<close>

definition fetch_with_retry ::
  "(string \<Rightarrow> string + (f32 list \<times> nat) list) \<Rightarrow> (string list \<Rightarrow> nat \<Rightarrow> http_reply) \<Rightarrow> string list \<Rightarrow>
     embedding_error + f32 list list" where
  "fetch_with_retry decode service inputs =
     retry_from embedding_retryable (\<lambda>n. try_fetch decode inputs (service inputs n)) 0 (EmbeddingNetwork ''no attempts made'')"

fun chunks :: "nat \<Rightarrow> 'x list \<Rightarrow> 'x list list" where
  "chunks n [] = []"
| "chunks n (x # xs) = (x # take (n - 1) xs) # chunks n (drop (n - 1) xs)"

fun warm_chunks ::
  "(string list \<Rightarrow> embedding_error + f32 list list) \<Rightarrow> string list list \<Rightarrow> nat \<Rightarrow> (string \<rightharpoonup> f32 list) \<Rightarrow>
     (embedding_error + nat) \<times> (string \<rightharpoonup> f32 list)" where
  "warm_chunks fetch [] fetched known = (Inr fetched, known)"
| "warm_chunks fetch (c # cs) fetched known =
     (case fetch c of
        Inl e \<Rightarrow> (Inl e, known)
      | Inr vs \<Rightarrow> warm_chunks fetch cs (fetched + length (zip c vs)) (known ++ map_of (rev (zip c vs))))"

text \<open>\<open>None\<close> is the panic of \<open>chunks_mut\<close> on a batch size of zero.\<close>

definition warm_async ::
  "(string list \<Rightarrow> embedding_error + f32 list list) \<Rightarrow> string list \<Rightarrow> openai_embeddings \<Rightarrow>
     (embedding_error + nat) option \<times> openai_embeddings" where
  "warm_async fetch texts P =
     (let missing = add_missing (emb_cache P) texts (add_missing (emb_cache P) (emb_pending P) []);
          P' = P\<lparr>emb_pending := []\<rparr>
      in if missing = [] then (Some (Inr 0), P')
         else if batch_size P = 0 then (None, P')
         else (case warm_chunks fetch (chunks (batch_size P) missing) 0 (emb_cache P) of
                 (r, known) \<Rightarrow> (Some r, P'\<lparr>emb_cache := known\<rparr>)))"

text \<open>\<open>mismatch_text\<close> is the text of a mismatch.\<close>

definition map_embedding_error :: "(nat \<Rightarrow> nat \<Rightarrow> string) \<Rightarrow> embedding_error \<Rightarrow> embed_error" where
  "map_embedding_error mismatch_text e =
     (case e of
        EmbeddingNetwork s \<Rightarrow> EmbedNetwork s
      | EmbeddingRateLimited \<Rightarrow> EmbedNetwork ''rate limited''
      | EmbeddingClient s \<Rightarrow> EmbedModel s
      | EmbeddingDeserialize s \<Rightarrow> EmbedModel s
      | EmbeddingMismatch expected got \<Rightarrow> EmbedModel (mismatch_text expected got))"

definition openai_embed ::
  "(nat \<Rightarrow> nat \<Rightarrow> string) \<Rightarrow> (string list \<Rightarrow> embedding_error + f32 list list) \<Rightarrow> string \<Rightarrow> openai_embeddings \<Rightarrow>
     (embed_error + f32 list) option \<times> openai_embeddings" where
  "openai_embed mismatch_text fetch t P =
     (case embed_cached P t of
        Some v \<Rightarrow> (Some (Inr v), P)
      | None \<Rightarrow>
          (case warm_async fetch [t] P of
             (None, P') \<Rightarrow> (None, P')
           | (Some (Inl e), P') \<Rightarrow> (Some (Inl (map_embedding_error mismatch_text e)), P')
           | (Some (Inr _), P') \<Rightarrow>
               (case embed_cached P' t of
                  Some v \<Rightarrow> (Some (Inr v), P')
                | None \<Rightarrow> (Some (Inl (EmbedModel
                    ''embedding missing from cache immediately after warm_async - provider returned 0 entries'')), P'))))"

section \<open>Properties\<close>

declare retry_from.simps [simp del]

definition transient :: "('e \<Rightarrow> bool) \<Rightarrow> 'e + 'r \<Rightarrow> bool" where
  "transient retryable r = (case r of Inl e \<Rightarrow> retryable e | Inr _ \<Rightarrow> False)"

text \<open>The loop is the first of three attempts that is not transient, or the last one.\<close>

lemma retry_attempts:
  "retry_from retryable try 0 e =
     (if transient retryable (try 0) then if transient retryable (try 1) then try 2 else try 1 else try 0)"
  by (simp add: retry_from.simps MAX_RETRIES_def transient_def numeral_2_eq_2 split: sum.split)

lemma reflect_in_unit [float_unit]:
  assumes "openai_reflect A replies = Inr r" "revised_confidence r \<noteq> NaN"
  shows "funit (revised_confidence r)"
proof -
  have "openai_try_reflect A (replies n) = Inr r \<Longrightarrow> funit (revised_confidence r)" for n
    using assms(2)
    by (auto simp: openai_try_reflect_def fclamp_unit_iff split: http_reply.splits if_splits sum.splits option.splits)
  then show ?thesis using assms(1) by (auto simp: openai_reflect_def reflect_def retry_attempts split: if_splits)
qed

lemma fetch_length: "fetch_with_retry decode service inputs = Inr vs \<Longrightarrow> length vs = length inputs"
proof -
  have "try_fetch decode inputs reply = Inr vs \<Longrightarrow> length vs = length inputs" for reply
    by (auto simp: try_fetch_def split: http_reply.splits if_splits sum.splits)
  then show "fetch_with_retry decode service inputs = Inr vs \<Longrightarrow> length vs = length inputs"
    by (auto simp: fetch_with_retry_def retry_attempts split: if_splits)
qed

lemma concat_chunks: "1 \<le> n \<Longrightarrow> concat (chunks n xs) = xs"
  by (induction n xs rule: chunks.induct) auto

lemma chunks_nonempty: "[] \<notin> set (chunks n xs)"
  by (induction n xs rule: chunks.induct) auto

lemma add_missing_set: "set (add_missing known ts out) = set out \<union> {t \<in> set ts. known t = None}"
  unfolding add_missing_def by (induction ts arbitrary: out) auto

lemma add_missing_distinct: "distinct out \<Longrightarrow> distinct (add_missing known ts out)"
  unfolding add_missing_def by (induction ts arbitrary: out) auto

lemma warm_chunks_run:
  assumes "\<forall>c vs. fetch c = Inr vs \<longrightarrow> length vs = length c"
  shows "warm_chunks fetch cs n known = (r, known') \<Longrightarrow> distinct (concat cs) \<Longrightarrow> set (concat cs) \<inter> dom known = {} \<Longrightarrow>
    [] \<notin> set cs \<Longrightarrow>
    (\<forall>t v. known t = Some v \<longrightarrow> known' t = Some v) \<and> dom known' \<subseteq> dom known \<union> set (concat cs) \<and>
    (case r of
       Inr m \<Rightarrow> dom known' = dom known \<union> set (concat cs) \<and> m = n + length (concat cs)
     | Inl e \<Rightarrow> \<exists>t \<in> set (concat cs). known' t = None)"
proof (induction cs arbitrary: n known)
  case (Cons c cs)
  show ?case
  proof (cases "fetch c")
    case (Inl e)
    obtain t where "t \<in> set c" using Cons.prems(4) by (cases c) auto
    moreover from this have "known t = None" using Cons.prems(3) by (auto simp: dom_def)
    ultimately show ?thesis using Cons.prems(1) Inl by auto
  next
    case (Inr vs)
    let ?known = "known ++ map_of (rev (zip c vs))"
    have len: "length vs = length c" using assms Inr by blast
    have dom: "dom ?known = dom known \<union> set c"
      using len by (auto simp: dom_map_of_conv_image_fst in_set_zip) (metis fst_conv image_eqI in_set_impl_in_set_zip1 len surj_pair)
    have keep: "?known t = Some v" if "known t = Some v" for t v
    proof -
      have "t \<notin> set c" using that Cons.prems(3) by auto
      then have "t \<notin> dom (map_of (rev (zip c vs)))" by (auto simp: dom_map_of_conv_image_fst dest: set_zip_leftD)
      then show ?thesis using that by (simp add: map_add_dom_app_simps)
    qed
    have step: "warm_chunks fetch cs (n + length c) ?known = (r, known')" using Cons.prems(1) Inr len by simp
    have "set c \<inter> set (concat cs) = {}" "distinct (concat cs)" using Cons.prems(2) by simp_all
    moreover from this have "set (concat cs) \<inter> dom ?known = {}" using Cons.prems(3) unfolding dom by auto
    moreover have "[] \<notin> set cs" using Cons.prems(4) by simp
    ultimately have IH: "(\<forall>t v. ?known t = Some v \<longrightarrow> known' t = Some v) \<and> dom known' \<subseteq> dom ?known \<union> set (concat cs) \<and>
      (case r of Inr m \<Rightarrow> dom known' = dom ?known \<union> set (concat cs) \<and> m = n + length c + length (concat cs)
       | Inl e \<Rightarrow> \<exists>t \<in> set (concat cs). known' t = None)" by (intro Cons.IH [OF step])
    moreover have "\<forall>t v. known t = Some v \<longrightarrow> known' t = Some v" using IH keep by blast
    ultimately show ?thesis unfolding dom by (cases r) auto
  qed
qed (auto split: sum.splits)

text \<open>
  C36. Warming the embedding cache. Whatever the service answers, no cached embedding is lost or changed.
  If it succeeds, the cached texts are exactly those cached before, those asked for and those queued,
  and the count is the number of new ones; if it fails, some text asked for or queued stays without
  an embedding. In both cases the queue is empty afterwards, so a queued text whose fetch failed is
  forgotten.
\<close>

theorem warm_fills_cache:
  assumes "1 \<le> batch_size P" "warm_async (fetch_with_retry decode service) texts P = (r, P')"
  shows "emb_pending P' = [] \<and> (\<forall>t v. emb_cache P t = Some v \<longrightarrow> emb_cache P' t = Some v) \<and>
    (\<exists>x. r = Some x \<and>
       (case x of
          Inr n \<Rightarrow> dom (emb_cache P') = dom (emb_cache P) \<union> set texts \<union> set (emb_pending P) \<and>
                  n = card (dom (emb_cache P') - dom (emb_cache P))
        | Inl e \<Rightarrow> \<exists>t \<in> set texts \<union> set (emb_pending P). emb_cache P' t = None))"
proof -
  let ?missing = "add_missing (emb_cache P) texts (add_missing (emb_cache P) (emb_pending P) [])"
  have set: "set ?missing = (set texts \<union> set (emb_pending P)) - dom (emb_cache P)"
    by (auto simp: add_missing_set)
  have dist: "distinct ?missing" by (intro add_missing_distinct) simp
  show ?thesis
  proof (cases "?missing = []")
    case True
    then have "set texts \<union> set (emb_pending P) \<subseteq> dom (emb_cache P)" using set by auto
    then have "dom (emb_cache P) = dom (emb_cache P) \<union> set texts \<union> set (emb_pending P)" by blast
    then show ?thesis using True assms(2) by (auto simp: warm_async_def Let_def)
  next
    case False
    let ?cs = "chunks (batch_size P) ?missing"
    obtain x known where w: "warm_chunks (fetch_with_retry decode service) ?cs 0 (emb_cache P) = (x, known)" by fastforce
    have cs: "concat ?cs = ?missing" using assms(1) by (rule concat_chunks)
    have res: "r = Some x" "P' = P\<lparr>emb_pending := [], emb_cache := known\<rparr>"
      using assms False w by (auto simp: warm_async_def Let_def)
    have run: "(\<forall>t v. emb_cache P t = Some v \<longrightarrow> known t = Some v) \<and> dom known \<subseteq> dom (emb_cache P) \<union> set ?missing \<and>
      (case x of Inr m \<Rightarrow> dom known = dom (emb_cache P) \<union> set ?missing \<and> m = 0 + length ?missing
       | Inl e \<Rightarrow> \<exists>t \<in> set ?missing. known t = None)"
      using warm_chunks_run [OF _ w, unfolded cs, OF _ dist _ chunks_nonempty] set fetch_length by blast
    have "dom known - dom (emb_cache P) = set ?missing" if "dom known = dom (emb_cache P) \<union> set ?missing"
      using that set by blast
    moreover have "length ?missing = card (set ?missing)" using distinct_card [OF dist] by simp
    ultimately show ?thesis using run res set by (cases x) (auto simp del: length_0_conv)
  qed
qed

theorem warm_fills_cache_witness:
  "\<exists>r P'. warm_async (fetch_with_retry (\<lambda>body. Inr [([Fin 1], 1), ([Fin 0], 0)])
       (\<lambda>inputs n. if n = 0 then Reply 503 ''503'' '''' else if inputs = [''a'', ''b''] then Reply 200 ''200'' ''ok'' else NoReply ''down''))
       [''b''] (warm [''a''] openai_embeddings_new) = (r, P') \<and> r = Some (Inr 2) \<and> emb_pending P' = []"
proof -
  let ?fetch = "fetch_with_retry (\<lambda>body. Inr [([Fin 1], 1), ([Fin 0], 0)])
       (\<lambda>inputs n. if n = 0 then Reply 503 ''503'' '''' else if inputs = [''a'', ''b''] then Reply 200 ''200'' ''ok'' else NoReply ''down'')"
  let ?P = "warm [''a''] openai_embeddings_new"
  obtain r P' where w: "warm_async ?fetch [''b''] ?P = (r, P')" by fastforce
  have "r = Some (Inr 2)"
  proof -
    have "fst (warm_async ?fetch [''b''] ?P) = Some (Inr 2)" by code_simp
    then show ?thesis using w by simp
  qed
  moreover have "emb_pending P' = []"
    using warm_fills_cache [OF _ w] by (simp add: warm_def openai_embeddings_new_def)
  ultimately show ?thesis using w by blast
qed

end
