(* ===== verification/Long_Term_Memory.thy ===== *)
theory Long_Term_Memory
  imports Sovereignty
begin

text \<open>
  Long-term memory (\<open>epica-memory/src\<close>): the types of the bridge (\<open>types.rs\<close>, \<open>store.rs\<close>), the working
  memory over Redis (\<open>redis/mod.rs\<close>) and the store over Neo4j (\<open>neo4j/mod.rs\<close>). The commands of the
  two servers and the JSON codecs are parameters; a command can fail, and then the loop that issued
  it stops with what it has written.
\<close>

section \<open>Types\<close>

datatype memory_error = MemoryConnection string | MemorySerialization string | MemorySovereignty string

record flush_result =
  beliefs_written :: nat
  causal_edges_written :: nat
  duration_ms :: u64

record belief_key_descriptor =
  desc_key :: string
  value_type :: string
  desc_source :: string
  has_ttl :: bool
  has_prospective_index :: bool

record schema_descriptor =
  schema_domain :: string
  belief_keys :: "belief_key_descriptor list"
  schema_version :: string

section \<open>Redis\<close>

record 'd redis_api =
  cmd_set :: "'d \<Rightarrow> string \<Rightarrow> string \<Rightarrow> (string + unit) \<times> 'd"
  cmd_set_ex :: "'d \<Rightarrow> string \<Rightarrow> string \<Rightarrow> u64 \<Rightarrow> (string + unit) \<times> 'd"
  cmd_keys :: "'d \<Rightarrow> string \<Rightarrow> string + string list"
  cmd_get :: "'d \<Rightarrow> string \<Rightarrow> string + string option"
  snapshot_to_string :: "belief_snapshot \<Rightarrow> string + string"
  snapshot_from_str :: "string \<Rightarrow> string + belief_snapshot"

definition KEY_PREFIX :: string where
  "KEY_PREFIX = ''epica:belief:''"

definition redis_ttl :: "retention_policy \<Rightarrow> u64 option" where
  "redis_ttl p =
     (case p of Permanent \<Rightarrow> None | Duration ms \<Rightarrow> Some (ms div 1000) | SessionScoped \<Rightarrow> Some 3600 | Until c \<Rightarrow> None)"

fun redis_write ::
  "'d redis_api \<Rightarrow> u64 option \<Rightarrow> belief_snapshot list \<Rightarrow> nat \<Rightarrow> 'd \<Rightarrow> (memory_error + nat) \<times> 'd" where
  "redis_write R ttl [] written d = (Inr written, d)"
| "redis_write R ttl (s # ss) written d =
     (let k = KEY_PREFIX @ snap_key s
      in case snapshot_to_string R s of
           Inl e \<Rightarrow> (Inl (MemorySerialization e), d)
         | Inr j \<Rightarrow>
             (case (case ttl of Some t \<Rightarrow> cmd_set_ex R d k j t | None \<Rightarrow> cmd_set R d k j) of
                (Inl e, d') \<Rightarrow> (Inl (MemoryConnection e), d')
              | (Inr _, d') \<Rightarrow> redis_write R ttl ss (written + 1) d'))"

text \<open>The two clock readings are arguments; their difference wraps.\<close>

definition redis_flush ::
  "'d redis_api \<Rightarrow> 'q mnemonic_sovereignty \<Rightarrow> u64 \<Rightarrow> u64 \<Rightarrow> belief_snapshot list \<Rightarrow> 'd \<Rightarrow>
     (memory_error + flush_result) \<times> 'd" where
  "redis_flush R sov start_ms end_ms ss d =
     (case redis_write R (redis_ttl (retention sov)) ss 0 d of
        (Inl e, d') \<Rightarrow> (Inl e, d')
      | (Inr n, d') \<Rightarrow>
          (Inr \<lparr> beliefs_written = n, causal_edges_written = 0, duration_ms = end_ms - start_ms \<rparr>, d'))"

definition restored :: "u64 \<Rightarrow> f32 \<Rightarrow> belief_snapshot \<Rightarrow> belief_node" where
  "restored now recency_decay s =
     (belief_node_new now (snap_key s) (snap_value s) (RuntimeInference [])
        (clamp01 (fmul F32 (snap_fast_confidence s) recency_decay)))
       \<lparr>slow_confidence := map_option (\<lambda>c. fmul F32 c recency_decay) (snap_slow_confidence s)\<rparr>"

text \<open>Each loaded node reads the clock: \<open>clock\<close> gives the reading made for a key.\<close>

fun redis_read ::
  "'d redis_api \<Rightarrow> (string \<Rightarrow> u64) \<Rightarrow> f32 \<Rightarrow> 'd \<Rightarrow> string list \<Rightarrow> memory_error + belief_node list" where
  "redis_read R clock decay d [] = Inr []"
| "redis_read R clock decay d (k # ks) =
     (case cmd_get R d k of
        Inl e \<Rightarrow> Inl (MemoryConnection e)
      | Inr None \<Rightarrow> redis_read R clock decay d ks
      | Inr (Some j) \<Rightarrow>
          (case snapshot_from_str R j of
             Inl e \<Rightarrow> Inl (MemorySerialization e)
           | Inr s \<Rightarrow>
               (case redis_read R clock decay d ks of
                  Inl e \<Rightarrow> Inl e
                | Inr ns \<Rightarrow> Inr (restored (clock k) decay s # ns))))"

definition redis_load ::
  "'d redis_api \<Rightarrow> (string \<Rightarrow> u64) \<Rightarrow> schema_descriptor \<Rightarrow> f32 \<Rightarrow> 'd \<Rightarrow> memory_error + belief_node list" where
  "redis_load R clock schema recency_decay d =
     (case cmd_keys R d (KEY_PREFIX @ ''*'') of
        Inl e \<Rightarrow> Inl (MemoryConnection e)
      | Inr ks \<Rightarrow> redis_read R clock recency_decay d ks)"

section \<open>Neo4j\<close>

text \<open>
  The row of a belief as the statements write and read it. A field that cannot be read is its error's
  text; \<open>row_updated\<close> is absent then.
\<close>

record belief_row =
  row_key :: "string + string"
  row_value_json :: "string + string"
  row_fast :: "string + f64"
  row_slow :: f64
  row_version :: int
  row_updated :: "int option"

text \<open>\<open>merge_belief\<close> runs the \<open>MERGE\<close> statement, \<open>match_beliefs\<close> the \<open>MATCH\<close>, whose rows arrive one by one.\<close>

record 'd neo4j_api =
  merge_belief :: "'d \<Rightarrow> belief_row \<Rightarrow> (string + unit) \<times> 'd"
  match_beliefs :: "'d \<Rightarrow> string list \<Rightarrow> string + (string + belief_row) list"
  value_to_string :: "belief_value \<Rightarrow> string + string"
  value_from_str :: "string \<Rightarrow> string + belief_value"

definition row_of :: "u64 \<Rightarrow> string \<Rightarrow> belief_snapshot \<Rightarrow> belief_row" where
  "row_of now j s =
     \<lparr> row_key = Inr (snap_key s), row_value_json = Inr j, row_fast = Inr (f_cast F64 (snap_fast_confidence s)),
       row_slow = (case snap_slow_confidence s of None \<Rightarrow> NaN | Some c \<Rightarrow> f_cast F64 c),
       row_version = sint (version_at_snapshot s), row_updated = Some (sint now) \<rparr>"

fun neo4j_write :: "'d neo4j_api \<Rightarrow> u64 \<Rightarrow> belief_snapshot list \<Rightarrow> nat \<Rightarrow> 'd \<Rightarrow> (memory_error + nat) \<times> 'd" where
  "neo4j_write N now [] written d = (Inr written, d)"
| "neo4j_write N now (s # ss) written d =
     (case value_to_string N (snap_value s) of
        Inl e \<Rightarrow> (Inl (MemorySerialization e), d)
      | Inr j \<Rightarrow>
          (case merge_belief N d (row_of now j s) of
             (Inl e, d') \<Rightarrow> (Inl (MemoryConnection e), d')
           | (Inr _, d') \<Rightarrow> neo4j_write N now ss (written + 1) d'))"

definition neo4j_flush ::
  "'d neo4j_api \<Rightarrow> u64 \<Rightarrow> u64 \<Rightarrow> belief_snapshot list \<Rightarrow> 'd \<Rightarrow> (memory_error + flush_result) \<times> 'd" where
  "neo4j_flush N now elapsed ss d =
     (case neo4j_write N now ss 0 d of
        (Inl e, d') \<Rightarrow> (Inl e, d')
      | (Inr n, d') \<Rightarrow> (Inr \<lparr> beliefs_written = n, causal_edges_written = 0, duration_ms = elapsed \<rparr>, d'))"

text \<open>\<open>now\<close> is the reading the retention is checked against; node \<open>i\<close> of the rows reads \<open>clock i\<close>.\<close>

fun neo4j_read ::
  "'d neo4j_api \<Rightarrow> 'q mnemonic_sovereignty \<Rightarrow> u64 \<Rightarrow> (nat \<Rightarrow> u64) \<Rightarrow> f32 \<Rightarrow> (string + belief_row) list \<Rightarrow>
     memory_error + belief_node list" where
  "neo4j_read N sov now clock decay [] = Inr []"
| "neo4j_read N sov now clock decay (Inl e # rows) = Inl (MemoryConnection e)"
| "neo4j_read N sov now clock decay (Inr row # rows) =
     (case (row_key row, row_value_json row, row_fast row) of
        (Inl e, _, _) \<Rightarrow> Inl (MemorySerialization e)
      | (_, Inl e, _) \<Rightarrow> Inl (MemorySerialization e)
      | (_, _, Inl e) \<Rightarrow> Inl (MemorySerialization e)
      | (Inr k, Inr j, Inr c) \<Rightarrow>
          (let updated = (case row_updated row of None \<Rightarrow> sint now | Some u \<Rightarrow> u)
           in if is_belief_expired sov (word_of_int updated) now
              then neo4j_read N sov now (\<lambda>i. clock (Suc i)) decay rows
              else (case value_from_str N j of
                      Inl e \<Rightarrow> Inl (MemorySerialization e)
                    | Inr v \<Rightarrow>
                        (case neo4j_read N sov now (\<lambda>i. clock (Suc i)) decay rows of
                           Inl e \<Rightarrow> Inl e
                         | Inr ns \<Rightarrow>
                             Inr (belief_node_new (clock 0) k v (RuntimeInference [])
                                    (clamp01 (fmul F32 (f_cast F32 c) decay)) # ns)))))"

definition neo4j_load ::
  "'d neo4j_api \<Rightarrow> 'q mnemonic_sovereignty \<Rightarrow> u64 \<Rightarrow> (nat \<Rightarrow> u64) \<Rightarrow> schema_descriptor \<Rightarrow> f32 \<Rightarrow> 'd \<Rightarrow>
     memory_error + belief_node list" where
  "neo4j_load N sov now clock schema recency_decay d =
     (case match_beliefs N d (map desc_key (belief_keys schema)) of
        Inl e \<Rightarrow> Inl (MemoryConnection e)
      | Inr rows \<Rightarrow> neo4j_read N sov now clock recency_decay rows)"

section \<open>What is assumed of Redis\<close>

text \<open>
  \<open>contents\<close> is what a reader sees. A successful command reads or writes one key, a failed one changes
  nothing; \<open>KEYS\<close> with a pattern of plain text and a final star lists the keys with that prefix,
  each once; and the codec reads back the snapshots named by \<open>codable\<close>.
\<close>

locale redis_server =
  fixes R :: "'d redis_api"
    and contents :: "'d \<Rightarrow> string \<rightharpoonup> string"
    and codable :: "belief_snapshot \<Rightarrow> bool"
  assumes set_ok: "cmd_set R d k j = (Inr (), d') \<Longrightarrow> contents d' = (contents d)(k \<mapsto> j)"
    and set_ex_ok: "cmd_set_ex R d k j t = (Inr (), d') \<Longrightarrow> contents d' = (contents d)(k \<mapsto> j)"
    and get_ok: "cmd_get R d k = Inr r \<Longrightarrow> r = contents d k"
    and keys_ok: "cmd_keys R d (p @ ''*'') = Inr ks \<Longrightarrow> set ks = {k \<in> dom (contents d). take (length p) k = p}"
    and keys_once: "cmd_keys R d p = Inr ks \<Longrightarrow> distinct ks"
    and codec: "codable s \<Longrightarrow> snapshot_to_string R s = Inr j \<Longrightarrow> snapshot_from_str R j = Inr s"

text \<open>Each entry under the prefix is a snapshot of the belief its key names.\<close>

definition tidy :: "'d redis_api \<Rightarrow> ('d \<Rightarrow> string \<rightharpoonup> string) \<Rightarrow> 'd \<Rightarrow> bool" where
  "tidy R contents d \<longleftrightarrow>
     (\<forall>k j s. contents d (KEY_PREFIX @ k) = Some j \<longrightarrow> snapshot_from_str R j = Inr s \<longrightarrow> snap_key s = k)"

context redis_server
begin

lemma write_step:
  assumes "(case ttl of Some t \<Rightarrow> cmd_set_ex R d k j t | None \<Rightarrow> cmd_set R d k j) = (Inr (), d')"
  shows "contents d' = (contents d)(k \<mapsto> j)"
  using assms by (cases ttl) (auto dest: set_ok set_ex_ok)

lemma write_stores:
  "redis_write R ttl ss n d = (Inr m, d') \<Longrightarrow> \<forall>s \<in> set ss. codable s \<Longrightarrow> distinct (map snap_key ss) \<Longrightarrow> tidy R contents d \<Longrightarrow>
     m = n + length ss \<and> tidy R contents d' \<and>
     (\<forall>s \<in> set ss. \<exists>j. contents d' (KEY_PREFIX @ snap_key s) = Some j \<and> snapshot_from_str R j = Inr s) \<and>
     (\<forall>k. k \<notin> (\<lambda>s. KEY_PREFIX @ snap_key s) ` set ss \<longrightarrow> contents d' k = contents d k)"
proof (induction ss arbitrary: n d)
  case (Cons s ss)
  let ?k = "KEY_PREFIX @ snap_key s"
  obtain j d1 where j: "snapshot_to_string R s = Inr j"
    "(case ttl of Some t \<Rightarrow> cmd_set_ex R d ?k j t | None \<Rightarrow> cmd_set R d ?k j) = (Inr (), d1)"
    "redis_write R ttl ss (n + 1) d1 = (Inr m, d')"
    using Cons.prems(1) by (auto simp: Let_def split: sum.splits prod.splits)
  have c1: "contents d1 = (contents d)(?k \<mapsto> j)" by (rule write_step [OF j(2)])
  have read: "snapshot_from_str R j = Inr s" using Cons.prems(2) j(1) by (intro codec) simp_all
  have "tidy R contents d1" using Cons.prems(4) read by (auto simp: tidy_def c1)
  with Cons.IH [OF j(3)] Cons.prems(2,3)
  have IH: "m = n + 1 + length ss \<and> tidy R contents d' \<and>
     (\<forall>s \<in> set ss. \<exists>j. contents d' (KEY_PREFIX @ snap_key s) = Some j \<and> snapshot_from_str R j = Inr s) \<and>
     (\<forall>k. k \<notin> (\<lambda>s. KEY_PREFIX @ snap_key s) ` set ss \<longrightarrow> contents d' k = contents d1 k)" by simp
  have "?k \<notin> (\<lambda>s. KEY_PREFIX @ snap_key s) ` set ss" using Cons.prems(3) by auto
  then have "contents d' ?k = Some j" using IH c1 by simp
  then show ?case using IH read c1 by auto
qed simp

lemma read_nodes:
  "redis_read R clock decay d ks = Inr ns \<Longrightarrow>
     set ns = {restored (clock k) decay s | k j s. k \<in> set ks \<and> contents d k = Some j \<and> snapshot_from_str R j = Inr s}"
proof (induction ks arbitrary: ns)
  case (Cons k ks)
  obtain r where g: "cmd_get R d k = Inr r" using Cons.prems by (auto split: sum.splits)
  then have r: "r = contents d k" by (rule get_ok)
  show ?case
  proof (cases r)
    case None
    then show ?thesis using Cons g r by auto
  next
    case (Some j)
    then obtain s ms where s: "snapshot_from_str R j = Inr s" "redis_read R clock decay d ks = Inr ms"
        "ns = restored (clock k) decay s # ms"
      using Cons.prems g by (auto split: sum.splits)
    show ?thesis using Cons.IH [OF s(2)] s Some r by auto
  qed
qed simp

lemma restored_key [simp]: "key (restored t decay s) = snap_key s"
  by (simp add: restored_def belief_node_new_def)

text \<open>The keys of the loaded nodes are those listed, less the prefix, in the same order.\<close>

lemma read_keys:
  "redis_read R clock decay d ks = Inr ns \<Longrightarrow> tidy R contents d \<Longrightarrow>
     \<forall>k \<in> set ks. take (length KEY_PREFIX) k = KEY_PREFIX \<Longrightarrow> distinct ks \<Longrightarrow>
     distinct (map key ns) \<and> (\<forall>n \<in> set ns. KEY_PREFIX @ key n \<in> set ks)"
proof (induction ks arbitrary: ns)
  case (Cons k ks)
  obtain r where g: "cmd_get R d k = Inr r" using Cons.prems by (auto split: sum.splits)
  then have r: "r = contents d k" by (rule get_ok)
  show ?case
  proof (cases r)
    case None
    then show ?thesis using Cons g by auto
  next
    case (Some j)
    then obtain s ms where s: "snapshot_from_str R j = Inr s" "redis_read R clock decay d ks = Inr ms"
        "ns = restored (clock k) decay s # ms"
      using Cons.prems(1) g by (auto split: sum.splits)
    have "k = KEY_PREFIX @ drop (length KEY_PREFIX) k"
      using Cons.prems(3) by (metis append_take_drop_id list.set_intros(1))
    then have "KEY_PREFIX @ snap_key s = k" using Cons.prems(2) s(1) Some r unfolding tidy_def by metis
    moreover have "distinct (map key ms) \<and> (\<forall>n \<in> set ms. KEY_PREFIX @ key n \<in> set ks)"
      using Cons.IH [OF s(2)] Cons.prems(2-4) by simp
    ultimately show ?thesis using s(3) Cons.prems(4) by auto
  qed
qed simp

lemma flush_load:
  assumes "redis_flush R sov t0 t1 ss d = (Inr r, d')" "redis_load R clock schema decay d' = Inr ns"
    "\<forall>s \<in> set ss. codable s" "distinct (map snap_key ss)" "tidy R contents d"
  shows "beliefs_written r = length ss \<and>
    mset (filter (\<lambda>n. key n \<in> snap_key ` set ss) ns) =
      mset (map (\<lambda>s. restored (clock (KEY_PREFIX @ snap_key s)) decay s) ss)"
proof -
  let ?loaded = "\<lambda>s. restored (clock (KEY_PREFIX @ snap_key s)) decay s"
  obtain m where w: "redis_write R (redis_ttl (retention sov)) ss 0 d = (Inr m, d')" "beliefs_written r = m"
    using assms(1) by (auto simp: redis_flush_def split: prod.splits sum.splits)
  note st = write_stores [OF w(1) assms(3-5)]
  obtain ks where ks: "cmd_keys R d' (KEY_PREFIX @ ''*'') = Inr ks" "redis_read R clock decay d' ks = Inr ns"
    using assms(2) by (auto simp: redis_load_def split: sum.splits)
  have set_ks: "set ks = {k \<in> dom (contents d'). take (length KEY_PREFIX) k = KEY_PREFIX}" by (rule keys_ok [OF ks(1)])
  have tidy: "snap_key s = k" if "contents d' (KEY_PREFIX @ k) = Some j" "snapshot_from_str R j = Inr s" for k j s
    using that st unfolding tidy_def by blast
  have mem: "x \<in> set ns \<longleftrightarrow> (\<exists>j s. contents d' (KEY_PREFIX @ snap_key s) = Some j \<and> snapshot_from_str R j = Inr s \<and>
      x = ?loaded s)" (is "_ \<longleftrightarrow> ?found x") for x
  proof
    assume "x \<in> set ns"
    then obtain k j s where k: "take (length KEY_PREFIX) k = KEY_PREFIX" "contents d' k = Some j"
        "snapshot_from_str R j = Inr s" "x = restored (clock k) decay s"
      unfolding read_nodes [OF ks(2)] set_ks by blast
    have "k = KEY_PREFIX @ snap_key s" using k(1-3) tidy by (metis append_take_drop_id)
    then show "?found x" using k(2-4) by blast
  next
    assume "?found x"
    then show "x \<in> set ns" unfolding read_nodes [OF ks(2)] set_ks by force
  qed
  have "x \<in> ?loaded ` set ss" if here: "x \<in> set ns" "key x \<in> snap_key ` set ss" for x
  proof -
    obtain j s where x: "contents d' (KEY_PREFIX @ snap_key s) = Some j" "snapshot_from_str R j = Inr s" "x = ?loaded s"
      using here(1) mem by blast
    moreover obtain s' where s': "s' \<in> set ss" "snap_key s' = snap_key s" using here(2) x(3) by auto
    ultimately have "s' = s" using st by (metis Inr_inject option.inject)
    then show ?thesis using s'(1) x(3) by blast
  qed
  moreover have "?loaded s \<in> set ns \<and> key (?loaded s) \<in> snap_key ` set ss" if "s \<in> set ss" for s
    using that st unfolding mem by fastforce
  ultimately have eq: "set (filter (\<lambda>n. key n \<in> snap_key ` set ss) ns) = set (map ?loaded ss)" by auto
  have "distinct (map key ns)"
    using read_keys [OF ks(2) _ _ keys_once [OF ks(1)]] st unfolding set_ks by blast
  then have "distinct (filter (\<lambda>n. key n \<in> snap_key ` set ss) ns)" by (simp add: distinct_map)
  moreover have "distinct (map ?loaded ss)"
    using assms(4) by (metis (no_types, lifting) distinct_map inj_onI restored_key inj_onD)
  ultimately show ?thesis using eq st w(2) by (simp only: set_eq_iff_mset_eq_distinct add_0)
qed

end

text \<open>
  C21. Working memory keeps what it is given. When snapshots with distinct keys, of a kind the codec
  reads back, are flushed successfully to a store whose entries sit under their own keys (\<open>tidy\<close>),
  and nothing expires, a successful load returns for those keys exactly one belief per snapshot:
  its value, its fast confidence decayed and clamped, its slow confidence decayed, and, where the
  documentation speaks of a tool result, an empty inference as provenance; whatever the schema and
  the retention are.
\<close>

theorem flush_load_roundtrip:
  assumes "redis_server R contents codable" "redis_flush R sov t0 t1 ss d = (Inr r, d')"
    "redis_load R clock schema decay d' = Inr ns"
    "\<forall>s \<in> set ss. codable s" "distinct (map snap_key ss)" "tidy R contents d"
  shows "beliefs_written r = length ss \<and>
    mset (filter (\<lambda>n. key n \<in> snap_key ` set ss) ns) =
      mset (map (\<lambda>s. restored (clock (KEY_PREFIX @ snap_key s)) decay s) ss)"
  by (rule redis_server.flush_load [OF assms])

text \<open>
  The witness: a server whose contents are an association list, with a codec for asserted texts of full
  confidence.
\<close>

definition demo_snapshot :: "string \<Rightarrow> string \<Rightarrow> belief_snapshot" where
  "demo_snapshot k v =
     \<lparr> snap_id = NullKey, snap_key = k, snap_value = Asserted v, snap_fast_confidence = Fin 1,
       snap_slow_confidence = None, version_at_snapshot = 1 \<rparr>"

definition demo_to_string :: "belief_snapshot \<Rightarrow> string + string" where
  "demo_to_string s =
     (case snap_value s of Asserted v \<Rightarrow> Inr (replicate (length (snap_key s)) CHR ''#'' @ '' '' @ snap_key s @ v)
      | _ \<Rightarrow> Inl ''value'')"

definition demo_from_str :: "string \<Rightarrow> string + belief_snapshot" where
  "demo_from_str j =
     (let n = length (takeWhile (\<lambda>c. c \<noteq> CHR '' '') j); t = drop (n + 1) j
      in Inr (demo_snapshot (take n t) (drop n t)))"

definition demo_redis :: "(string \<times> string) list redis_api" where
  "demo_redis =
     \<lparr> cmd_set = (\<lambda>d k j. (Inr (), (k, j) # d)),
       cmd_set_ex = (\<lambda>d k j t. if t = 0 then (Inl ''ERR invalid expire time'', d) else (Inr (), (k, j) # d)),
       cmd_keys = (\<lambda>d p. Inr [k \<leftarrow> remdups (map fst d). take (length p - 1) k = butlast p]),
       cmd_get = (\<lambda>d k. Inr (map_of d k)),
       snapshot_to_string = demo_to_string, snapshot_from_str = demo_from_str \<rparr>"

lemma demo_codec:
  assumes "\<exists>k v. s = demo_snapshot k v" "demo_to_string s = Inr j"
  shows "demo_from_str j = Inr s"
proof -
  obtain k v where s: "s = demo_snapshot k v" using assms(1) by blast
  then have j: "j = replicate (length k) CHR ''#'' @ CHR '' '' # k @ v"
    using assms(2) by (simp add: demo_to_string_def demo_snapshot_def)
  have "takeWhile (\<lambda>c. c \<noteq> CHR '' '') j = replicate (length k) CHR ''#''"
    unfolding j by (subst takeWhile_append2) auto
  then show ?thesis by (simp add: demo_from_str_def s Let_def) (simp add: j)
qed

interpretation dr: redis_server demo_redis map_of "\<lambda>s. \<exists>k v. s = demo_snapshot k v"
proof unfold_locales
  show "set ks = {k \<in> dom (map_of d). take (length p) k = p}" if "cmd_keys demo_redis d (p @ ''*'') = Inr ks" for d p ks
    using that by (auto simp: demo_redis_def dom_map_of_conv_image_fst) force
qed (auto simp: demo_redis_def demo_codec split: if_splits)

lemma demo_read_total: "\<exists>ns. redis_read demo_redis clock decay d ks = Inr ns"
  by (induction ks) (auto simp: demo_redis_def demo_from_str_def Let_def split: option.splits)

theorem flush_load_roundtrip_witness:
  "\<exists>r d' ns.
     redis_flush demo_redis (permissive :: unit mnemonic_sovereignty) 5 7
       [demo_snapshot ''city'' ''Rome'', demo_snapshot ''lang'' ''it''] [] = (Inr r, d') \<and>
     redis_load demo_redis (\<lambda>k. 9) \<lparr> schema_domain = ''d'', belief_keys = [], schema_version = ''1'' \<rparr> (Fin 1) d' = Inr ns \<and>
     beliefs_written r = 2 \<and>
     mset (filter (\<lambda>n. key n \<in> {''city'', ''lang''}) ns) =
       {# restored 9 (Fin 1) (demo_snapshot ''city'' ''Rome''), restored 9 (Fin 1) (demo_snapshot ''lang'' ''it'') #}"
proof -
  let ?ss = "[demo_snapshot ''city'' ''Rome'', demo_snapshot ''lang'' ''it'']"
  let ?sch = "\<lparr> schema_domain = ''d'', belief_keys = [], schema_version = ''1'' \<rparr>"
  obtain r d' where f: "redis_flush demo_redis (permissive :: unit mnemonic_sovereignty) 5 7 ?ss [] = (Inr r, d')"
    by (simp add: redis_flush_def redis_ttl_def permissive_def demo_redis_def demo_to_string_def demo_snapshot_def Let_def)
  obtain ns where l: "redis_load demo_redis (\<lambda>k. 9) ?sch (Fin 1) d' = Inr ns"
    by (simp add: redis_load_def demo_redis_def [THEN arg_cong, of cmd_keys]) (use demo_read_total in blast)
  have "tidy demo_redis map_of []" by (simp add: tidy_def)
  then show ?thesis
    using flush_load_roundtrip [OF dr.redis_server_axioms f l] f l by (auto simp: demo_snapshot_def)
qed

end
