(* ===== verification/Decimal_Text.thy ===== *)
theory Decimal_Text
  imports Prelude Binary_Float
begin

text \<open>
  Numbers as \<open>format!\<close> writes them: natural numbers in decimal, floats with a fixed number of decimals,
  with the reading function that shows nothing is lost.
\<close>

section \<open>Natural numbers\<close>

definition digit_char :: "nat \<Rightarrow> char" where
  "digit_char n = char_of (48 + n mod 10)"

fun nat_text :: "nat \<Rightarrow> string" where
  "nat_text n = (if n < 10 then [digit_char n] else nat_text (n div 10) @ [digit_char n])"

declare nat_text.simps [simp del]

text \<open>A fixed number of digits.\<close>

fun pad_text :: "nat \<Rightarrow> nat \<Rightarrow> string" where
  "pad_text 0 n = []"
| "pad_text (Suc k) n = pad_text k (n div 10) @ [digit_char n]"

text \<open>\<open>{:.k}\<close> of a float: the nearest multiple of the last decimal, ties to even.\<close>

fun fixed :: "nat \<Rightarrow> fl \<Rightarrow> string" where
  "fixed k NaN = ''NaN''"
| "fixed k (Inf s) = (if s then ''-inf'' else ''inf'')"
| "fixed k (Fin x) =
     (let n = nat (rne (\<bar>x\<bar> * 10 ^ k))
      in (if x < 0 then ''-'' else []) @ nat_text (n div 10 ^ k) @ (if k = 0 then [] else CHR ''.'' # pad_text k n))"

section \<open>Reading back\<close>

fun of_text :: "string \<Rightarrow> nat" where
  "of_text cs = foldl (\<lambda>a c. 10 * a + (of_char c - 48)) 0 cs"

lemma of_digit: "of_char (digit_char n) = 48 + n mod 10"
  by (simp add: digit_char_def of_char_of)

lemma of_nat_text: "of_text (nat_text n) = n"
  by (induction n rule: nat_text.induct) (subst nat_text.simps, simp add: of_digit)

lemma nat_text_inject [simp]: "nat_text i = nat_text j \<longleftrightarrow> i = j"
  using of_nat_text by metis

lemma of_pad_text: "of_text (pad_text k n) = n mod 10 ^ k"
  by (induction k arbitrary: n) (simp_all add: of_digit mod_mult2_eq)

lemma length_pad_text [simp]: "length (pad_text k n) = k"
  by (induction k arbitrary: n) simp_all

section \<open>The characters\<close>

definition is_digit :: "char \<Rightarrow> bool" where
  "is_digit c \<longleftrightarrow> 48 \<le> (of_char c :: nat) \<and> (of_char c :: nat) \<le> 57"

lemma digit_is_digit [simp]: "is_digit (digit_char n)"
proof -
  have "n mod 10 < 10" by simp
  then show ?thesis by (simp add: is_digit_def of_digit del: pos_mod_bound mod_less_divisor)
qed

lemma nat_text_digits: "c \<in> set (nat_text n) \<Longrightarrow> is_digit c"
proof (induction n rule: nat_text.induct)
  case (1 n)
  then show ?case by (subst (asm) (2) nat_text.simps) (auto split: if_splits)
qed

lemma pad_text_digits: "c \<in> set (pad_text k n) \<Longrightarrow> is_digit c"
  by (induction k arbitrary: n) auto

lemma not_in_nat_text: "\<not> is_digit c \<Longrightarrow> c \<notin> set (nat_text n)"
  using nat_text_digits by blast

lemma not_in_fixed: "\<not> is_digit c \<Longrightarrow> c \<notin> set ''-.NaNinf'' \<Longrightarrow> c \<notin> set (fixed k x)"
  by (cases x) (auto simp: Let_def not_in_nat_text dest: pad_text_digits)

end
