(* ===== verification/Bench_Traces.thy ===== *)
theory Bench_Traces
  imports Decimal_Text "HOL-Library.State_Monad"
begin

unbundle bit_operations_syntax

text \<open>
  The generators of synthetic trajectories (\<open>epica-benchmarks/src/traces.rs\<close>): the random number
  generator as a state monad over its 64-bit state, one function per step of a trajectory, and the
  two suites. Tables of words are the source's; a loop that pushes steps is a traversal whose results
  are joined.
\<close>

section \<open>Suites and steps\<close>

datatype suite = AlfworldLike | WebshopLike

fun slug :: "suite \<Rightarrow> string" where
  "slug AlfworldLike = ''alfworld_like''"
| "slug WebshopLike = ''webshop_like''"

definition suite_from_str :: "string \<Rightarrow> string + suite" where
  "suite_from_str s =
     (if s \<in> {''alfworld'', ''alfworld_like'', ''alfworld-like''} then Inr AlfworldLike
      else if s \<in> {''webshop'', ''webshop_like'', ''webshop-like''} then Inr WebshopLike
      else Inl (''unknown suite: '' @ s))"

lemma slug_round_trip: "suite_from_str (slug s) = Inr s"
  by (cases s) (simp_all add: suite_from_str_def)

datatype trace_step =
    InsertStep (step_key: string) (step_value: string) (step_confidence: f32) (step_correct: bool)
  | UpdateStep (step_key: string) (step_value: string) (step_confidence: f32) (step_correct: bool)

record trace =
  trace_suite :: suite
  trajectory_id :: u32
  trace_steps :: "trace_step list"

section \<open>Numbers\<close>

type_synonym 'a rng = "(u64, 'a) state"

definition seed_from :: "u64 \<Rightarrow> u32 \<Rightarrow> u64" where
  "seed_from suite_tag tid = push_bit 32 suite_tag XOR ucast tid XOR 0x9E3779B97F4A7C15"

definition splitmix :: "u64 \<Rightarrow> u64" where
  "splitmix s =
     (let z = (s XOR drop_bit 30 s) * 0xBF58476D1CE4E5B9;
          z = (z XOR drop_bit 27 z) * 0x94D049BB133111EB
      in z XOR drop_bit 31 z)"

definition next_u64 :: "u64 rng" where
  "next_u64 = do {
     s \<leftarrow> State_Monad.get;
     let s' = s + 0x9E3779B97F4A7C15;
     State_Monad.set s';
     State_Monad.return (splitmix s')
   }"

definition next_f32 :: "f32 rng" where
  "next_f32 = do {
     x \<leftarrow> next_u64;
     State_Monad.return (fdiv F32 (f_of_nat F32 (unat (drop_bit 40 x))) (f_of_nat F32 (2 ^ 24)))
   }"

definition bernoulli :: "f32 \<Rightarrow> bool rng" where
  "bernoulli p = do { r \<leftarrow> next_f32; State_Monad.return (flt r p) }"

definition below :: "nat \<Rightarrow> nat rng" where
  "below n = do { x \<leftarrow> next_u64; State_Monad.return (unat x mod n) }"

definition pick :: "'a list \<Rightarrow> 'a rng" where
  "pick options = do { i \<leftarrow> below (length options); State_Monad.return (options ! i) }"

text \<open>A literal plus a random part of another, \<open>lo + rng.next_f32() * width\<close>.\<close>

definition jitter :: "rat \<Rightarrow> rat \<Rightarrow> f32 rng" where
  "jitter lo width = do {
     r \<leftarrow> next_f32;
     State_Monad.return (fadd F32 (f_lit F32 lo) (fmul F32 r (f_lit F32 width)))
   }"

section \<open>ALFWorld-like trajectories\<close>

definition ALFWORLD_TAG :: u64 where "ALFWORLD_TAG = 0xA1F40E0D"
definition WEBSHOP_TAG :: u64 where "WEBSHOP_TAG = 0x4E854039"

definition objects :: "string list" where
  "objects = [''apple'', ''book'', ''key'', ''remote'', ''vase'', ''knife'', ''candle'']"

definition containers :: "string list" where
  "containers = [''fridge'', ''shelf'', ''drawer'', ''table'', ''cabinet'']"

definition probe_key :: "nat \<Rightarrow> string" where
  "probe_key i = ''probe_'' @ nat_text i"

definition probe_step :: "string \<Rightarrow> nat \<Rightarrow> trace_step rng" where
  "probe_step true_location i = do {
     location \<leftarrow> pick containers;
     let found = (location = true_location);
     agent_correct \<leftarrow> bernoulli (f_lit F32 (70 / 100));
     conf \<leftarrow> (if agent_correct then (if found then jitter (85 / 100) (10 / 100) else jitter (10 / 100) (15 / 100))
             else if found then jitter (20 / 100) (15 / 100)
             else jitter (70 / 100) (15 / 100));
     State_Monad.return (InsertStep (probe_key i)
       (''at '' @ location @ '': '' @ (if flt (Fin (1 / 2)) conf then ''found'' else ''absent'')) conf
       (flt (Fin (1 / 2)) conf = found))
   }"

definition revision_steps :: "string \<Rightarrow> nat \<Rightarrow> trace_step list rng" where
  "revision_steps true_location probe_idx =
     (if 0 < probe_idx then do {
        revise_idx \<leftarrow> below probe_idx;
        State_Monad.return [UpdateStep (probe_key revise_idx) (''at '' @ true_location @ '': found (revised)'')
          (f_lit F32 (92 / 100)) True]
      } else State_Monad.return [])"

definition alfworld_like :: "trace_step list rng" where
  "alfworld_like = do {
     object \<leftarrow> pick objects;
     container \<leftarrow> pick containers;
     extra \<leftarrow> below 5;
     true_location \<leftarrow> pick containers;
     probes \<leftarrow> traverse_list (probe_step true_location) [0..<5 + extra];
     revisions \<leftarrow> revision_steps true_location (length probes - 1);
     State_Monad.return
       (InsertStep ''goal'' (''place '' @ object @ '' in '' @ container) (f_lit F32 (95 / 100)) True # probes @ revisions @
        [InsertStep ''resolution'' (object @ '' located at '' @ true_location) (f_lit F32 (93 / 100)) True])
   }"

section \<open>WebShop-like trajectories\<close>

definition categories :: "string list" where
  "categories = [''laptop'', ''kettle'', ''lamp'', ''headphones'', ''monitor'']"

definition paraphrases :: "string list" where
  "paraphrases = [''the user is looking for'', ''user request:'', ''shopper wants'']"

definition candidate_key :: "nat \<Rightarrow> string" where
  "candidate_key i = ''candidate_'' @ nat_text i"

definition filter_key :: "nat \<Rightarrow> string" where
  "filter_key f = ''filter_'' @ nat_text f"

definition candidate_step :: "nat \<Rightarrow> nat \<Rightarrow> trace_step rng" where
  "candidate_step winning i = do {
     agent_right \<leftarrow> bernoulli (f_lit F32 (75 / 100));
     conf \<leftarrow> (if agent_right = (i = winning) then jitter (75 / 100) (15 / 100) else jitter (25 / 100) (20 / 100));
     State_Monad.return (InsertStep (candidate_key i) (''product #'' @ nat_text i @ '' matches'') conf
       ((i = winning) = flt (Fin (1 / 2)) conf))
   }"

definition exclude_step :: "nat \<Rightarrow> nat \<Rightarrow> nat \<Rightarrow> trace_step list rng" where
  "exclude_step winning f c = do {
     hit \<leftarrow> bernoulli (Fin (1 / 2));
     if hit then do {
       conf \<leftarrow> jitter (10 / 100) (20 / 100);
       State_Monad.return [UpdateStep (candidate_key c)
         (''product #'' @ nat_text c @ '' excluded by filter_'' @ nat_text f) conf (c \<noteq> winning)]
     } else State_Monad.return []
   }"

definition filter_steps :: "nat \<Rightarrow> nat \<Rightarrow> nat \<Rightarrow> trace_step list rng" where
  "filter_steps winning n_candidates f = do {
     updates \<leftarrow> traverse_list (exclude_step winning f) [0..<n_candidates];
     State_Monad.return (InsertStep (filter_key f) (''price band #'' @ nat_text f) (f_lit F32 (90 / 100)) True # concat updates)
   }"

definition webshop_like :: "trace_step list rng" where
  "webshop_like = do {
     cat \<leftarrow> pick categories;
     extra \<leftarrow> below 5;
     winning \<leftarrow> below (4 + extra);
     candidates \<leftarrow> traverse_list (candidate_step winning) [0..<4 + extra];
     para \<leftarrow> pick paraphrases;
     more \<leftarrow> below 3;
     filters \<leftarrow> traverse_list (filter_steps winning (4 + extra)) [0..<2 + more];
     State_Monad.return
       (InsertStep ''user_intent'' (''user wants a '' @ cat) (f_lit F32 (95 / 100)) True # candidates @
        [UpdateStep ''user_intent'' (para @ '' a '' @ cat) (f_lit F32 (93 / 100)) True] @ concat filters @
        [InsertStep ''purchase'' (''purchase product #'' @ nat_text winning) (f_lit F32 (92 / 100)) True])
   }"

definition generate :: "suite \<Rightarrow> u32 \<Rightarrow> trace" where
  "generate s tid =
     \<lparr> trace_suite = s, trajectory_id = tid,
       trace_steps = (case s of
         AlfworldLike \<Rightarrow> fst (run_state alfworld_like (seed_from ALFWORLD_TAG tid))
       | WebshopLike \<Rightarrow> fst (run_state webshop_like (seed_from WEBSHOP_TAG tid))) \<rparr>"

section \<open>Results of a random computation\<close>

lemma pred_return: "P x \<Longrightarrow> pred_state P (State_Monad.return x)"
  by (rule pred_stateI) simp

lemma pred_bind:
  assumes "pred_state P m" "\<And>x. P x \<Longrightarrow> pred_state Q (f x)"
  shows "pred_state Q (m \<bind> f)"
proof (rule pred_stateI)
  fix a s s' assume r: "run_state (m \<bind> f) s = (a, s')"
  obtain x s1 where x: "run_state m s = (x, s1)" by fastforce
  then have "run_state (f x) s1 = (a, s')" using r by simp
  with pred_stateD [OF assms(1) x] show "Q a" using assms(2) pred_stateD by fast
qed

lemma pred_bind_any: "(\<And>x. pred_state Q (f x)) \<Longrightarrow> pred_state Q (m \<bind> f)"
  by (rule pred_bind [where P = "\<lambda>_. True"]) (auto intro: pred_stateI)

lemma pred_traverse:
  "(\<And>x. x \<in> set xs \<Longrightarrow> pred_state (R x) (f x)) \<Longrightarrow> pred_state (list_all2 R xs) (traverse_list f xs)"
proof (induction xs)
  case (Cons x xs)
  have "pred_state (R x) (f x)" "pred_state (list_all2 R xs) (traverse_list f xs)" using Cons by simp_all
  then show ?case by (auto intro!: pred_bind pred_return)
qed (auto intro: pred_return)

lemmas pred_rules = pred_return pred_bind pred_bind_any pred_traverse

lemma pred_below: "0 < n \<Longrightarrow> pred_state (\<lambda>i. i < n) (below n)"
  unfolding below_def by (auto intro!: pred_bind_any pred_return)

lemma fround_small: "\<bar>x\<bar> \<le> 2 ^ nat (fprec t) \<Longrightarrow> fround t x = Fin (round_rat t x)"
proof -
  assume x: "\<bar>x\<bar> \<le> 2 ^ nat (fprec t)"
  let ?b = "2 ^ nat (fprec t) :: rat"
  have b: "round_rat t ?b = ?b" "round_rat t (- ?b) = - ?b"
    using round_rat_int [of "2 ^ nat (fprec t)" t] by (simp_all add: round_rat_minus)
  have "round_rat t x \<le> ?b" "- ?b \<le> round_rat t x"
    using x round_rat_mono [of x ?b t] round_rat_mono [of "- ?b" x t] b by simp_all
  then have "\<bar>round_rat t x\<bar> \<le> ?b" by simp
  also have "\<dots> < 2 ^ fmax_exp t" by (rule power_strict_increasing) (cases t; simp)+
  finally show ?thesis by (simp add: fround_def Let_def del: fmax_exp.simps)
qed

lemma f_of_nat_exact: "n \<le> 2 ^ nat (fprec t) \<Longrightarrow> f_of_nat t n = Fin (of_nat n)"
proof -
  assume n: "n \<le> 2 ^ nat (fprec t)"
  then have "(of_nat n :: rat) \<le> 2 ^ nat (fprec t)" by (metis of_nat_le_iff of_nat_numeral of_nat_power)
  moreover have "round_rat t (of_nat n) = of_nat n" using round_rat_int [of "int n" t] n by simp
  ultimately show ?thesis by (simp add: f_of_nat_def fround_small)
qed

lemma next_f32_unit: "pred_state funit next_f32"
proof -
  have "funit (fdiv F32 (f_of_nat F32 (unat (drop_bit 40 x))) (f_of_nat F32 (2 ^ 24)))" for x :: u64
  proof -
    have u: "unat x < 2 ^ 64" using unsigned_less [of x, where ?'a = nat] by simp
    then have "drop_bit 40 (unat x) < 2 ^ 24" by (simp add: drop_bit_eq_div less_mult_imp_div_less)
    then have "unat (drop_bit 40 x) < 2 ^ 24"
      by (simp only: unsigned_drop_bit_eq) (simp add: take_bit_nat_eq_self [OF u])
    obtain n where n: "unat (drop_bit 40 x) = n" "n \<le> 2 ^ 24" using \<open>unat (drop_bit 40 x) < 2 ^ 24\<close> by simp
    have "(of_nat n :: rat) \<le> 2 ^ 24" using n(2) by (metis of_nat_le_iff of_nat_numeral of_nat_power)
    then have "0 \<le> (of_nat n :: rat) / 2 ^ 24" "(of_nat n :: rat) / 2 ^ 24 \<le> 1" by simp_all
    then obtain r where "fround F32 (of_nat n / 2 ^ 24) = Fin r" "0 \<le> r" "r \<le> 1"
      using fround_unit by blast
    then show ?thesis using n f_of_nat_exact [of n F32] f_of_nat_exact [of "2 ^ 24" F32] by simp
  qed
  then show ?thesis unfolding next_f32_def by (intro pred_bind_any pred_return)
qed

text \<open>A grid point \<open>g\<close> between the parts keeps the rounded sum in the unit interval.\<close>

lemma jitter_unit:
  assumes "0 \<le> lo" "lo \<le> of_int g / 8" "0 \<le> w" "w \<le> 1 - of_int g / 8" "0 \<le> g" "g \<le> 8"
  shows "pred_state funit (jitter lo w)"
proof -
  have grid: "round_rat F32 (of_int k / 8) = of_int k / 8" if "0 \<le> k" "k \<le> 8" for k
    by (rule round_rat_exact, unfold representable_def, rule exI [of _ k], rule exI [of _ "-3"])
      (use that in \<open>simp add: pow2_def\<close>)
  have g: "1 - of_int g / 8 = (of_int (8 - g) / 8 :: rat)" by (simp add: field_simps)
  obtain a b where a: "f_lit F32 lo = Fin a" "a = round_rat F32 lo" "0 \<le> a" and b: "f_lit F32 w = Fin b" "b = round_rat F32 w" "0 \<le> b"
    using fround_unit [of lo F32] fround_unit [of w F32] assms by (force simp: f_lit_def)
  have ab: "a \<le> of_int g / 8" "b \<le> 1 - of_int g / 8"
    using round_rat_mono [OF assms(2), of F32] round_rat_mono [OF assms(4), of F32] grid [of g] grid [of "8 - g"] assms(5,6) a b
    by (simp_all add: g)
  have "funit (fadd F32 (Fin a) (fmul F32 r (Fin b)))" if "funit r" for r
  proof -
    obtain q where q: "r = Fin q" "0 \<le> q" "q \<le> 1" using \<open>funit r\<close> by (elim funitE) auto
    have m: "0 \<le> q * b" "q * b \<le> b" "b \<le> 1"
      using q b(3) ab(2) assms(5) mult_right_mono [OF q(3) b(3)] by simp_all
    then obtain c where c: "fround F32 (q * b) = Fin c" "c = round_rat F32 (q * b)" "0 \<le> c"
      using fround_unit [of "q * b" F32] by fastforce
    have "c \<le> b" using round_rat_mono [OF m(2), of F32] by (simp add: c(2) b(2))
    then have "a + c \<le> 1" using ab by linarith
    then obtain s where "fround F32 (a + c) = Fin s" "0 \<le> s" "s \<le> 1"
      using fround_unit [of "a + c" F32] c(3) a(3) by fastforce
    then show ?thesis by (simp add: q(1) c(1))
  qed
  then show ?thesis unfolding jitter_def a(1) b(1) by (intro pred_bind [OF next_f32_unit] pred_return)
qed

section \<open>Keys\<close>

lemma key_facts [simp]:
  "probe_key i = probe_key j \<longleftrightarrow> i = j" "candidate_key i = candidate_key j \<longleftrightarrow> i = j" "filter_key i = filter_key j \<longleftrightarrow> i = j"
  "candidate_key i \<noteq> filter_key j" "filter_key i \<noteq> candidate_key j"
  "probe_key i \<noteq> ''goal''" "probe_key i \<noteq> ''resolution''" "''goal'' \<noteq> probe_key i" "''resolution'' \<noteq> probe_key i"
  "candidate_key i \<noteq> ''user_intent''" "candidate_key i \<noteq> ''purchase''" "filter_key i \<noteq> ''user_intent''" "filter_key i \<noteq> ''purchase''"
  "''user_intent'' \<noteq> candidate_key i" "''purchase'' \<noteq> candidate_key i" "''user_intent'' \<noteq> filter_key i" "''purchase'' \<noteq> filter_key i"
  by (simp_all add: probe_key_def candidate_key_def filter_key_def)

text \<open>
  A trajectory runs on a set of known keys: an insertion brings a new key, an update names a known one,
  and every confidence is a number between 0 and 1.
\<close>

fun runs_on :: "string set \<Rightarrow> trace_step list \<Rightarrow> bool" where
  "runs_on K [] = True"
| "runs_on K (InsertStep k v c t # ss) = (k \<notin> K \<and> funit c \<and> runs_on (insert k K) ss)"
| "runs_on K (UpdateStep k v c t # ss) = (k \<in> K \<and> funit c \<and> runs_on K ss)"

definition inserted :: "trace_step list \<Rightarrow> string list" where
  "inserted ss = map step_key (filter is_InsertStep ss)"

lemma inserted_simps [simp]:
  "inserted [] = []" "inserted (InsertStep k v c t # ss) = k # inserted ss" "inserted (UpdateStep k v c t # ss) = inserted ss"
  "inserted (xs @ ys) = inserted xs @ inserted ys"
  by (simp_all add: inserted_def)

lemma inserted_concat [simp]: "inserted (concat xss) = concat (map inserted xss)"
  by (induction xss) simp_all

lemma runs_on_append: "runs_on K (xs @ ys) \<longleftrightarrow> runs_on K xs \<and> runs_on (set (inserted xs) \<union> K) ys"
  by (induction K xs rule: runs_on.induct) auto

lemma runs_onI:
  "distinct (inserted ss) \<Longrightarrow> set (inserted ss) \<inter> K = {} \<Longrightarrow>
   (\<And>s. s \<in> set ss \<Longrightarrow> funit (step_confidence s) \<and> (\<not> is_InsertStep s \<longrightarrow> step_key s \<in> K)) \<Longrightarrow> runs_on K ss"
proof (induction K ss rule: runs_on.induct)
  case (2 K k v c t ss)
  have "runs_on (insert k K) ss" using 2(2-4) by (intro 2(1)) auto
  then show ?case using 2(3) 2(4) [of "InsertStep k v c t"] by simp
next
  case (3 K k v c t ss)
  have "runs_on K ss" using 3(2-4) by (intro 3(1)) auto
  then show ?case using 3(4) [of "UpdateStep k v c t"] by simp
qed simp

section \<open>The shape of the trajectories\<close>

lemma f_lit_unit: "0 \<le> x \<Longrightarrow> x \<le> 1 \<Longrightarrow> funit (f_lit F32 x)"
  using fround_unit [of x F32] by (auto simp: f_lit_def)

lemma jitter_units:
  "pred_state funit (jitter (85 / 100) (10 / 100))" "pred_state funit (jitter (10 / 100) (15 / 100))"
  "pred_state funit (jitter (20 / 100) (15 / 100))" "pred_state funit (jitter (70 / 100) (15 / 100))"
  "pred_state funit (jitter (75 / 100) (15 / 100))" "pred_state funit (jitter (25 / 100) (20 / 100))"
  "pred_state funit (jitter (10 / 100) (20 / 100))"
  by (rule jitter_unit [where g = 7]; simp) (rule jitter_unit [where g = 6]; simp)+

text \<open>A step that inserts a key with a confidence.\<close>

definition inserts :: "string \<Rightarrow> trace_step \<Rightarrow> bool" where
  "inserts k s \<longleftrightarrow> is_InsertStep s \<and> step_key s = k \<and> funit (step_confidence s)"

lemma inserts_list:
  assumes "list_all2 (\<lambda>i. inserts (f i)) [0..<n] ss"
  shows "inserted ss = map f [0..<n] \<and> length ss = n \<and> (\<forall>s \<in> set ss. funit (step_confidence s) \<and> is_InsertStep s)"
proof -
  have "list_all2 (\<lambda>i. inserts (f i)) is ss \<Longrightarrow>
      inserted ss = map f is \<and> (\<forall>s \<in> set ss. funit (step_confidence s) \<and> is_InsertStep s)" for "is" ss
    by (induction rule: list_all2_induct) (auto simp: inserts_def inserted_def)
  then show ?thesis using assms list_all2_lengthD [OF assms] by simp
qed

lemma probe_step_inserts: "pred_state (inserts (probe_key i)) (probe_step loc i)"
  unfolding probe_step_def Let_def
  by (rule pred_bind_any, rule pred_bind_any, rule pred_bind [where P = funit])
    (auto simp: inserts_def split: if_split intro: jitter_units [simplified] pred_return)

lemma candidate_step_inserts: "pred_state (inserts (candidate_key i)) (candidate_step w i)"
  unfolding candidate_step_def
  by (rule pred_bind_any, rule pred_bind [where P = funit])
    (auto simp: inserts_def split: if_split intro: jitter_units [simplified] pred_return)

definition excludes :: "nat \<Rightarrow> trace_step list \<Rightarrow> bool" where
  "excludes c us \<longleftrightarrow> us = [] \<or> (\<exists>v x t. us = [UpdateStep (candidate_key c) v x t] \<and> funit x)"

lemma exclude_step_excludes: "pred_state (excludes c) (exclude_step w f c)"
  unfolding exclude_step_def
  by (rule pred_bind_any, split if_split, intro conjI impI pred_bind [OF jitter_units(7)] pred_return)
    (simp_all add: excludes_def)

definition filters :: "nat \<Rightarrow> nat \<Rightarrow> trace_step list \<Rightarrow> bool" where
  "filters n f us \<longleftrightarrow> inserted us = [filter_key f] \<and> 1 \<le> length us \<and> length us \<le> n + 1 \<and>
     (\<forall>s \<in> set us. funit (step_confidence s) \<and> (\<not> is_InsertStep s \<longrightarrow> step_key s \<in> candidate_key ` {..<n}))"

lemma filter_steps_filters: "pred_state (filters n f) (filter_steps w n f)"
proof -
  have "filters n f (InsertStep (filter_key f) v (f_lit F32 (90 / 100)) True # concat us)"
    if "list_all2 excludes [0..<n] us" for us v
  proof -
    have "list_all2 excludes cs us \<Longrightarrow> inserted (concat us) = [] \<and> length (concat us) \<le> length cs \<and>
       (\<forall>s \<in> set (concat us). funit (step_confidence s) \<and> (\<not> is_InsertStep s \<longrightarrow> step_key s \<in> candidate_key ` set cs))" for cs us
      by (induction rule: list_all2_induct) (auto simp: excludes_def)
    from this [OF that] show ?thesis by (auto simp: filters_def f_lit_unit atLeast0LessThan)
  qed
  then show ?thesis unfolding filter_steps_def
    by (intro pred_bind [OF pred_traverse [where R = excludes]] pred_return exclude_step_excludes)
qed

lemma alfworld_shape:
  "pred_state (\<lambda>ss. \<exists>n r v v' v'' ps. n < 5 \<and> r < 4 + n \<and> list_all2 (\<lambda>i. inserts (probe_key i)) [0..<5 + n] ps \<and>
     ss = InsertStep ''goal'' v (f_lit F32 (95 / 100)) True # ps @ [UpdateStep (probe_key r) v' (f_lit F32 (92 / 100)) True,
       InsertStep ''resolution'' v'' (f_lit F32 (93 / 100)) True]) alfworld_like"
proof -
  have rev: "pred_state (\<lambda>us. \<exists>r v. r < p \<and> us = [UpdateStep (probe_key r) v (f_lit F32 (92 / 100)) True]) (revision_steps loc p)"
    if "0 < p" for p loc
    using that unfolding revision_steps_def by (auto intro!: pred_bind [OF pred_below] pred_return)
  show ?thesis
    unfolding alfworld_like_def
  proof (rule pred_bind_any, rule pred_bind_any, rule pred_bind [OF pred_below], simp, rule pred_bind_any,
      rule pred_bind [OF pred_traverse [OF probe_step_inserts]])
    fix object container n loc ps
    assume n: "n < (5 :: nat)" and ps: "list_all2 (\<lambda>i. inserts (probe_key i)) [0..<5 + n] ps"
    then have "length ps - 1 = 4 + n" using list_all2_lengthD by fastforce
    then show "pred_state (\<lambda>ss. \<exists>n r v v' v'' ps. n < 5 \<and> r < 4 + n \<and> list_all2 (\<lambda>i. inserts (probe_key i)) [0..<5 + n] ps \<and>
       ss = InsertStep ''goal'' v (f_lit F32 (95 / 100)) True # ps @ [UpdateStep (probe_key r) v' (f_lit F32 (92 / 100)) True,
         InsertStep ''resolution'' v'' (f_lit F32 (93 / 100)) True])
       (revision_steps loc (length ps - 1) \<bind> (\<lambda>revisions. State_Monad.return
         (InsertStep ''goal'' (''place '' @ object @ '' in '' @ container) (f_lit F32 (95 / 100)) True # ps @ revisions @
          [InsertStep ''resolution'' (object @ '' located at '' @ loc) (f_lit F32 (93 / 100)) True])))"
      using n ps by (intro pred_bind [OF rev] pred_return) auto
  qed
qed

lemma webshop_shape:
  "pred_state (\<lambda>ss. \<exists>n m v v' v'' cs fs. n < 5 \<and> m < 3 \<and> list_all2 (\<lambda>i. inserts (candidate_key i)) [0..<4 + n] cs \<and>
     list_all2 (filters (4 + n)) [0..<2 + m] fs \<and>
     ss = InsertStep ''user_intent'' v (f_lit F32 (95 / 100)) True # cs @ [UpdateStep ''user_intent'' v' (f_lit F32 (93 / 100)) True] @
       concat fs @ [InsertStep ''purchase'' v'' (f_lit F32 (92 / 100)) True]) webshop_like"
  unfolding webshop_like_def
proof (rule pred_bind_any, rule pred_bind [OF pred_below], simp, rule pred_bind_any,
    rule pred_bind [OF pred_traverse [OF candidate_step_inserts]], rule pred_bind_any, rule pred_bind [OF pred_below], simp,
    rule pred_bind [OF pred_traverse [OF filter_steps_filters]])
qed (blast intro: pred_return)

lemma filters_list:
  assumes "list_all2 (filters n) [0..<m] fs"
  shows "inserted (concat fs) = map filter_key [0..<m]" "m \<le> length (concat fs)" "length (concat fs) \<le> m * (n + 1)"
    "\<And>s. s \<in> set (concat fs) \<Longrightarrow> funit (step_confidence s) \<and> (\<not> is_InsertStep s \<longrightarrow> step_key s \<in> candidate_key ` {..<n})"
proof -
  have "list_all2 (filters n) ks fs \<Longrightarrow> inserted (concat fs) = map filter_key ks \<and> length ks \<le> length (concat fs) \<and>
      length (concat fs) \<le> length ks * (n + 1) \<and>
      (\<forall>s \<in> set (concat fs). funit (step_confidence s) \<and> (\<not> is_InsertStep s \<longrightarrow> step_key s \<in> candidate_key ` {..<n}))" for ks fs
    by (induction rule: list_all2_induct) (auto simp: filters_def)
  from this [OF assms]
  show "inserted (concat fs) = map filter_key [0..<m]" "m \<le> length (concat fs)" "length (concat fs) \<le> m * (n + 1)"
    "\<And>s. s \<in> set (concat fs) \<Longrightarrow> funit (step_confidence s) \<and> (\<not> is_InsertStep s \<longrightarrow> step_key s \<in> candidate_key ` {..<n})"
    by auto
qed

lemma alfworld_trace:
  obtains n r v v' v'' ps where "n < 5" "r < 4 + n" "list_all2 (\<lambda>i. inserts (probe_key i)) [0..<5 + n] ps"
    "trace_steps (generate AlfworldLike tid) =
       InsertStep ''goal'' v (f_lit F32 (95 / 100)) True # ps @ [UpdateStep (probe_key r) v' (f_lit F32 (92 / 100)) True,
       InsertStep ''resolution'' v'' (f_lit F32 (93 / 100)) True]"
  using pred_state_run_state [OF alfworld_shape, of "seed_from ALFWORLD_TAG tid"] by (auto simp: generate_def)

lemma webshop_trace:
  obtains n m v v' v'' cs fs where "n < 5" "m < 3" "list_all2 (\<lambda>i. inserts (candidate_key i)) [0..<4 + n] cs"
    "list_all2 (filters (4 + n)) [0..<2 + m] fs"
    "trace_steps (generate WebshopLike tid) =
       InsertStep ''user_intent'' v (f_lit F32 (95 / 100)) True # cs @ [UpdateStep ''user_intent'' v' (f_lit F32 (93 / 100)) True] @
       concat fs @ [InsertStep ''purchase'' v'' (f_lit F32 (92 / 100)) True]"
  using pred_state_run_state [OF webshop_shape, of "seed_from WEBSHOP_TAG tid"] by (auto simp: generate_def)

text \<open>
  C22. Every generated trajectory can be run: each insertion brings a new key, each update names a key
  inserted before, so the harness skips no step, and every confidence is a number between 0 and 1. An
  ALFWorld-like trajectory has 8 to 12 steps, from the goal to the resolution, and exactly one update; a
  WebShop-like trajectory has 9 to 47 steps, from the intent to the purchase.
\<close>

theorem generated_trace:
  "let ss = trace_steps (generate s tid)
   in runs_on {} ss \<and>
      (case s of
         AlfworldLike \<Rightarrow> 8 \<le> length ss \<and> length ss \<le> 12 \<and> step_key (hd ss) = ''goal'' \<and> step_key (last ss) = ''resolution'' \<and>
           length (filter (\<lambda>s. \<not> is_InsertStep s) ss) = 1
       | WebshopLike \<Rightarrow> 9 \<le> length ss \<and> length ss \<le> 47 \<and> step_key (hd ss) = ''user_intent'' \<and> step_key (last ss) = ''purchase'')"
proof (cases s)
  case AlfworldLike
  obtain n r v v' v'' ps where t: "n < 5" "r < 4 + n" "list_all2 (\<lambda>i. inserts (probe_key i)) [0..<5 + n] ps"
    "trace_steps (generate AlfworldLike tid) =
       InsertStep ''goal'' v (f_lit F32 (95 / 100)) True # ps @ [UpdateStep (probe_key r) v' (f_lit F32 (92 / 100)) True,
       InsertStep ''resolution'' v'' (f_lit F32 (93 / 100)) True]" by (rule alfworld_trace)
  note ps = inserts_list [OF t(3)]
  have "runs_on {''goal''} ps" by (rule runs_onI) (use ps in \<open>auto simp: distinct_map inj_on_def\<close>)
  moreover have "filter (\<lambda>s. \<not> is_InsertStep s) ps = []" using ps by (auto simp: filter_empty_conv)
  ultimately show ?thesis using t(1,2) ps by (auto simp: AlfworldLike t(4) runs_on_append f_lit_unit)
next
  case WebshopLike
  obtain n m v v' v'' cs fs where t: "n < 5" "m < 3" "list_all2 (\<lambda>i. inserts (candidate_key i)) [0..<4 + n] cs"
    "list_all2 (filters (4 + n)) [0..<2 + m] fs"
    "trace_steps (generate WebshopLike tid) =
       InsertStep ''user_intent'' v (f_lit F32 (95 / 100)) True # cs @ [UpdateStep ''user_intent'' v' (f_lit F32 (93 / 100)) True] @
       concat fs @ [InsertStep ''purchase'' v'' (f_lit F32 (92 / 100)) True]" by (rule webshop_trace)
  note cs = inserts_list [OF t(3)]
  note fs = filters_list [OF t(4)]
  have "runs_on {''user_intent''} cs" by (rule runs_onI) (use cs in \<open>auto simp: distinct_map inj_on_def\<close>)
  moreover define us where "us = concat fs"
  note fs = fs [folded us_def]
  have "runs_on (candidate_key ` {0..<4 + n} \<union> {''user_intent''}) us"
  proof (rule runs_onI)
    show "distinct (inserted us)" "set (inserted us) \<inter> (candidate_key ` {0..<4 + n} \<union> {''user_intent''}) = {}"
      by (auto simp: fs(1) distinct_map inj_on_def simp del: upt_Suc)
  qed (use fs(4) in \<open>auto simp: atLeast0LessThan\<close>)
  moreover have "length us \<le> 36" using fs(3) t(1,2) mult_le_mono [of "2 + m" 4 "4 + n + 1" 9] by simp
  moreover have "set (inserted us) = filter_key ` {0..<2 + m}" unfolding fs(1) set_map set_upt ..
  ultimately show ?thesis using t(1,2) cs fs(2)
    by (auto simp: WebshopLike t(5) us_def [symmetric] runs_on_append f_lit_unit)
qed

end
