(* ===== verification/Bench_Metrics.thy ===== *)
theory Bench_Metrics
  imports Bench_Traces
begin

text \<open>
  The metrics of the benchmark harness (\<open>epica-benchmarks/src/metrics.rs\<close>): latency statistics with
  their percentiles, the metrics of one trajectory, and their aggregation. Sums of \<open>usize\<close> counters
  are natural numbers, the sum of the samples is the source's 128-bit one, which cannot overflow.
\<close>

section \<open>Latencies\<close>

record latency_stats =
  samples :: nat
  latency_mean :: f64
  p50 :: u64
  p95 :: u64
  p99 :: u64
  latency_max :: u64

definition latency_default :: latency_stats where
  "latency_default = \<lparr> samples = 0, latency_mean = Fin 0, p50 = 0, p95 = 0, p99 = 0, latency_max = 0 \<rparr>"

fun f_ceil :: "fl \<Rightarrow> fl" where
  "f_ceil NaN = NaN"
| "f_ceil (Inf s) = Inf s"
| "f_ceil (Fin x) = Fin (of_int \<lceil>x\<rceil>)"

text \<open>\<open>as isize\<close>: towards zero and saturating.\<close>

fun f_to_isize :: "fl \<Rightarrow> int" where
  "f_to_isize NaN = 0"
| "f_to_isize (Inf s) = (if s then - (2 ^ 63) else 2 ^ 63 - 1)"
| "f_to_isize (Fin x) = max (- (2 ^ 63)) (min (2 ^ 63 - 1) (if 0 \<le> x then \<lfloor>x\<rfloor> else \<lceil>x\<rceil>))"

definition percentile :: "u64 list \<Rightarrow> f64 \<Rightarrow> u64" where
  "percentile xs q =
     (if xs = [] then 0
      else let n = length xs;
               idx_f = f_to_isize (f_ceil (fmul F64 q (f_of_nat F64 n))) - 1;
               idx = nat (max 0 (min (int n - 1) idx_f))
           in xs ! idx)"

definition from_samples :: "u64 list \<Rightarrow> latency_stats" where
  "from_samples xs =
     (if xs = [] then latency_default
      else let ys = sort xs; n = length ys; total = sum_list (map unat ys)
           in \<lparr> samples = n, latency_mean = fdiv F64 (f_of_nat F64 total) (f_of_nat F64 n),
                p50 = percentile ys (f_lit F64 (50 / 100)), p95 = percentile ys (f_lit F64 (95 / 100)),
                p99 = percentile ys (f_lit F64 (99 / 100)), latency_max = last ys \<rparr>)"

section \<open>Trajectories\<close>

record per_trajectory =
  per_id :: u32
  per_steps :: nat
  per_contradictions :: nat
  per_tece :: "f32 option"
  per_target_met :: bool
  per_soft :: nat
  per_hard :: nat
  per_critical :: nat
  per_free_energy :: "f64 option"
  per_fe_samples :: nat
  insert_latencies_us :: "u64 list"

record metric_set =
  trajectories :: nat
  total_steps :: nat
  total_contradictions :: nat
  suite_tece :: "f32 option"
  calibration_met :: nat
  suite_soft :: nat
  suite_hard :: nat
  suite_critical :: nat
  suite_free_energy :: "f64 option"
  suite_fe_samples :: nat
  insert_latency_us :: latency_stats

definition metric_default :: metric_set where
  "metric_default =
     \<lparr> trajectories = 0, total_steps = 0, total_contradictions = 0, suite_tece = None, calibration_met = 0,
       suite_soft = 0, suite_hard = 0, suite_critical = 0, suite_free_energy = None, suite_fe_samples = 0,
       insert_latency_us = latency_default \<rparr>"

definition fe_step :: "f64 \<times> nat \<Rightarrow> per_trajectory \<Rightarrow> f64 \<times> nat" where
  "fe_step acc t =
     (case per_free_energy t of
        None \<Rightarrow> acc
      | Some m \<Rightarrow> (fadd F64 (fst acc) (fmul F64 m (f_of_nat F64 (per_fe_samples t))), snd acc + per_fe_samples t))"

definition from_trajectories :: "per_trajectory list \<Rightarrow> metric_set" where
  "from_trajectories per =
     (if per = [] then metric_default
      else let tece_samples = filter_map per_tece per;
               (fe_sum, fe_n) = foldl fe_step (Fin 0, 0) per
           in \<lparr> trajectories = length per, total_steps = sum_list (map per_steps per),
                total_contradictions = sum_list (map per_contradictions per),
                suite_tece = (if tece_samples = [] then None
                  else Some (fdiv F32 (f_sum F32 tece_samples) (f_of_nat F32 (length tece_samples)))),
                calibration_met = length (filter per_target_met per),
                suite_soft = sum_list (map per_soft per), suite_hard = sum_list (map per_hard per),
                suite_critical = sum_list (map per_critical per),
                suite_free_energy = (if fe_n = 0 then None else Some (fdiv F64 fe_sum (f_of_nat F64 fe_n))),
                suite_fe_samples = fe_n,
                insert_latency_us = from_samples (concat (map insert_latencies_us per)) \<rparr>)"

section \<open>Nearest rank\<close>

text \<open>The specification: the least sample that at least \<open>pc\<close> percent of the samples do not exceed.\<close>

definition nearest_rank :: "nat \<Rightarrow> u64 list \<Rightarrow> u64" where
  "nearest_rank pc xs = hd (filter (\<lambda>x. pc * length xs \<le> 100 * length (filter (\<lambda>y. y \<le> x) xs)) (sort xs))"

lemma hd_filter:
  assumes "i < length ys" "P (ys ! i)" "\<And>j. j < i \<Longrightarrow> P (ys ! j) \<Longrightarrow> ys ! j = ys ! i"
  shows "hd (filter P ys) = ys ! i"
  using assms
proof (induction ys arbitrary: i)
  case (Cons y ys)
  show ?case
  proof (cases "P y")
    case True
    then show ?thesis using Cons.prems(3) [of 0] by (cases i) auto
  next
    case False
    then obtain k where k: "i = Suc k" using Cons.prems(2) by (cases i) auto
    have "hd (filter P ys) = ys ! k" using Cons.prems unfolding k by (intro Cons.IH) force+
    then show ?thesis using False k by simp
  qed
qed simp

lemma count_below_ge:
  assumes "sorted ys" "i < length ys"
  shows "i + 1 \<le> length (filter (\<lambda>y. y \<le> ys ! i) ys)"
proof -
  have "filter (\<lambda>y. y \<le> ys ! i) (take (i + 1) ys) = take (i + 1) ys"
    using assms by (auto simp: filter_id_conv in_set_conv_nth intro!: sorted_nth_mono)
  then have "length (filter (\<lambda>y. y \<le> ys ! i) (take (i + 1) ys @ drop (i + 1) ys)) \<ge> i + 1"
    using assms(2) unfolding filter_append by simp
  then show ?thesis by simp
qed

lemma count_below_le:
  assumes "sorted ys" "j < i" "i < length ys" "ys ! j \<noteq> ys ! i"
  shows "length (filter (\<lambda>y. y \<le> ys ! j) ys) \<le> i"
proof -
  have "ys ! j \<le> ys ! i" using assms by (intro sorted_nth_mono) auto
  then have "ys ! j < ys ! i" using assms(4) by simp
  moreover have "ys ! i \<le> y" if "y \<in> set (drop i ys)" for y
    using that assms(1,3) by (auto simp: in_set_conv_nth intro: sorted_nth_mono)
  ultimately have "filter (\<lambda>y. y \<le> ys ! j) (drop i ys) = []" by (fastforce simp: filter_empty_conv)
  then have "length (filter (\<lambda>y. y \<le> ys ! j) (take i ys @ drop i ys)) \<le> i"
    unfolding filter_append using length_filter_le [of _ "take i ys"] by simp
  then show ?thesis by simp
qed

lemma nearest_rank_nth:
  assumes "0 < k" "k \<le> length xs" "pc * length xs \<le> 100 * k" "100 * (k - 1) < pc * length xs"
  shows "nearest_rank pc xs = sort xs ! (k - 1)"
proof -
  let ?ys = "sort xs"
  have count: "length (filter P xs) = length (filter P ?ys)" for P :: "u64 \<Rightarrow> bool"
    by (metis mset_filter mset_sort size_mset)
  show ?thesis
    unfolding nearest_rank_def count
  proof (rule hd_filter)
    show "pc * length xs \<le> 100 * length (filter (\<lambda>y. y \<le> ?ys ! (k - 1)) ?ys)"
      using count_below_ge [of ?ys "k - 1"] assms by simp
    fix j assume j: "j < k - 1" "pc * length xs \<le> 100 * length (filter (\<lambda>y. y \<le> ?ys ! j) ?ys)"
    then show "?ys ! j = ?ys ! (k - 1)" using count_below_le [of ?ys j "k - 1"] assms by fastforce
  qed (use assms in simp)
qed

section \<open>The rank in floating point\<close>

text \<open>
  Below \<open>2 ^ 40\<close> samples the rounded product of the literal and the number of samples has the ceiling of
  the exact quotient: it exceeds the next lower integer by at least 1/256.
\<close>

lemma rank_ceiling:
  assumes "0 < n" "n < 2 ^ 40" "a \<le> of_nat pc / 100" "of_nat pc / 100 - a \<le> 1 / 2 ^ 53" "0 \<le> a" "pc \<le> 100"
    "100 * (k - 1) < pc * n" "pc * n \<le> 100 * k" "0 < k"
  shows "f_to_isize (f_ceil (fmul F64 (Fin a) (f_of_nat F64 n))) = int k"
proof -
  have n: "f_of_nat F64 n = Fin (of_nat n)" using f_of_nat_exact [of n F64] assms(2) by simp
  have N: "(of_nat n :: rat) < 2 ^ 40" using assms(2) by (metis of_nat_less_iff of_nat_numeral of_nat_power)
  have kn: "k \<le> n"
  proof (rule ccontr)
    assume "\<not> k \<le> n"
    then have "100 * n \<le> 100 * (k - 1)" by simp
    then have "100 * n < pc * n" using assms(7) by linarith
    then show False using assms(6) by simp
  qed
  let ?x = "a * of_nat n"
  have up: "?x \<le> of_nat k"
  proof -
    have "?x \<le> of_nat pc / 100 * of_nat n" using assms(3) by (intro mult_right_mono) simp_all
    also have "\<dots> = of_nat (pc * n) / 100" by simp
    also have "\<dots> \<le> of_nat (100 * k) / 100" by (rule divide_right_mono [OF of_nat_mono [OF assms(8)]]) simp
    finally show ?thesis by simp
  qed
  have low: "of_int (256 * (int k - 1) + 1) / 256 \<le> ?x"
  proof -
    have "100 * (k - 1) + 1 \<le> pc * n" using assms(7) by simp
    then have "of_nat (100 * (k - 1) + 1) \<le> (of_nat (pc * n) :: rat)" by (simp only: of_nat_le_iff)
    then have 1: "100 * (of_nat k - 1) + 1 \<le> (of_nat pc * of_nat n :: rat)" using assms(9) by (simp add: of_nat_diff)
    have "(of_nat pc / 100 - a) * of_nat n \<le> 1 / 2 ^ 53 * 2 ^ 40" using assms(4) N by (intro mult_mono) simp_all
    then have "of_nat pc * of_nat n / 100 - ?x \<le> 1 / 2 ^ 13" by (simp add: left_diff_distrib)
    with 1 show ?thesis by (simp add: field_simps)
  qed
  have R: "round_rat F64 ?x \<le> of_nat k"
  proof -
    have "round_rat F64 (of_int (int k)) = of_int (int k)" by (rule round_rat_int) (use kn assms(2) in simp)
    then show ?thesis using round_rat_mono [OF up, of F64] by simp
  qed
  have "round_rat F64 (of_int (256 * (int k - 1) + 1) / 256) = of_int (256 * (int k - 1) + 1) / 256"
    by (rule round_rat_exact, unfold representable_def, rule exI [of _ "256 * (int k - 1) + 1"], rule exI [of _ "-8"])
      (use kn assms(2,9) in \<open>simp add: pow2_def\<close>)
  then have L: "of_int (256 * (int k - 1) + 1) / 256 \<le> round_rat F64 ?x" using round_rat_mono [OF low, of F64] by simp
  have "of_nat k \<le> (of_nat n :: rat)" using kn by simp
  then have "of_nat k \<le> (2 ^ 53 :: rat)" using N by simp
  then have "fmul F64 (Fin a) (f_of_nat F64 n) = Fin (round_rat F64 ?x)"
    using fround_small [of ?x F64] up assms(5) by (simp add: n)
  moreover have "\<lceil>round_rat F64 ?x\<rceil> = int k" using R L by (simp add: ceiling_unique)
  ultimately show ?thesis using kn assms(2) by simp
qed

lemma sort_Nil [simp]: "sort xs = [] \<longleftrightarrow> xs = []"
  by (metis length_0_conv length_sort)

lemma percentile_nearest_rank:
  assumes "xs \<noteq> []" "length xs < 2 ^ 40" "f_lit F64 (of_nat pc / 100) = Fin a" "a \<le> of_nat pc / 100"
    "of_nat pc / 100 - a \<le> 1 / 2 ^ 53" "0 \<le> a" "0 < pc" "pc \<le> 100"
  shows "percentile (sort xs) (f_lit F64 (of_nat pc / 100)) = nearest_rank pc xs"
proof -
  let ?n = "length xs"
  define k where "k = (pc * ?n + 99) div 100"
  have n: "0 < ?n" using assms(1) by simp
  obtain m where m: "pc * ?n = m" "0 < m" using n assms(7) by simp
  obtain r where "m + 99 = 100 * k + r" "r < 100" unfolding k_def m(1) by (metis mult_div_mod_eq mod_less_divisor zero_less_numeral)
  then have "m \<le> 100 * k" "100 * (k - 1) < m" "0 < k" using m(2) by simp_all
  then have k: "pc * ?n \<le> 100 * k" "100 * (k - 1) < pc * ?n" "0 < k" by (simp_all add: m(1))
  have "pc * ?n \<le> 100 * ?n" using assms(8) by simp
  then have kn: "k \<le> ?n" using k by linarith
  have "f_to_isize (f_ceil (fmul F64 (Fin a) (f_of_nat F64 ?n))) = int k"
    by (rule rank_ceiling [OF n assms(2,4-6,8) k(2,1,3)])
  then have "percentile (sort xs) (f_lit F64 (of_nat pc / 100)) = sort xs ! (k - 1)"
    using assms(1,3) kn k(3) by (simp add: percentile_def Let_def nat_diff_distrib')
  also have "\<dots> = nearest_rank pc xs" by (rule nearest_rank_nth [OF k(3) kn k(1,2), symmetric])
  finally show ?thesis .
qed

lemma last_sorted: "sorted ys \<Longrightarrow> ys \<noteq> [] \<Longrightarrow> last ys = Max (set ys)"
proof -
  assume ys: "sorted ys" "ys \<noteq> []"
  have "y \<le> last ys" if "y \<in> set ys" for y
    using that ys by (auto simp: in_set_conv_nth last_conv_nth intro!: sorted_nth_mono)
  then show ?thesis using ys(2) by (intro Max_eqI [symmetric]) auto
qed

lemma quantile_literals:
  "f_lit F64 (50 / 100) = Fin (1 / 2)" "f_lit F64 (95 / 100) = Fin (4278419646001971 / 4503599627370496)"
  "f_lit F64 (99 / 100) = Fin (4458563631096791 / 4503599627370496)"
  by code_simp+

lemma nearest_rank_mono:
  assumes "xs \<noteq> []" "pc \<le> qc" "qc \<le> 100"
  shows "nearest_rank pc xs \<le> nearest_rank qc xs \<and> nearest_rank qc xs \<le> Max (set xs)"
proof -
  let ?P = "\<lambda>pc x. pc * length xs \<le> 100 * length (filter (\<lambda>y. y \<le> x) xs)"
  have max: "?P qc (Max (set xs))" if "qc \<le> 100" for qc
    using that by (simp add: filter_True)
  have least: "nearest_rank qc xs \<le> x" if "x \<in> set xs" "?P qc x" for qc x
  proof -
    have "x \<in> set (filter (?P qc) (sort xs))" using that by simp
    moreover have "sorted (filter (?P qc) (sort xs))" by (rule sorted_filter [where f = "\<lambda>x. x", simplified]) simp
    ultimately show ?thesis unfolding nearest_rank_def by (cases "filter (?P qc) (sort xs)") auto
  qed
  have mem: "nearest_rank qc xs \<in> set xs \<and> ?P qc (nearest_rank qc xs)" if "qc \<le> 100" for qc
  proof -
    have "filter (?P qc) (sort xs) \<noteq> []" using max [OF that] assms(1)
      by (auto simp: filter_empty_conv intro!: bexI [of _ "Max (set xs)"])
    then have "hd (filter (?P qc) (sort xs)) \<in> set (filter (?P qc) (sort xs))" by (rule hd_in_set)
    then show ?thesis unfolding nearest_rank_def by simp
  qed
  have "?P pc (nearest_rank qc xs)" using mem [OF assms(3)] mult_le_mono1 [OF assms(2), of "length xs"] by linarith
  then show ?thesis using least mem [OF assms(3)] by simp
qed

text \<open>
  C20. The latency summary is exact. For every non-empty list of fewer than \<open>2 ^ 40\<close> samples, in any
  order, the three percentiles computed in floating point are the nearest-rank percentiles, each the least
  sample that the given share of the samples does not exceed; they are ordered and bounded by the
  largest sample, which is reported as the maximum.
\<close>

theorem latency_stats_exact:
  assumes "xs \<noteq> []" "length xs < 2 ^ 40"
  shows "let s = from_samples xs
    in samples s = length xs \<and> p50 s = nearest_rank 50 xs \<and> p95 s = nearest_rank 95 xs \<and> p99 s = nearest_rank 99 xs \<and>
      p50 s \<le> p95 s \<and> p95 s \<le> p99 s \<and> p99 s \<le> latency_max s \<and> latency_max s = Max (set xs) \<and>
      latency_mean s = fdiv F64 (f_of_nat F64 (sum_list (map unat xs))) (f_of_nat F64 (length xs))"
proof -
  have p: "percentile (sort xs) (f_lit F64 (50 / 100)) = nearest_rank 50 xs"
    "percentile (sort xs) (f_lit F64 (95 / 100)) = nearest_rank 95 xs"
    "percentile (sort xs) (f_lit F64 (99 / 100)) = nearest_rank 99 xs"
    using percentile_nearest_rank [OF assms, of 50 "1 / 2"] quantile_literals(1)
      percentile_nearest_rank [OF assms, of 95 "4278419646001971 / 4503599627370496"] quantile_literals(2)
      percentile_nearest_rank [OF assms, of 99 "4458563631096791 / 4503599627370496"] quantile_literals(3)
    by simp_all
  have "last (sort xs) = Max (set xs)" using last_sorted [of "sort xs"] assms(1) by simp
  moreover have "sum_list (map unat (sort xs)) = sum_list (map unat xs)"
    by (metis mset_map mset_sort sum_mset_sum_list)
  ultimately show ?thesis
    using assms(1) p nearest_rank_mono [OF assms(1), of 50 95] nearest_rank_mono [OF assms(1), of 95 99]
    by (simp add: from_samples_def Let_def)
qed

theorem latency_stats_exact_witness:
  "p50 (from_samples [30, 10, 20]) = 20 \<and> p99 (from_samples [30, 10, 20]) = 30"
  using latency_stats_exact [of "[30, 10, 20]"] by (simp add: Let_def nearest_rank_def)

end
