(* ===== verification/Bench_Harness.thy ===== *)
theory Bench_Harness
  imports Runtime_Properties Bench_Metrics
begin

text \<open>
  The benchmark harness (\<open>epica-benchmarks/src/harness.rs\<close>): it drives a trajectory through a fresh
  runtime and collects the metrics. What a step reads from the clocks, the random generator and the
  hash orders is an argument, indexed by the position of the step. The model is the one with the
  feature \<open>active-inference\<close>; with the monitor disabled it is also the one without.
\<close>

section \<open>Configuration and state\<close>

record harness_config =
  hc_baseline :: f32
  hc_budget :: u32
  hc_refill_rate :: f32
  enable_active_inference :: bool

definition harness_default :: harness_config where
  "harness_default =
     \<lparr> hc_baseline = f_lit F32 (5 / 10), hc_budget = 0, hc_refill_rate = Fin 0, enable_active_inference = True \<rparr>"

record suite_report =
  rep_suite :: suite
  rep_trajectories :: u32
  wall_clock_seconds :: f64
  rep_per_trajectory :: "per_trajectory list"
  rep_metrics :: metric_set

record step_env =
  node_now :: u64
  elapsed_us :: u64
  step_readings :: readings

record ('s, 'a, 'b, 'c, 'd) harness =
  hs_runtime :: "('s, 'a, 'b, 'c, 'd) runtime"
  latencies :: "u64 list"
  key_to_id :: "string \<rightharpoonup> belief_id"
  ground_truth :: "(belief_id \<times> bool) list"

section \<open>Steps\<close>

text \<open>The latest ground truth of a belief, \<open>iter_mut().rfind(..)\<close>.\<close>

definition set_truth :: "belief_id \<Rightarrow> bool \<Rightarrow> (belief_id \<times> bool) list \<Rightarrow> (belief_id \<times> bool) list" where
  "set_truth b c gt =
     (if b \<in> set (map fst gt) then rev (update_first (\<lambda>x. fst x = b) (\<lambda>x. (fst x, c)) (rev gt)) else gt @ [(b, c)])"

fun execute_step ::
  "('s, 'a, 'b, 'c, 'd) environment \<Rightarrow> step_env \<Rightarrow> trace_step \<Rightarrow> ('s, 'a, 'b, 'c, 'd) harness \<Rightarrow>
     ('s, 'a, 'b, 'c, 'd) harness" where
  "execute_step E e (InsertStep k v c t) h =
     (let turn = of_nat (length (ground_truth h));
          node = belief_node_new (node_now e) k (Asserted v) (UserStatement turn) c
      in case insert_belief E node (hs_runtime h) of
           (b, rt) \<Rightarrow>
             \<lparr> hs_runtime = rt, latencies = latencies h @ [elapsed_us e], key_to_id = (key_to_id h)(k \<mapsto> b),
               ground_truth = ground_truth h @ [(b, t)] \<rparr>)"
| "execute_step E e (UpdateStep k v c t) h =
     (case key_to_id h k of
        None \<Rightarrow> h
      | Some b \<Rightarrow>
          (let turn = of_nat (length (ground_truth h))
           in case update_belief E (step_readings e) b (Asserted v) (UserStatement turn) c (hs_runtime h) of
                (r, rt) \<Rightarrow>
                  h\<lparr>hs_runtime := rt, latencies := latencies h @ [elapsed_us e],
                    ground_truth := set_truth b t (ground_truth h)\<rparr>))"

fun run_steps ::
  "('s, 'a, 'b, 'c, 'd) environment \<Rightarrow> (nat \<Rightarrow> step_env) \<Rightarrow> nat \<Rightarrow> trace_step list \<Rightarrow> ('s, 'a, 'b, 'c, 'd) harness \<Rightarrow>
     ('s, 'a, 'b, 'c, 'd) harness" where
  "run_steps E es i [] h = h"
| "run_steps E es i (s # ss) h = run_steps E es (Suc i) ss (execute_step E (es i) s h)"

definition mark_wrong :: "(belief_id \<times> bool) list \<Rightarrow> confidence_history \<Rightarrow> confidence_history" where
  "mark_wrong gt hist = foldl (\<lambda>hist (b, correct). if correct then hist else mark_correct b False hist) hist gt"

definition harness_start :: "('s, 'a, 'b, 'c, 'd) runtime \<Rightarrow> ('s, 'a, 'b, 'c, 'd) harness" where
  "harness_start rt = \<lparr> hs_runtime = rt, latencies = [], key_to_id = Map.empty, ground_truth = [] \<rparr>"

definition run_trace_inner ::
  "('s, 'a, 'b, 'c, 'd) environment \<Rightarrow> (nat \<Rightarrow> step_env) \<Rightarrow> trace \<Rightarrow> ('s, 'a, 'b, 'c, 'd) runtime \<Rightarrow> per_trajectory" where
  "run_trace_inner E es t rt0 =
     (let h = run_steps E es 0 (trace_steps t) (harness_start rt0);
          rt1 = (hs_runtime h)\<lparr>history := mark_wrong (ground_truth h) (history (hs_runtime h))\<rparr>;
          rt = finalize_session rt1;
          report = session_report_of rt
      in \<lparr> per_id = trajectory_id t, per_steps = length (trace_steps t),
           per_contradictions = contradictions_detected report, per_tece = compute_tece rt,
           per_target_met = calibration_target_met report, per_soft = session_report.soft_violations report,
           per_hard = hard_violations report, per_critical = critical_violations report,
           per_free_energy = (case active_inference rt of
             None \<Rightarrow> None
           | Some m \<Rightarrow> if fe_history m = [] then None else Some (mean_free_energy m)),
           per_fe_samples = (case active_inference rt of None \<Rightarrow> 0 | Some m \<Rightarrow> length (fe_history m)),
           insert_latencies_us = latencies h \<rparr>)"

definition build_runtime ::
  "('s, 'a, 'b, 'c, 'd) environment \<Rightarrow> audit_store \<Rightarrow> harness_config \<Rightarrow> ('s, 'a, 'b, 'c, 'd) runtime" where
  "build_runtime E w cfg = runtime_new E w (session_new (the_lib E)) (hc_baseline cfg) (hc_budget cfg) (hc_refill_rate cfg)"

definition run_trace ::
  "('s, 'a, 'b, 'c, 'd) environment \<Rightarrow> audit_store \<Rightarrow> (nat \<Rightarrow> step_env) \<Rightarrow> trace \<Rightarrow> harness_config \<Rightarrow> per_trajectory" where
  "run_trace E w es t cfg =
     (let rt = build_runtime E w cfg
      in run_trace_inner E es t (if enable_active_inference cfg then set_active_inference monitor_new rt else rt))"

definition run_suite ::
  "('s, 'a, 'b, 'c, 'd) environment \<Rightarrow> audit_store \<Rightarrow> (nat \<Rightarrow> nat \<Rightarrow> step_env) \<Rightarrow> f64 \<Rightarrow> suite \<Rightarrow> u32 \<Rightarrow> harness_config \<Rightarrow>
     suite_report" where
  "run_suite E w es seconds s n cfg =
     (let per = map (\<lambda>tid. run_trace E w (es tid) (generate s (of_nat tid)) cfg) [0..<unat n]
      in \<lparr> rep_suite = s, rep_trajectories = n, wall_clock_seconds = seconds, rep_per_trajectory = per,
           rep_metrics = from_trajectories per \<rparr>)"

section \<open>What an operation leaves alone\<close>

lemma observe_keeps:
  "history (observe_active_inference E b rt) = history rt" "engine (observe_active_inference E b rt) = engine rt"
  "llm_client (observe_active_inference E b rt) = llm_client rt"
  by (simp_all add: observe_active_inference_def split: option.split)

lemma index_keeps:
  "history (index_belief_prospective E b v rt) = history rt" "engine (index_belief_prospective E b v rt) = engine rt"
  "llm_client (index_belief_prospective E b v rt) = llm_client rt"
  by (simp_all add: index_belief_prospective_def split: option.split sum.split)

lemma insert_frame:
  assumes "insert_belief E n rt = (b, rt')"
  shows "history rt' = history rt" "engine rt' = engine rt" "llm_client rt' = llm_client rt"
proof -
  obtain q where q: "quad_insert (the_lib E) (rt_quad rt) n = (b, q)"
    using assms by (auto simp: insert_belief_def Let_def split: prod.splits)
  show "history rt' = history rt" "engine rt' = engine rt" "llm_client rt' = llm_client rt"
    using assms by (auto simp: insert_belief_def Let_def q observe_keeps index_keeps)
qed

text \<open>A runtime without contracts, sovereignty and causal edges, over a well-formed quad.\<close>

definition plain :: "('s, 'a, 'b, 'c, 'd) environment \<Rightarrow> ('s, 'a, 'b, 'c, 'd) runtime \<Rightarrow> bool" where
  "plain E rt \<longleftrightarrow> quad_wf (the_lib E) (rt_quad rt) \<and> cau_edges (the_lib E) (rt_quad rt) = [] \<and>
     embedding_provider (rt_quad rt) = None \<and> engine rt = contract_engine_new \<and> llm_client rt = None"

lemma insert_plain:
  assumes "belief_lib (the_lib E)" "plain E rt" "insert_belief E n rt = (b, rt')"
  shows "plain E rt'" "b \<notin> beliefs (the_lib E) (rt_quad rt)"
    "beliefs (the_lib E) (rt_quad rt') = insert b (beliefs (the_lib E) (rt_quad rt))"
proof -
  let ?L = "the_lib E"
  obtain q where q: "quad_insert ?L (rt_quad rt) n = (b, q)" using assms(3) by (auto simp: insert_belief_def Let_def split: prod.splits)
  have "\<exists>i. rt_quad rt' = q\<lparr>prospective_index := i\<rparr>"
  proof (cases "prospect n")
    case True
    let ?rt1 = "rt\<lparr>rt_quad := q, key_index := (key_index rt)(key n \<mapsto> b)\<rparr>"
    have "rt_quad rt' = rt_quad (index_belief_prospective E b (value n) ?rt1)"
      using assms(3) q True by (auto simp: insert_belief_def Let_def)
    then show ?thesis using index_quad [of E b "value n" ?rt1] by simp
  next
    case False
    then have "rt_quad rt' = q\<lparr>prospective_index := prospective_index q\<rparr>"
      using assms(3) q by (auto simp: insert_belief_def Let_def)
    then show ?thesis by blast
  qed
  then obtain i where i: "rt_quad rt' = q\<lparr>prospective_index := i\<rparr>" by blast
  have w: "quad_wf ?L (rt_quad rt)" using assms(2) by (simp add: plain_def)
  note ins = belief_lib.insert_get [OF assms(1) w q] belief_lib.insert_wf [OF assms(1) w q] belief_lib.insert_edges(3) [OF assms(1) w q]
  have "embedding_provider q = embedding_provider (rt_quad rt)" using q by (auto simp: quad_insert_def split: prod.splits)
  moreover have "quad_wf ?L (rt_quad rt') = quad_wf ?L q" "beliefs ?L (rt_quad rt') = beliefs ?L q"
    "cau_edges ?L (rt_quad rt') = cau_edges ?L q"
    unfolding i by (simp_all add: quad_wf_def beliefs_def quad_get_fun)
  ultimately show "plain E rt'" "b \<notin> beliefs ?L (rt_quad rt)" "beliefs ?L (rt_quad rt') = insert b (beliefs ?L (rt_quad rt))"
    using ins assms(2) insert_frame [OF assms(3)] by (simp_all add: plain_def i)
qed

text \<open>Revision and propagation without causal edges.\<close>

context belief_lib
begin

lemma leaf_graph:
  assumes "quad_wf L q" "cau_edges L q = []"
  shows "inferred_from_premises (l_cau L) (causal q) b = []" "descendants_of (l_cau L) (causal q) b = {}"
    "minimal_contraction_set L q b = {}"
proof -
  have "proj_in (l_cau L) (causal q) b = []"
    using cau.proj_in_set [OF wf_graphs(3) [OF assms(1)], of b] assms(2) by simp
  then show p: "inferred_from_premises (l_cau L) (causal q) b = []" by (simp add: premises_proj_in)
  show "descendants_of (l_cau L) (causal q) b = {}"
    using descendants(1) [OF assms(1), of b] assms(2) by (simp add: proj_rel_def)
  show "minimal_contraction_set L q b = {}" by (simp add: minimal_contraction_set_def p)
qed

lemma leaf_start: "quad_wf L (session_new L)" "cau_edges L (session_new L) = []" "embedding_provider (session_new L) = None"
  using reachable_session_wf [OF reachable.start] cau.proj_new_wf
  by (simp_all add: session_wf_def session_new_def quad_new_def graph_ops_defs with_checkpoints_def quad.defs)

lemma leaf_propagate:
  assumes "quad_wf L q" "cau_edges L q = []" "\<And>b S. finite S \<Longrightarrow> set (order b S) = S"
  shows "propagate_system1 L order now q b = Some q"
  using leaf_graph [OF assms(1,2), of b] assms(3) [of "{}" b] by (simp add: propagate_system1_def system1_update_def)

lemma leaf_revise:
  assumes "quad_wf L q" "cau_edges L q = []" "embedding_provider q = None" "quad_get L q b = Some n"
  obtains r q' n' where "revise L u now q b v p c = (Inr r, q')" "contracted r = {}" "quad_wf L q'" "cau_edges L q' = []"
    "quad_get L q' b = Some n'" "fast_confidence n' = clamp01 c"
proof -
  note leaf = leaf_graph [OF assms(1,2), of b]
  have none: "apply_contraction L q {} = q" using ord [of "{}"] by (simp add: apply_contraction_def)
  have ext: "fst (check_extensionality L q b v x)" for x using assms(3) by (simp add: check_extensionality_def)
  show thesis
  proof (rule revise_cases [OF assms(1), of b u now v p c])
    fix m audit assume r: "revise L u now q b v p c = expand_only L u now q b v p c audit"
    show thesis
    proof (rule expand_only_spec [OF assms(1,4), of u now v p c audit])
      fix q' assume e: "expand_only L u now q b v p c audit = (Inr \<lparr>revision_id = u, belief_id_of = b, old_value = value n, new_value = v,
            old_confidence = fast_confidence n, new_confidence = c, contracted = {}, postulate_audit_of = audit,
            timestamp_ms = now, from_version = version q, to_version = version q + 1\<rparr>, q')"
        and q': "quad_wf L q'" "quad_get L q' = (quad_get L q)(b \<mapsto> n\<lparr>value := v, provenance := p, fast_confidence := clamp01 c\<rparr>)"
      have "causal q' = causal q"
        using arg_cong [OF e, of snd] assms(4) by (auto simp: expand_only_def Let_def quad_modify_def quad_get_def)
      then show thesis using that r e q' assms(2) by simp
    qed
  next
    fix m audit assume r: "revise L u now q b v p c = contract_expand L u now q b v p c audit"
    have "b \<notin> minimal_contraction_set L q b" by (simp add: leaf(3))
    note spec = contract_expand_spec [OF assms(1,4) this, of u now v p c audit, unfolded leaf(3) none]
    show thesis by (rule spec) (use that r assms(2) in simp)
  qed (use ext assms(4) in auto)
qed

end

lemma plain_update:
  assumes "belief_lib (the_lib E)" "plain E rt" "b \<in> beliefs (the_lib E) (rt_quad rt)" "fair rd"
  obtains r rt' where "update_belief E rd b v p c rt = (Inr r, rt')" "engine rt' = contract_engine_new"
    "history rt' = history_push (hist_time rd) b (clamp01 c) (history rt)"
proof -
  let ?L = "the_lib E" and ?q = "snd (take_checkpoint (cp_uuid rd) (cp_time rd) (rt_quad rt))"
  let ?counted = "rt\<lparr>tracker := (tracker rt)\<lparr>tokens_used := tokens_used (tracker rt) + 1\<rparr>\<rparr>"
  have P: "quad_wf ?L (rt_quad rt)" "cau_edges ?L (rt_quad rt) = []" "embedding_provider (rt_quad rt) = None"
    "engine rt = contract_engine_new" "llm_client rt = None" using assms(2) by (simp_all add: plain_def)
  have "quad_wf ?L ?q = quad_wf ?L (rt_quad rt)" by (rule quad_wf_cong) (simp_all add: take_checkpoint_def Let_def)
  then have w: "quad_wf ?L ?q" using P(1) by simp
  have q: "cau_edges ?L ?q = []" "embedding_provider ?q = None" "quad_get ?L ?q = quad_get ?L (rt_quad rt)"
    using P by (simp_all add: take_checkpoint_def Let_def quad_get_fun)
  obtain n where n: "quad_get ?L ?q b = Some n" using assms(3) q(3) by (auto simp: beliefs_def)
  obtain r q' n' where r: "revise ?L (rev_uuid rd) (rev_time rd) ?q b v p c = (Inr r, q')" "contracted r = {}" "quad_wf ?L q'"
    "cau_edges ?L q' = []" "quad_get ?L q' b = Some n'" "fast_confidence n' = clamp01 c"
    by (rule belief_lib.leaf_revise [OF assms(1) w q(1,2) n])
  have spread: "propagate_system1 ?L (prop_order rd) (prop_clock rd) q' b = Some q'"
    by (rule belief_lib.leaf_propagate [OF assms(1) r(3,4)]) (use assms(4) in \<open>simp add: fair_def\<close>)
  have pre: "pre_update (engine rt) (rt_quad rt) k ''system'' = Inr ()" for k
    by (simp add: P(4) pre_update_def contract_engine_new_def)
  have tok: "token_phase rt = (Inr (), ?counted)"
    using token_phase_cases [of rt] P(4) by (cases "token_phase rt") (auto simp: token_limit_def contract_engine_new_def)
  have rev: "revise_phase E rd b v p c (snd (checkpoint_phase rd ?counted)) =
      (Inr (clamp01 c, False), (snd (checkpoint_phase rd ?counted))\<lparr>rt_quad := q'\<rparr>)"
    using r spread by (simp add: revise_phase_def checkpoint_phase_quad)
  let ?rt3 = "(snd (checkpoint_phase rd ?counted))\<lparr>rt_quad := q'\<rparr>"
  have frame: "engine ?rt3 = contract_engine_new" "history ?rt3 = history rt" "llm_client ?rt3 = None"
    using P by (simp_all add: checkpoint_phase_def split: prod.split)
  have enf: "enforce_phase E rd u k ?rt3 = (Inr None, ?rt3)" for u k
    using frame(1) by (simp add: enforce_phase_def post_update_def contract_engine_new_def update_audit_def)
  obtain x rt' where fin: "finish_phase E rd b (clamp01 c) False ?rt3 = (x, rt')" by fastforce
  then have "engine rt' = contract_engine_new" "history rt' = history_push (hist_time rd) b (clamp01 c) (history rt)"
    using frame by (auto simp: finish_phase_def Let_def)
  moreover have "update_belief E rd b v p c rt = (Inr x, rt')"
  proof -
    obtain u rt2 where cp: "checkpoint_phase rd ?counted = (u, rt2)" by fastforce
    show ?thesis using pre tok rev enf [of u "key_of E rt b"] fin by (simp add: update_belief_def Let_def cp)
  qed
  ultimately show thesis using that by blast
qed

section \<open>Running a trajectory\<close>

text \<open>The harness has an identifier for every key it inserted, and one ground truth per identifier.\<close>

definition tracked :: "('s, 'a, 'b, 'c, 'd) environment \<Rightarrow> ('s, 'a, 'b, 'c, 'd) harness \<Rightarrow> bool" where
  "tracked E h \<longleftrightarrow> plain E (hs_runtime h) \<and> ran (key_to_id h) \<subseteq> beliefs (the_lib E) (rt_quad (hs_runtime h)) \<and>
     fst ` set (ground_truth h) \<subseteq> beliefs (the_lib E) (rt_quad (hs_runtime h)) \<and> distinct (map fst (ground_truth h))"

lemma insert_step_frame:
  "history (hs_runtime (execute_step E e (InsertStep k v c t) h)) = history (hs_runtime h)"
  "engine (hs_runtime (execute_step E e (InsertStep k v c t) h)) = engine (hs_runtime h)"
  "length (latencies (execute_step E e (InsertStep k v c t) h)) = length (latencies h) + 1"
  "dom (key_to_id (execute_step E e (InsertStep k v c t) h)) = insert k (dom (key_to_id h))"
  "\<exists>b. ground_truth (execute_step E e (InsertStep k v c t) h) = ground_truth h @ [(b, t)]"
  by (auto simp: insert_frame split: prod.split)

lemma insert_step_tracked:
  assumes "belief_lib (the_lib E)" "tracked E h"
  shows "tracked E (execute_step E e (InsertStep k v c t) h)"
proof -
  obtain b rt where i: "insert_belief E (belief_node_new (node_now e) k (Asserted v) (UserStatement (of_nat (length (ground_truth h)))) c)
      (hs_runtime h) = (b, rt)" by fastforce
  have "plain E (hs_runtime h)" using assms(2) by (simp add: tracked_def)
  note ins = insert_plain [OF assms(1) this i]
  have "ran ((key_to_id h)(k \<mapsto> b)) \<subseteq> insert b (ran (key_to_id h))" by (auto simp: ran_def)
  then show ?thesis using assms(2) ins by (auto simp: tracked_def i)
qed

lemma run_inserts:
  assumes "belief_lib (the_lib E)" "tracked E h" "\<forall>s \<in> set ss. is_InsertStep s"
  shows "tracked E (run_steps E es i ss h)" "history (hs_runtime (run_steps E es i ss h)) = history (hs_runtime h)"
    "length (latencies (run_steps E es i ss h)) = length (latencies h) + length ss"
    "dom (key_to_id (run_steps E es i ss h)) = set (inserted ss) \<union> dom (key_to_id h)"
proof -
  have "tracked E (run_steps E es i ss h) \<and> history (hs_runtime (run_steps E es i ss h)) = history (hs_runtime h) \<and>
    length (latencies (run_steps E es i ss h)) = length (latencies h) + length ss \<and>
    dom (key_to_id (run_steps E es i ss h)) = set (inserted ss) \<union> dom (key_to_id h)"
    using assms(2,3)
  proof (induction ss arbitrary: i h)
    case (Cons s ss)
    then obtain k v c t where s: "s = InsertStep k v c t" by (cases s) auto
    let ?h = "execute_step E (es i) s h"
    have "tracked E ?h" unfolding s by (rule insert_step_tracked [OF assms(1) Cons.prems(1)])
    from Cons.IH [OF this, of "Suc i"] Cons.prems(2)
      insert_step_frame [of E "es i" k v c t h, folded s] show ?case by (simp add: s)
  qed simp
  then show "tracked E (run_steps E es i ss h)" "history (hs_runtime (run_steps E es i ss h)) = history (hs_runtime h)"
    "length (latencies (run_steps E es i ss h)) = length (latencies h) + length ss"
    "dom (key_to_id (run_steps E es i ss h)) = set (inserted ss) \<union> dom (key_to_id h)" by simp_all
qed

lemma run_steps_append:
  "run_steps E es i (xs @ ys) h = run_steps E es (i + length xs) ys (run_steps E es i xs h)"
  by (induction xs arbitrary: i h) simp_all

lemma update_first_truth:
  "distinct (map fst gt) \<Longrightarrow> (b, \<not> c) \<notin> set (update_first (\<lambda>x. fst x = b) (\<lambda>x. (fst x, c)) gt)"
proof (induction gt)
  case (Cons x gt)
  have "(b, y) \<notin> set gt" if "fst x = b" for y
  proof -
    have "b \<notin> fst ` set gt" using Cons.prems that by simp
    then show ?thesis by (metis fst_conv image_eqI)
  qed
  then show ?case using Cons by (cases "fst x = b") (auto simp: prod_eq_iff)
qed simp

lemma set_truth_only: "distinct (map fst gt) \<Longrightarrow> (b, \<not> c) \<notin> set (set_truth b c gt)"
proof -
  assume d: "distinct (map fst gt)"
  then have "distinct (map fst (rev gt))" by (simp add: rev_map [symmetric])
  note u = update_first_truth [OF this, of b c]
  show ?thesis
  proof (cases "b \<in> fst ` set gt")
    case True
    then show ?thesis using u by (simp add: set_truth_def)
  next
    case False
    then have "(b, \<not> c) \<notin> set gt" by (metis fst_conv image_eqI)
    with False show ?thesis by (simp add: set_truth_def)
  qed
qed

text \<open>Marking a belief without a record changes nothing, so a single record is not marked by others.\<close>

lemma mark_wrong_other:
  assumes "(b, False) \<notin> set gt" "rec_belief r = b"
  shows "mark_wrong gt [r] = [r]"
  using assms(1)
proof (induction gt)
  case (Cons x gt)
  obtain a c where x: "x = (a, c)" by fastforce
  have "\<not> c \<Longrightarrow> mark_correct a False [r] = [r]"
    using Cons.prems assms(2) x by (auto simp: mark_correct_def update_last_of_def)
  then show ?case using Cons x by (auto simp: mark_wrong_def)
qed (simp add: mark_wrong_def)

lemma start_tracked:
  assumes "belief_lib (the_lib E)" "rt = build_runtime E w cfg \<or> rt = set_active_inference m (build_runtime E w cfg)"
  shows "tracked E (harness_start rt)" "history rt = []"
proof -
  note leaf = belief_lib.leaf_start [OF assms(1)]
  show "tracked E (harness_start rt)" "history rt = []"
    using assms(2) leaf by (auto simp: tracked_def plain_def harness_start_def build_runtime_def runtime_new_def set_active_inference_def)
qed

lemma single_tece:
  "tece_compute [(clamp01 (f_lit F32 (92 / 100)), True)] = Some (Fin (1342177 / 16777216))"
  "flt (Fin (1342177 / 16777216)) TECE_TARGET"
  by code_simp+

text \<open>What an ALFWorld-like trajectory leaves: one record, and no false ground truth for its belief.\<close>

lemma alfworld_run:
  assumes "belief_lib (the_lib E)" "\<forall>k. fair (step_readings (es k))" "tracked E (harness_start rt)" "history rt = []"
  obtains h r where "run_steps E es 0 (trace_steps (generate AlfworldLike tid)) (harness_start rt) = h"
    "history (hs_runtime h) = [r]" "was_correct r = None" "rec_confidence r = clamp01 (f_lit F32 (92 / 100))"
    "engine (hs_runtime h) = contract_engine_new" "(rec_belief r, False) \<notin> set (ground_truth h)"
    "length (latencies h) = length (trace_steps (generate AlfworldLike tid))"
proof -
  obtain n j v v' v'' ps where t: "n < 5" "j < 4 + n" "list_all2 (\<lambda>i. inserts (probe_key i)) [0..<5 + n] ps"
    "trace_steps (generate AlfworldLike tid) =
       InsertStep ''goal'' v (f_lit F32 (95 / 100)) True # ps @ [UpdateStep (probe_key j) v' (f_lit F32 (92 / 100)) True,
       InsertStep ''resolution'' v'' (f_lit F32 (93 / 100)) True]" by (rule alfworld_trace)
  let ?c = "f_lit F32 (92 / 100)" and ?pre = "InsertStep ''goal'' v (f_lit F32 (95 / 100)) True # ps"
  note ps = inserts_list [OF t(3)]
  define h where "h = run_steps E es 0 ?pre (harness_start rt)"
  have pre: "\<forall>s \<in> set ?pre. is_InsertStep s" using ps by simp
  note h = run_inserts [OF assms(1,3) pre, of es 0, folded h_def]
  have "probe_key j \<in> dom (key_to_id h)" using h(4) ps t(2) by auto
  then obtain b where b: "key_to_id h (probe_key j) = Some b" by blast
  have pl: "plain E (hs_runtime h)" "b \<in> beliefs (the_lib E) (rt_quad (hs_runtime h))" "distinct (map fst (ground_truth h))"
    using h(1) b by (auto simp: tracked_def intro: ranI)
  let ?i = "Suc (length ps)"
  obtain x rt1 where u: "update_belief E (step_readings (es ?i)) b (Asserted v') (UserStatement (of_nat (length (ground_truth h)))) ?c
      (hs_runtime h) = (Inr x, rt1)" "engine rt1 = contract_engine_new"
    "history rt1 = history_push (hist_time (step_readings (es ?i))) b (clamp01 ?c) (history (hs_runtime h))"
    by (rule plain_update [OF assms(1) pl(1,2) spec [OF assms(2)]])
  define h1 where "h1 = execute_step E (es ?i) (UpdateStep (probe_key j) v' ?c True) h"
  have h1: "hs_runtime h1 = rt1" "ground_truth h1 = set_truth b True (ground_truth h)" "length (latencies h1) = length (latencies h) + 1"
    using b u(1) by (simp_all add: h1_def)
  define h2 where "h2 = execute_step E (es (Suc ?i)) (InsertStep ''resolution'' v'' (f_lit F32 (93 / 100)) True) h1"
  have run: "run_steps E es 0 (trace_steps (generate AlfworldLike tid)) (harness_start rt) = h2"
    using run_steps_append [of E es 0 ?pre] by (simp add: t(4) h2_def h1_def h_def)
  obtain r where r: "history rt1 = [r]" "rec_belief r = b" "was_correct r = None" "rec_confidence r = clamp01 ?c"
    using u(3) h(2) assms(4) by (simp add: history_push_def harness_start_def)
  obtain b2 where g: "ground_truth h2 = set_truth b True (ground_truth h) @ [(b2, True)]"
    unfolding h2_def h1(2) [symmetric] using insert_step_frame(5) by blast
  have fin: "history (hs_runtime h2) = [r]" "engine (hs_runtime h2) = contract_engine_new"
    by (simp_all only: h2_def insert_step_frame(1,2) h1(1) r(1) u(2))
  have no: "(b, False) \<notin> set (ground_truth h2)" using set_truth_only [OF pl(3), of b True] by (simp add: g)
  have "length (latencies h2) = length (trace_steps (generate AlfworldLike tid))"
    using h1(3) h(3) by (simp add: h2_def insert_step_frame(3) t(4) harness_start_def del: execute_step.simps)
  then show thesis using that [OF run fin(1) r(3,4) fin(2)] no r(2) by blast
qed

text \<open>
  C19. The benchmark does not measure the ALFWorld-like trajectories. Whatever the trajectory, the
  configuration, the clocks and the hash orders, the harness reports the same calibration error, the
  distance of the literal 0.92 from 1, a met target, and no contradiction: insertions never enter the
  confidence history, so the ground truths of all probes are lost and the single update is the only
  record. No step is skipped and one latency is taken per step.
\<close>

theorem alfworld_metrics_constant:
  assumes "belief_lib (the_lib E)" "\<forall>k. fair (step_readings (es k))"
  shows "let r = run_trace E w es (generate AlfworldLike tid) cfg
    in per_tece r = Some (Fin (1342177 / 16777216)) \<and> per_target_met r \<and> per_contradictions r = 0 \<and>
      per_soft r = 0 \<and> per_hard r = 0 \<and> per_critical r = 0 \<and>
      length (insert_latencies_us r) = per_steps r"
proof -
  define rt where "rt = (if enable_active_inference cfg then set_active_inference monitor_new (build_runtime E w cfg)
    else build_runtime E w cfg)"
  have start: "tracked E (harness_start rt)" "history rt = []"
    using start_tracked [OF assms(1), of rt w cfg monitor_new] by (simp_all add: rt_def)
  obtain h r where h: "run_steps E es 0 (trace_steps (generate AlfworldLike tid)) (harness_start rt) = h"
    "history (hs_runtime h) = [r]" "was_correct r = None" "rec_confidence r = clamp01 (f_lit F32 (92 / 100))"
    "engine (hs_runtime h) = contract_engine_new" "(rec_belief r, False) \<notin> set (ground_truth h)"
    "length (latencies h) = length (trace_steps (generate AlfworldLike tid))"
    by (rule alfworld_run [OF assms start])
  have "mark_wrong (ground_truth h) (history (hs_runtime h)) = [r]" using mark_wrong_other [OF h(6)] h(2) by simp
  moreover have "as_tece_input (finalize_history [r]) = [(clamp01 (f_lit F32 (92 / 100)), True)]"
    using h(3,4) by (simp add: finalize_history_def as_tece_input_def)
  ultimately show ?thesis
    using h(5,7) single_tece
    by (simp add: run_trace_def run_trace_inner_def rt_def [symmetric] h(1) Let_def compute_tece_def finalize_session_def
        session_report_of_def violation_counts_def contract_engine_new_def violation_log_default_def)
qed

theorem alfworld_metrics_constant_witness:
  "per_tece (run_trace demo_env empty_store (\<lambda>k. \<lparr> node_now = 1, elapsed_us = 2, step_readings = demo_readings \<rparr>)
     (generate AlfworldLike 7) harness_default) = Some (Fin (1342177 / 16777216))"
  using alfworld_metrics_constant [of demo_env "\<lambda>k. \<lparr> node_now = 1, elapsed_us = 2, step_readings = demo_readings \<rparr>" empty_store 7 harness_default]
  by (simp add: ref_belief_lib demo_fair Let_def)

end
