(* ===== verification/Bench_Reports.thy ===== *)
theory Bench_Reports
  imports Bench_Harness Decimal_Text
begin

text \<open>
  The reports of the benchmark (\<open>epica-benchmarks/src/reporters.rs\<close>) as the bytes they write, and the
  command line (\<open>bin/bench.rs\<close>) over an abstract disk; what it prints is left out. The dash of the Markdown title and the micro
  sign are their UTF-8 bytes.
\<close>

section \<open>Comma-separated values\<close>

definition NEWLINE :: char where "NEWLINE = CHR 0x0A"

fun join_fields :: "string list \<Rightarrow> string" where
  "join_fields [] = []"
| "join_fields [f] = f"
| "join_fields (f # g # fs) = f @ CHR '','' # join_fields (g # fs)"

definition csv_text :: "string list list \<Rightarrow> string" where
  "csv_text rows = concat (map (\<lambda>r. join_fields r @ [NEWLINE]) rows)"

definition render_optional :: "fl option \<Rightarrow> string" where
  "render_optional v = (case v of Some x \<Rightarrow> fixed 5 x | None \<Rightarrow> ''NA'')"

definition bool_text :: "bool \<Rightarrow> string" where
  "bool_text b = (if b then ''true'' else ''false'')"

abbreviation word_text :: "'a::len word \<Rightarrow> string" where
  "word_text w \<equiv> nat_text (unat w)"

definition trajectory_header :: "string list" where
  "trajectory_header =
     [''suite'', ''trajectory_id'', ''steps'', ''contradictions'', ''tece'', ''calibration_met'', ''soft_violations'',
      ''hard_violations'', ''critical_violations'', ''free_energy_mean'', ''free_energy_samples'', ''latency_p50_us'',
      ''latency_p95_us'', ''latency_p99_us'', ''latency_max_us'']"

definition trajectory_row :: "suite \<Rightarrow> per_trajectory \<Rightarrow> string list" where
  "trajectory_row s t =
     (let lat = from_samples (insert_latencies_us t)
      in [slug s, word_text (per_id t), nat_text (per_steps t), nat_text (per_contradictions t), render_optional (per_tece t),
          bool_text (per_target_met t), nat_text (per_soft t), nat_text (per_hard t), nat_text (per_critical t),
          render_optional (per_free_energy t), nat_text (per_fe_samples t), word_text (p50 lat), word_text (p95 lat),
          word_text (p99 lat), word_text (latency_max lat)])"

definition per_trajectory_csv :: "suite_report \<Rightarrow> string" where
  "per_trajectory_csv r = csv_text (trajectory_header # map (trajectory_row (rep_suite r)) (rep_per_trajectory r))"

definition calibration_pct :: "metric_set \<Rightarrow> f64" where
  "calibration_pct m =
     (if trajectories m = 0 then Fin 0
      else fdiv F64 (fmul F64 (Fin 100) (f_of_nat F64 (calibration_met m))) (f_of_nat F64 (trajectories m)))"

definition summary_header :: "string list" where
  "summary_header =
     [''suite'', ''trajectories'', ''total_steps'', ''total_contradictions'', ''tece_mean'', ''calibration_met_pct'',
      ''soft_violations'', ''hard_violations'', ''critical_violations'', ''free_energy_mean'', ''free_energy_samples'',
      ''latency_samples'', ''latency_mean_us'', ''latency_p50_us'', ''latency_p95_us'', ''latency_p99_us'',
      ''latency_max_us'', ''wall_clock_seconds'']"

definition summary_row :: "suite_report \<Rightarrow> string list" where
  "summary_row r =
     (let m = rep_metrics r; lat = insert_latency_us m
      in [slug (rep_suite r), nat_text (trajectories m), nat_text (total_steps m), nat_text (total_contradictions m),
          render_optional (suite_tece m), fixed 2 (calibration_pct m), nat_text (suite_soft m), nat_text (suite_hard m),
          nat_text (suite_critical m), render_optional (suite_free_energy m), nat_text (suite_fe_samples m),
          nat_text (samples lat), fixed 2 (latency_mean lat), word_text (p50 lat), word_text (p95 lat), word_text (p99 lat),
          word_text (latency_max lat), fixed 4 (wall_clock_seconds r)])"

definition summary_csv :: "suite_report \<Rightarrow> string" where
  "summary_csv r = csv_text [summary_header, summary_row r]"

section \<open>Markdown\<close>

definition markdown_line :: "string \<Rightarrow> string \<Rightarrow> string" where
  "markdown_line metric shown = ''| '' @ metric @ '' | '' @ shown @ '' |'' @ [NEWLINE]"

definition slashed :: "string list \<Rightarrow> string" where
  "slashed xs = concat (map (\<lambda>x. x @ '' / '') (butlast xs)) @ last xs"

definition render_markdown_summary :: "suite_report \<Rightarrow> string" where
  "render_markdown_summary r =
     (let m = rep_metrics r; lat = insert_latency_us m
      in ''## '' @ slug (rep_suite r) @ '' '' @ [CHR 0xE2, CHR 0x80, CHR 0x94] @ '' '' @ nat_text (trajectories m) @
         '' trajectories'' @ [NEWLINE, NEWLINE] @
         ''| Metric | Value |'' @ [NEWLINE] @ ''|---|---|'' @ [NEWLINE] @
         markdown_line ''BeliefShift (T-ECE) mean'' (render_optional (suite_tece m)) @
         markdown_line ''Calibration target met'' (fixed 1 (calibration_pct m) @ ''%'') @
         markdown_line ''Total operations'' (nat_text (total_steps m)) @
         markdown_line ''Total AGM contradictions'' (nat_text (total_contradictions m)) @
         markdown_line ''Contract violations (soft / hard / critical)''
           (slashed [nat_text (suite_soft m), nat_text (suite_hard m), nat_text (suite_critical m)]) @
         markdown_line ''Free energy mean (nats)'' (render_optional (suite_free_energy m)) @
         markdown_line (''Insert latency p50 / p95 / p99 / max ('' @ [CHR 0xC2, CHR 0xB5] @ ''s)'')
           (slashed [word_text (p50 lat), word_text (p95 lat), word_text (p99 lat), word_text (latency_max lat)]) @
         markdown_line ''Wall-clock'' (fixed 3 (wall_clock_seconds r) @ '' s''))"

section \<open>The command line\<close>

datatype bench_command = Run suite u32 string bool | RunAll u32 string bool

text \<open>The disk: creating a directory with its parents, and writing a file of a directory.\<close>

record 'w disk_api =
  create_dir_all :: "'w \<Rightarrow> string \<Rightarrow> (string + unit) \<times> 'w"
  write_file :: "'w \<Rightarrow> string \<Rightarrow> string \<Rightarrow> string \<Rightarrow> (string + unit) \<times> 'w"

text \<open>The three files of a report, each with the words its error begins with.\<close>

definition suite_files :: "suite_report \<Rightarrow> (string \<times> string \<times> string) list" where
  "suite_files r =
     (let s = slug (rep_suite r)
      in [(''write per-trajectory CSV: '', s @ ''_per_trajectory.csv'', per_trajectory_csv r),
          (''write summary CSV: '', s @ ''_summary.csv'', summary_csv r),
          (''write markdown summary: '', s @ ''.md'', render_markdown_summary r)])"

fun write_all :: "'w disk_api \<Rightarrow> string \<Rightarrow> (string \<times> string \<times> string) list \<Rightarrow> 'w \<Rightarrow> (string + unit) \<times> 'w" where
  "write_all D d [] w = (Inr (), w)"
| "write_all D d ((what, f, t) # fs) w =
     (case write_file D w d f t of (Inl e, w') \<Rightarrow> (Inl (what @ e), w') | (Inr _, w') \<Rightarrow> write_all D d fs w')"

text \<open>\<open>report\<close> is \<open>run_suite\<close> with the readings of this run.\<close>

definition run_one ::
  "'w disk_api \<Rightarrow> (suite \<Rightarrow> u32 \<Rightarrow> harness_config \<Rightarrow> suite_report) \<Rightarrow> suite \<Rightarrow> u32 \<Rightarrow> string \<Rightarrow> harness_config \<Rightarrow> 'w \<Rightarrow>
     (string + unit) \<times> 'w" where
  "run_one D report s n d cfg w =
     (case create_dir_all D w d of
        (Inl e, w') \<Rightarrow> (Inl (''create out dir '' @ d @ '': '' @ e), w')
      | (Inr _, w') \<Rightarrow> write_all D d (suite_files (report s n cfg)) w')"

definition bench_run ::
  "'w disk_api \<Rightarrow> (suite \<Rightarrow> u32 \<Rightarrow> harness_config \<Rightarrow> suite_report) \<Rightarrow> bench_command \<Rightarrow> 'w \<Rightarrow> (string + unit) \<times> 'w" where
  "bench_run D report c w =
     (case c of
        Run s n d no_ai \<Rightarrow> run_one D report s n d (harness_default\<lparr>enable_active_inference := \<not> no_ai\<rparr>) w
      | RunAll n d no_ai \<Rightarrow>
          (let cfg = harness_default\<lparr>enable_active_inference := \<not> no_ai\<rparr>
           in case run_one D report AlfworldLike n d cfg w of
                (Inl e, w') \<Rightarrow> (Inl e, w')
              | (Inr _, w') \<Rightarrow> run_one D report WebshopLike n d cfg w'))"

section \<open>The files are well formed\<close>

lemma split_joined:
  assumes "fs \<noteq> []" "\<And>f. f \<in> set fs \<Longrightarrow> CHR '','' \<notin> set f"
  shows "split_on CHR '','' (join_fields fs) = fs"
  using assms
proof (induction fs rule: join_fields.induct)
  case (2 f)
  have "c \<notin> set w \<Longrightarrow> split_on c w = [w]" for c w by (induction w) auto
  then show ?case using 2 by simp
next
  case (3 f g fs)
  then show ?case by (simp add: split_on_append)
qed simp

definition field_ok :: "string \<Rightarrow> bool" where
  "field_ok f \<longleftrightarrow> CHR '','' \<notin> set f \<and> NEWLINE \<notin> set f"

lemma number_fields [simp]: "field_ok (nat_text n)" "field_ok (fixed k x)"
  by (simp_all add: field_ok_def not_in_nat_text not_in_fixed is_digit_def NEWLINE_def)

lemma other_fields [simp]: "field_ok (render_optional v)" "field_ok (bool_text b)" "field_ok (slug s)"
proof -
  show "field_ok (render_optional v)" by (cases v) (simp_all add: render_optional_def, simp add: field_ok_def NEWLINE_def)
  show "field_ok (bool_text b)" by (simp add: bool_text_def field_ok_def NEWLINE_def)
  show "field_ok (slug s)" by (cases s) (simp_all add: field_ok_def NEWLINE_def)
qed

lemma rows_ok:
  "list_all field_ok (trajectory_row s t)" "list_all field_ok (summary_row r)"
  "list_all field_ok trajectory_header" "list_all field_ok summary_header"
  "trajectory_row s t \<noteq> []" "summary_row r \<noteq> []" "trajectory_header \<noteq> []" "summary_header \<noteq> []"
  by (simp_all add: trajectory_row_def summary_row_def Let_def)
    (simp_all add: trajectory_header_def summary_header_def field_ok_def NEWLINE_def)

lemma join_chars: "set (join_fields fs) \<subseteq> insert CHR '','' (\<Union> (set ` set fs))"
  by (induction fs rule: join_fields.induct) auto

lemma csv_lines:
  assumes "\<And>r. r \<in> set rows \<Longrightarrow> NEWLINE \<notin> set (join_fields r)"
  shows "split_on NEWLINE (csv_text rows) = map join_fields rows @ [[]]"
  using assms by (induction rows) (simp_all add: csv_text_def split_on_append)

lemma csv_reads_back:
  assumes "\<And>r. r \<in> set rows \<Longrightarrow> r \<noteq> [] \<and> list_all field_ok r"
  shows "map (split_on CHR '','') (butlast (split_on NEWLINE (csv_text rows))) = rows"
proof -
  have "NEWLINE \<notin> set (join_fields r)" if "r \<in> set rows" for r
    using join_chars [of r] assms [OF that] by (auto simp: NEWLINE_def field_ok_def list_all_iff)
  then have "butlast (split_on NEWLINE (csv_text rows)) = map join_fields rows" by (simp add: csv_lines)
  moreover have "split_on CHR '','' (join_fields r) = r" if "r \<in> set rows" for r
    using split_joined [of r] assms [OF that] by (auto simp: field_ok_def list_all_iff)
  ultimately show ?thesis by (simp add: map_idI)
qed

text \<open>
  Both files read back, line by line and field by field, as their header and rows, without any quoting,
  and every row has the columns of the header.
\<close>

theorem reports_read_back:
  "map (split_on CHR '','') (butlast (split_on NEWLINE (per_trajectory_csv r))) =
     trajectory_header # map (trajectory_row (rep_suite r)) (rep_per_trajectory r) \<and>
   map (split_on CHR '','') (butlast (split_on NEWLINE (summary_csv r))) = [summary_header, summary_row r] \<and>
   length (trajectory_row s t) = length trajectory_header \<and> length (summary_row r) = length summary_header"
  unfolding per_trajectory_csv_def summary_csv_def
proof (intro conjI csv_reads_back)
  show "length (trajectory_row s t) = length trajectory_header" "length (summary_row r) = length summary_header"
    by (simp_all add: trajectory_row_def summary_row_def Let_def trajectory_header_def summary_header_def)
qed (use rows_ok not_sym [OF rows_ok(5)] not_sym [OF rows_ok(6)] in auto)

end
