(* ===== verification/Graph_Text.thy ===== *)
theory Graph_Text
  imports Belief_Quad Decimal_Text
begin

text \<open>
  The Graphviz export (\<open>epica-core/src/quad/viz.rs\<close>). The \<open>Debug\<close> texts of a belief id and of a value
  are arguments. Text is ASCII, so a character is a byte; the ellipsis is its three UTF-8 bytes.
\<close>

section \<open>Text\<close>

definition NL :: char where "NL = CHR 0x0A"
definition QUOTE :: char where "QUOTE = CHR 0x22"
definition BACKSLASH :: char where "BACKSLASH = CHR 0x5C"

definition replace_char :: "char \<Rightarrow> string \<Rightarrow> string \<Rightarrow> string" where
  "replace_char c t s = concat (map (\<lambda>x. if x = c then t else [x]) s)"

definition escape_dot :: "string \<Rightarrow> string" where
  "escape_dot s = replace_char QUOTE [BACKSLASH, QUOTE] (replace_char BACKSLASH [BACKSLASH, BACKSLASH] s)"

definition truncate_text :: "string \<Rightarrow> nat \<Rightarrow> string" where
  "truncate_text s max_chars = (if length s \<le> max_chars then s else take max_chars s @ [CHR 0xE2, CHR 0x80, CHR 0xA6])"

definition is_alphanumeric :: "char \<Rightarrow> bool" where
  "is_alphanumeric c \<longleftrightarrow> (let n = (of_char c :: nat) in 48 \<le> n \<and> n \<le> 57 \<or> 65 \<le> n \<and> n \<le> 90 \<or> 97 \<le> n \<and> n \<le> 122)"

definition node_dot_id :: "(belief_id \<Rightarrow> string) \<Rightarrow> belief_id \<Rightarrow> string" where
  "node_dot_id debug_id b = ''n_'' @ map (\<lambda>c. if is_alphanumeric c then c else CHR ''_'') (debug_id b)"

definition value_repr :: "(belief_value \<Rightarrow> string) \<Rightarrow> belief_value \<Rightarrow> string" where
  "value_repr debug_value v =
     (case v of Asserted s \<Rightarrow> truncate_text s 24 | _ \<Rightarrow> truncate_text (debug_value v) 24)"

definition format_label :: "(belief_value \<Rightarrow> string) \<Rightarrow> string \<Rightarrow> belief_value \<Rightarrow> f32 \<Rightarrow> string" where
  "format_label debug_value k v c =
     escape_dot k @ [BACKSLASH, CHR ''n''] @ escape_dot (value_repr debug_value v) @ [BACKSLASH, CHR ''n''] @
     '' conf='' @ fixed 2 c"

definition confidence_color :: "f32 \<Rightarrow> string" where
  "confidence_color c =
     (if fle (f_lit F32 (7 / 10)) c then ''#52c41a'' else if fle (f_lit F32 (3 / 10)) c then ''#faad14'' else ''#ff4d4f'')"

fun causal_edge_style :: "causal_edge \<Rightarrow> string \<times> string" where
  "causal_edge_style (Causes s d) = (''color=black, penwidth=2'', ''causes'')"
| "causal_edge_style (InferredFrom ps) = (''color=black'', ''inferred'')"
| "causal_edge_style (CounterfactualEdge b) = (''color=gray, style=dotted'', ''counterfactual'')"

fun semantic_edge_style :: "semantic_edge \<Rightarrow> string \<times> string" where
  "semantic_edge_style Contradicts = (''color=red, style=dashed, arrowhead=none'', ''contradicts'')"
| "semantic_edge_style Subsumes = (''color=gray, style=dashed'', ''subsumes'')"
| "semantic_edge_style Synonymous = (''color=gray, style=dashed, arrowhead=none'', ''synonymous'')"

section \<open>The document\<close>

definition quoted :: "string \<Rightarrow> string" where
  "quoted s = QUOTE # s @ [QUOTE]"

definition dot_header :: string where
  "dot_header =
     ''digraph BeliefQuad {'' @ [NL] @ ''  rankdir = LR;'' @ [NL] @
     ''  node [shape=box, style=filled, fontname='' @ quoted ''Helvetica'' @ '', fontsize=10];'' @ [NL] @
     ''  edge [fontname='' @ quoted ''Helvetica'' @ '', fontsize=9];'' @ [NL] @ [NL]"

definition node_line :: "(belief_id \<Rightarrow> string) \<Rightarrow> (belief_value \<Rightarrow> string) \<Rightarrow> belief_id \<times> belief_node \<Rightarrow> string" where
  "node_line debug_id debug_value bn =
     (case bn of (b, n) \<Rightarrow>
        ''  '' @ node_dot_id debug_id b @ '' [label='' @ quoted (format_label debug_value (key n) (value n) (fast_confidence n)) @
        '', fillcolor='' @ quoted (confidence_color (fast_confidence n)) @ ''];'' @ [NL])"

definition edge_line :: "(belief_id \<Rightarrow> string) \<Rightarrow> ('e \<Rightarrow> string \<times> string) \<Rightarrow> belief_id \<times> belief_id \<times> 'e \<Rightarrow> string" where
  "edge_line debug_id edge_style e =
     (case e of (a, b, x) \<Rightarrow>
        ''  '' @ node_dot_id debug_id a @ '' -> '' @ node_dot_id debug_id b @ '' ['' @ fst (edge_style x) @ '', label='' @
        quoted (snd (edge_style x)) @ ''];'' @ [NL])"

definition to_dot ::
  "(belief_id \<Rightarrow> string) \<Rightarrow> (belief_value \<Rightarrow> string) \<Rightarrow> ('s, 'a, 'b, 'c, 'd) lib \<Rightarrow> ('s, 'a, 'b, 'c, 'd, 'z) quad_scheme \<Rightarrow> string" where
  "to_dot debug_id debug_value L q =
     dot_header @ concat (map (node_line debug_id debug_value) (quad_iter L q)) @ [NL] @
     concat (map (edge_line debug_id causal_edge_style) (cg_all_edges (l_cau L) (causal q))) @
     concat (map (edge_line debug_id semantic_edge_style)
       (filter (\<lambda>(a, b, x). a \<noteq> b) (sg_all_edges (l_sem L) (semantic q)))) @
     ''}'' @ [NL]"

section \<open>Reading a quoted string back\<close>

text \<open>
  A quoted string of DOT, from behind its opening quote: the label it denotes, with its escapes
  resolved, and the text behind the closing quote.
\<close>

fun read_quoted :: "string \<Rightarrow> (string \<times> string) option" where
  "read_quoted [] = None"
| "read_quoted [c] = (if c = QUOTE then Some ([], []) else None)"
| "read_quoted (c # d # s) =
     (if c = QUOTE then Some ([], d # s)
      else if c = BACKSLASH
      then map_option (\<lambda>(t, r). ((if d = CHR ''n'' then NL else d) # t, r)) (read_quoted s)
      else map_option (\<lambda>(t, r). (c # t, r)) (read_quoted (d # s)))"

lemma char_facts [simp]: "BACKSLASH \<noteq> QUOTE" "QUOTE \<noteq> BACKSLASH" "BACKSLASH \<noteq> CHR ''n''" "QUOTE \<noteq> CHR ''n''"
  by (simp_all add: QUOTE_def BACKSLASH_def)

lemma read_plain:
  "c \<noteq> QUOTE \<Longrightarrow> c \<noteq> BACKSLASH \<Longrightarrow> read_quoted (c # s) = map_option (\<lambda>(t, r). (c # t, r)) (read_quoted s)"
  by (cases s) simp_all

lemma escape_dot_simps [simp]:
  "escape_dot [] = []"
  "escape_dot (c # s) =
     (if c = BACKSLASH then [BACKSLASH, BACKSLASH] else if c = QUOTE then [BACKSLASH, QUOTE] else [c]) @ escape_dot s"
  by (auto simp: escape_dot_def replace_char_def)

lemma read_escaped: "read_quoted (escape_dot s @ t) = map_option (\<lambda>(x, r). (s @ x, r)) (read_quoted t)"
  by (induction s) (auto simp: read_plain option.map_comp comp_def split_def option.map_ident)

lemma read_safe:
  "QUOTE \<notin> set s \<Longrightarrow> BACKSLASH \<notin> set s \<Longrightarrow> read_quoted (s @ t) = map_option (\<lambda>(x, r). (s @ x, r)) (read_quoted t)"
  by (induction s) (auto simp: read_plain option.map_comp comp_def split_def option.map_ident)

text \<open>No text of a key, a value or a confidence can end its label early: the label reads back.\<close>

theorem label_reads_back:
  "read_quoted (format_label debug_value k v c @ QUOTE # rest) =
     Some (k @ [NL] @ value_repr debug_value v @ [NL] @ '' conf='' @ fixed 2 c, rest)"
proof -
  obtain e where e: "e = '' conf='' @ fixed 2 c" by simp
  have safe: "QUOTE \<notin> set e" "BACKSLASH \<notin> set e"
    by (simp_all add: e not_in_fixed is_digit_def QUOTE_def BACKSLASH_def)
  have nl: "read_quoted (BACKSLASH # CHR ''n'' # t) = map_option (\<lambda>(x, r). (NL # x, r)) (read_quoted t)" for t by simp
  have close: "read_quoted (e @ QUOTE # rest) = Some (e, rest)"
    unfolding read_safe [OF safe] by (cases rest) simp_all
  have "format_label debug_value k v c @ QUOTE # rest =
      escape_dot k @ BACKSLASH # CHR ''n'' # escape_dot (value_repr debug_value v) @ BACKSLASH # CHR ''n'' # e @ QUOTE # rest"
    unfolding format_label_def e [symmetric] by simp
  then show ?thesis unfolding e [symmetric] by (simp add: read_escaped nl close del: read_quoted.simps)
qed

end
