(* ===== verification/Hash_Embedder.thy ===== *)
theory Hash_Embedder
  imports Runtime
begin

unbundle bit_operations_syntax

text \<open>
  The offline embedder (\<open>HashEmbedder\<close> in \<open>epica-runtime/src/prospective/mod.rs\<close>): words are hashed
  to buckets with FNV-1a and the counts are normalised. Text is ASCII, one byte per character.
\<close>

definition FNV_OFFSET :: u64 where "FNV_OFFSET = 14695981039346656037"
definition FNV_PRIME :: u64 where "FNV_PRIME = 1099511628211"

definition fnv1a :: "u8 list \<Rightarrow> u64" where
  "fnv1a bytes = foldl (\<lambda>h b. (h XOR ucast b) * FNV_PRIME) FNV_OFFSET bytes"

definition l2_normalize :: "f32 list \<Rightarrow> f32 list" where
  "l2_normalize v =
     (let norm = fsqrt F32 (f_sum F32 (map (\<lambda>x. fmul F32 x x) v))
      in if flt (Fin 0) norm then map (\<lambda>x. fdiv F32 x norm) v else v)"

text \<open>The words of a text; \<open>w\<close> is the word being read.\<close>

fun split_words :: "string \<Rightarrow> string \<Rightarrow> string list" where
  "split_words w [] = (if w = [] then [] else [w])"
| "split_words w (c # cs) =
     (if is_white c then (if w = [] then [] else [w]) @ split_words [] cs else split_words (w @ [c]) cs)"

definition split_whitespace :: "string \<Rightarrow> string list" where
  "split_whitespace s = split_words [] s"

definition hash_bucket :: "nat \<Rightarrow> string \<Rightarrow> nat" where
  "hash_bucket d w = unat (fnv1a (map of_char (to_lowercase w))) mod d"

definition count_word :: "nat \<Rightarrow> f32 list \<Rightarrow> string \<Rightarrow> f32 list" where
  "count_word d v w = (let i = hash_bucket d w in v[i := fadd F32 (v ! i) (Fin 1)])"

definition hash_embed :: "nat \<Rightarrow> embedder" where
  "hash_embed d text = Inr (l2_normalize (foldl (count_word d) (replicate d (Fin 0)) (split_whitespace text)))"

text \<open>The constructor panics on a zero dimension, which is \<open>None\<close>.\<close>

definition hash_embedder_new :: "nat \<Rightarrow> embedder option" where
  "hash_embedder_new d = (if 0 < d then Some (hash_embed d) else None)"

lemma length_count_words [simp]: "length (foldl (count_word d) v ws) = length v"
  by (induction ws arbitrary: v) (simp_all add: count_word_def Let_def)

lemma hash_embed_dim: "\<exists>v. hash_embed d text = Inr v \<and> length v = d"
  by (simp add: hash_embed_def l2_normalize_def Let_def)

text \<open>
  The bucket never leaves the vector. With one bucket, texts without a common word get the same
  embedding, so their similarity is not zero.
\<close>

lemma hash_bucket_less: "0 < d \<Longrightarrow> hash_bucket d w < d"
  by (simp add: hash_bucket_def)

lemma one_bucket_collides:
  "hash_embed 1 ''sky'' = hash_embed 1 ''sea'' \<and> hash_embed 1 ''sky'' = Inr [Fin 1] \<and>
   split_whitespace ''sky'' = [''sky''] \<and> split_whitespace ''sea'' = [''sea'']"
proof -
  have b: "hash_bucket 1 w = 0" for w by (simp add: hash_bucket_def)
  have w: "split_whitespace ''sky'' = [''sky'']" "split_whitespace ''sea'' = [''sea'']" by code_simp+
  have "l2_normalize [Fin 1] = [Fin 1]" by code_simp
  then show ?thesis by (simp add: hash_embed_def w count_word_def b [unfolded One_nat_def] Let_def)
qed

end
