(* ===== verification/Derived_State.thy ===== *)
theory Derived_State
  imports Contracts
begin

text \<open>
  \<open>#[derive(BeliefState)]\<close> (\<open>epica-macros/src/lib.rs\<close>): the parsing of the attributes at compile time and,
  as functions of the parsed fields, the methods the macro generates, with the schema types of
  \<open>epica-core/src/schema.rs\<close>. A field's type is its codec: \<open>serde\<close>'s conversions and the default. A
  struct value is the function from field names to values. Generated code that does not compile is
  \<open>None\<close>.
\<close>

section \<open>Attributes\<close>

text \<open>The right-hand side of \<open>name = literal\<close>; numbers are kept as their digits.\<close>

datatype attr_value = FloatLit string | IntLit string | StrLit string | BoolLit bool | OtherExpr

datatype derive_error =
    RequiresNamedFields
  | OnlyOnStructs
  | MalformedAttribute
  | ExpectedIdentifier
  | BadLiteral string
  | InvalidDuration
  | UnknownAttribute string
  | NonFiniteLiteral string

record belief_field_meta =
  f_ident :: string
  f_confidence :: f32
  f_source :: string
  f_ttl_ms :: "u64 option"
  f_prospect :: bool
  f_threshold :: f32
  f_causal_parent :: "string option"
  f_governance :: "string option"
  f_audit :: "string option"
  f_cache_affinity :: "string option"

definition DEFAULT_TAU :: f32 where
  "DEFAULT_TAU = f_lit F32 (15 / 100)"

definition default_meta :: "string \<Rightarrow> belief_field_meta" where
  "default_meta ident =
     \<lparr> f_ident = ident, f_confidence = Fin (1 / 2), f_source = ''llm:inference'', f_ttl_ms = None, f_prospect = False,
       f_threshold = DEFAULT_TAU, f_causal_parent = None, f_governance = None, f_audit = None, f_cache_affinity = None \<rparr>"

text \<open>\<open>u64::from_str\<close>: an optional plus sign, at least one digit, and no overflow.\<close>

definition digit_value :: "char \<Rightarrow> nat option" where
  "digit_value c = (let n = (of_char c :: nat) in if 48 \<le> n \<and> n \<le> 57 then Some (n - 48) else None)"

fun read_digits :: "nat \<Rightarrow> string \<Rightarrow> nat option" where
  "read_digits acc [] = Some acc"
| "read_digits acc (c # cs) =
     (case digit_value c of
        None \<Rightarrow> None
      | Some d \<Rightarrow> if 10 * acc + d < 2 ^ 64 then read_digits (10 * acc + d) cs else None)"

definition parse_u64 :: "string \<Rightarrow> nat option" where
  "parse_u64 s = (let t = (case s of c # cs \<Rightarrow> if c = CHR ''+'' then cs else s | [] \<Rightarrow> [])
                  in if t = [] then None else read_digits 0 t)"

definition saturating_mul :: "nat \<Rightarrow> nat \<Rightarrow> u64" where
  "saturating_mul a b = of_nat (min (a * b) (2 ^ 64 - 1))"

text \<open>
  The text is split before its last byte. A last character of several bytes makes the macro panic
  there, which is \<open>None\<close> here, as for any other unknown unit: the compilation fails either way.
\<close>

definition parse_duration_ms :: "string \<Rightarrow> u64 option" where
  "parse_duration_ms s =
     (if length s < 2 then None
      else (case parse_u64 (butlast s) of
              None \<Rightarrow> None
            | Some n \<Rightarrow>
                (if last s = CHR ''s'' then Some (saturating_mul n 1000)
                 else if last s = CHR ''m'' then Some (saturating_mul n 60000)
                 else if last s = CHR ''h'' then Some (saturating_mul n 3600000)
                 else if last s = CHR ''d'' then Some (saturating_mul n 86400000)
                 else None)))"

text \<open>\<open>read_f32\<close> is \<open>f32::from_str\<close> on the digits of a literal.\<close>

definition lit_f32 :: "(string \<Rightarrow> f32 option) \<Rightarrow> attr_value \<Rightarrow> string \<Rightarrow> derive_error + f32" where
  "lit_f32 read_f32 e attr =
     (case e of
        FloatLit s \<Rightarrow> (case read_f32 s of Some x \<Rightarrow> Inr x | None \<Rightarrow> Inl (BadLiteral attr))
      | IntLit s \<Rightarrow> (case read_f32 s of Some x \<Rightarrow> Inr x | None \<Rightarrow> Inl (BadLiteral attr))
      | _ \<Rightarrow> Inl (BadLiteral attr))"

definition lit_str :: "attr_value \<Rightarrow> string \<Rightarrow> derive_error + string" where
  "lit_str e attr = (case e of StrLit s \<Rightarrow> Inr s | _ \<Rightarrow> Inl (BadLiteral attr))"

definition lit_bool :: "attr_value \<Rightarrow> string \<Rightarrow> derive_error + bool" where
  "lit_bool e attr = (case e of BoolLit b \<Rightarrow> Inr b | _ \<Rightarrow> Inl (BadLiteral attr))"

abbreviation sum_map :: "('a \<Rightarrow> 'b) \<Rightarrow> 'e + 'a \<Rightarrow> 'e + 'b" where
  "sum_map f r \<equiv> map_sum (\<lambda>e. e) f r"

definition belief_attribute ::
  "(string \<Rightarrow> f32 option) \<Rightarrow> string \<Rightarrow> attr_value \<Rightarrow> belief_field_meta \<Rightarrow> derive_error + belief_field_meta" where
  "belief_attribute read_f32 k e m =
     (if k = ''confidence'' then sum_map (\<lambda>x. m\<lparr>f_confidence := x\<rparr>) (lit_f32 read_f32 e k)
      else if k = ''source'' then sum_map (\<lambda>x. m\<lparr>f_source := x\<rparr>) (lit_str e k)
      else if k = ''decays_after'' then
        (case lit_str e k of
           Inl err \<Rightarrow> Inl err
         | Inr s \<Rightarrow> (case parse_duration_ms s of None \<Rightarrow> Inl InvalidDuration | Some ms \<Rightarrow> Inr (m\<lparr>f_ttl_ms := Some ms\<rparr>)))
      else if k = ''prospect'' then sum_map (\<lambda>x. m\<lparr>f_prospect := x\<rparr>) (lit_bool e k)
      else if k = ''reflection_threshold'' then sum_map (\<lambda>x. m\<lparr>f_threshold := x\<rparr>) (lit_f32 read_f32 e k)
      else if k = ''causal_parent'' then sum_map (\<lambda>x. m\<lparr>f_causal_parent := Some x\<rparr>) (lit_str e k)
      else if k = ''governance'' then sum_map (\<lambda>x. m\<lparr>f_governance := Some x\<rparr>) (lit_str e k)
      else if k = ''audit'' then sum_map (\<lambda>x. m\<lparr>f_audit := Some x\<rparr>) (lit_str e k)
      else if k = ''cache_affinity'' then sum_map (\<lambda>x. m\<lparr>f_cache_affinity := Some x\<rparr>) (lit_str e k)
      else Inl (UnknownAttribute k))"

text \<open>A name that is a path and not an identifier is \<open>None\<close>.\<close>

fun belief_pairs ::
  "(string \<Rightarrow> f32 option) \<Rightarrow> (string option \<times> attr_value) list \<Rightarrow> belief_field_meta \<Rightarrow> derive_error + belief_field_meta" where
  "belief_pairs read_f32 [] m = Inr m"
| "belief_pairs read_f32 ((None, e) # ps) m = Inl ExpectedIdentifier"
| "belief_pairs read_f32 ((Some k, e) # ps) m =
     (case belief_attribute read_f32 k e m of Inl err \<Rightarrow> Inl err | Inr m' \<Rightarrow> belief_pairs read_f32 ps m')"

text \<open>The parser of the pairs is \<open>syn\<close>'s: \<open>None\<close> when the attribute is not a list of \<open>name = expression\<close>.\<close>

type_synonym belief_attr = "(string option \<times> attr_value) list option"

definition parse_belief_attr :: "(string \<Rightarrow> f32 option) \<Rightarrow> string \<Rightarrow> belief_attr \<Rightarrow> derive_error + belief_field_meta" where
  "parse_belief_attr read_f32 ident attr =
     (case attr of None \<Rightarrow> Inl MalformedAttribute | Some ps \<Rightarrow> belief_pairs read_f32 ps (default_meta ident))"

text \<open>The input: a struct's named fields, each with its \<open>belief\<close> attributes, of which the first counts.\<close>

datatype derive_input = NamedStruct string "(string \<times> belief_attr list) list" | UnnamedStruct string | NotStruct string

fun parse_fields :: "(string \<Rightarrow> f32 option) \<Rightarrow> (string \<times> belief_attr list) list \<Rightarrow> derive_error + belief_field_meta list" where
  "parse_fields read_f32 [] = Inr []"
| "parse_fields read_f32 ((ident, []) # fs) = parse_fields read_f32 fs"
| "parse_fields read_f32 ((ident, a # as) # fs) =
     (case parse_belief_attr read_f32 ident a of
        Inl e \<Rightarrow> Inl e
      | Inr m \<Rightarrow> sum_map (\<lambda>ms. m # ms) (parse_fields read_f32 fs))"

text \<open>Only finite numbers can be written into the generated code.\<close>

definition writable :: "belief_field_meta \<Rightarrow> bool" where
  "writable m \<longleftrightarrow> (\<forall>x \<in> {f_confidence m, f_threshold m}. x \<noteq> NaN \<and> (\<forall>s \<in> {True, False}. x \<noteq> Inf s))"

definition impl_belief_state :: "(string \<Rightarrow> f32 option) \<Rightarrow> derive_input \<Rightarrow> derive_error + belief_field_meta list" where
  "impl_belief_state read_f32 ast =
     (case ast of
        NamedStruct n fs \<Rightarrow>
          (case parse_fields read_f32 fs of
             Inl e \<Rightarrow> Inl e
           | Inr ms \<Rightarrow>
               (case List.find (\<lambda>m. \<not> writable m) ms of
                  Some m \<Rightarrow> Inl (NonFiniteLiteral (f_ident m))
                | None \<Rightarrow> Inr ms))
      | UnnamedStruct n \<Rightarrow> Inl RequiresNamedFields
      | NotStruct n \<Rightarrow> Inl OnlyOnStructs)"

section \<open>The generated conversion\<close>

record 'v field_codec =
  to_json :: "'v \<Rightarrow> json option"
  to_json_text :: "'v \<Rightarrow> string option"
  of_json :: "json \<Rightarrow> 'v option"
  default_of :: 'v

definition is_deterministic :: "string \<Rightarrow> bool" where
  "is_deterministic source \<longleftrightarrow> source = ''deterministic'' \<or> take 4 source = ''env:''"

definition derived_provenance :: "string \<Rightarrow> uuid \<Rightarrow> provenance" where
  "derived_provenance source u =
     (if source = ''user'' then UserStatement 0
      else if is_deterministic source then ToolResult source u
      else LlmInference source u 0)"

definition derived_value :: "string \<Rightarrow> 'v field_codec \<Rightarrow> 'v \<Rightarrow> belief_value" where
  "derived_value source c v =
     (let j = (case to_json c v of None \<Rightarrow> JNull | Some j \<Rightarrow> j)
      in if source = ''user'' then Asserted (case to_json_text c v of None \<Rightarrow> '''' | Some t \<Rightarrow> t)
         else if is_deterministic source then Deterministic j
         else Inferred j)"

definition derived_node :: "u64 \<Rightarrow> uuid \<Rightarrow> 'v field_codec \<Rightarrow> belief_field_meta \<Rightarrow> 'v \<Rightarrow> belief_node" where
  "derived_node now u c f v =
     (belief_node_new now (f_ident f) (derived_value (f_source f) c v) (derived_provenance (f_source f) u) (f_confidence f))
       \<lparr>reflection_threshold := f_threshold f, prospect := f_prospect f, ttl_ms := f_ttl_ms f\<rparr>"

text \<open>The clock readings and fresh ids of the fields are functions of their names.\<close>

fun insert_fields ::
  "('s, 'a, 'b, 'c, 'd) lib \<Rightarrow> (string \<Rightarrow> u64) \<Rightarrow> (string \<Rightarrow> uuid) \<Rightarrow> (string \<Rightarrow> 'v field_codec) \<Rightarrow> (string \<Rightarrow> 'v) \<Rightarrow>
     belief_field_meta list \<Rightarrow> ('s, 'a, 'b, 'c, 'd) quad \<times> (string \<rightharpoonup> belief_id) \<Rightarrow>
     ('s, 'a, 'b, 'c, 'd) quad \<times> (string \<rightharpoonup> belief_id)" where
  "insert_fields L now u C self [] (q, ids) = (q, ids)"
| "insert_fields L now u C self (f # fs) (q, ids) =
     (let k = f_ident f
      in case quad_insert L q (derived_node (now k) (u k) (C k) f (self k)) of
           (b, q') \<Rightarrow> insert_fields L now u C self fs (q', ids(k \<mapsto> b)))"

text \<open>A parent that is no belief field is an unbound variable of the generated code.\<close>

fun add_parents ::
  "('s, 'a, 'b, 'c, 'd) lib \<Rightarrow> (string \<rightharpoonup> belief_id) \<Rightarrow> belief_field_meta list \<Rightarrow> ('s, 'a, 'b, 'c, 'd) quad \<Rightarrow>
     ('s, 'a, 'b, 'c, 'd) quad option" where
  "add_parents L ids [] q = Some q"
| "add_parents L ids (f # fs) q =
     (case f_causal_parent f of
        None \<Rightarrow> add_parents L ids fs q
      | Some p \<Rightarrow>
          (case (ids p, ids (f_ident f)) of
             (Some a, Some b) \<Rightarrow> add_parents L ids fs (add_causal_edge L q a b (InferredFrom [a]))
           | _ \<Rightarrow> None))"

definition to_belief_quad ::
  "('s, 'a, 'b, 'c, 'd) lib \<Rightarrow> (string \<Rightarrow> u64) \<Rightarrow> (string \<Rightarrow> uuid) \<Rightarrow> (string \<Rightarrow> 'v field_codec) \<Rightarrow> belief_field_meta list \<Rightarrow>
     (string \<Rightarrow> 'v) \<Rightarrow> ('s, 'a, 'b, 'c, 'd) quad option" where
  "to_belief_quad L now u C fs self =
     (case insert_fields L now u C self fs (quad_new L, Map.empty) of (q, ids) \<Rightarrow> add_parents L ids fs q)"

definition named_belief :: "('s, 'a, 'b, 'c, 'd) lib \<Rightarrow> ('s, 'a, 'b, 'c, 'd, 'z) quad_scheme \<Rightarrow> string \<Rightarrow> belief_node option" where
  "named_belief L q k = map_option snd (List.find (\<lambda>(b, n). key n = k) (quad_iter L q))"

definition decode_value :: "'v field_codec \<Rightarrow> belief_value \<Rightarrow> 'v option" where
  "decode_value c v =
     (case v of
        Inferred j \<Rightarrow> of_json c j
      | Deterministic j \<Rightarrow> of_json c j
      | Asserted s \<Rightarrow> of_json c (JString s)
      | Reference b \<Rightarrow> None)"

definition unwrap_or :: "'a \<Rightarrow> 'a option \<Rightarrow> 'a" where
  "unwrap_or d x = (case x of None \<Rightarrow> d | Some v \<Rightarrow> v)"

definition from_belief_quad ::
  "('s, 'a, 'b, 'c, 'd) lib \<Rightarrow> (string \<Rightarrow> 'v field_codec) \<Rightarrow> belief_field_meta list \<Rightarrow> ('s, 'a, 'b, 'c, 'd, 'z) quad_scheme \<Rightarrow>
     (string \<Rightarrow> 'v) option" where
  "from_belief_quad L C fs q =
     Some (\<lambda>k. if k \<in> set (map f_ident fs)
               then unwrap_or (default_of (C k)) (Option.bind (named_belief L q k) (\<lambda>n. decode_value (C k) (value n)))
               else default_of (C k))"

section \<open>The generated accessors\<close>

definition typed_confidence :: "('s, 'a, 'b, 'c, 'd) lib \<Rightarrow> string \<Rightarrow> ('s, 'a, 'b, 'c, 'd, 'z) quad_scheme \<Rightarrow> f32 \<times> f32 option" where
  "typed_confidence L k q =
     unwrap_or (Fin 0, None) (map_option (\<lambda>n. (fast_confidence n, slow_confidence n)) (named_belief L q k))"

definition field_confidence ::
  "('s, 'a, 'b, 'c, 'd) lib \<Rightarrow> belief_field_meta list \<Rightarrow> ('s, 'a, 'b, 'c, 'd, 'z) quad_scheme \<Rightarrow> string \<Rightarrow>
     (f32 \<times> f32 option) option" where
  "field_confidence L fs q k =
     (if k \<in> set (map f_ident fs) then map_option (\<lambda>n. (fast_confidence n, slow_confidence n)) (named_belief L q k) else None)"

definition field_invariant ::
  "('s, 'a, 'b, 'c, 'd) lib \<Rightarrow> belief_field_meta \<Rightarrow> ('s, 'a, 'b, 'c, 'd, 'z) quad_scheme session_invariant" where
  "field_invariant L f =
     \<lparr> predicate = min_confidence L (f_ident f) (fmul F32 (f_confidence f) (Fin (1 / 2))),
       class_of = (if f_governance f = Some ''human_approval'' then Hard else Soft), max_intervention_gap_steps = 3 \<rparr>"

definition default_contract ::
  "('s, 'a, 'b, 'c, 'd) lib \<Rightarrow> string \<Rightarrow> belief_field_meta list \<Rightarrow> ('s, 'a, 'b, 'c, 'd, 'z) quad_scheme behavioral_contract" where
  "default_contract L name fs =
     \<lparr> domain = name, preconditions = map (\<lambda>f. belief_exists L (f_ident f)) fs, invariants = map (field_invariant L) fs,
       governance = governance_default\<lparr>require_human_approval :=
         map f_ident (filter (\<lambda>f. f_governance f = Some ''human_approval'') fs)\<rparr>,
       recovery = RollbackToLastCheckpoint, probability = f_lit F64 (99 / 100), max_violations = 1, window = 100,
       drift_rate = f_lit F64 (5 / 100), enforcement_rate = Fin (1 / 2) \<rparr>"

record belief_field_descriptor =
  bd_key :: string
  bd_source :: string
  bd_initial_confidence :: f32
  bd_ttl_ms :: "u64 option"
  bd_prospect :: bool
  bd_threshold :: f32
  bd_causal_parent :: "string option"
  bd_governance :: "string option"
  bd_audit :: "string option"
  bd_cache_affinity :: "string option"

record struct_schema =
  schema_name :: string
  schema_beliefs :: "belief_field_descriptor list"

definition field_descriptor :: "belief_field_meta \<Rightarrow> belief_field_descriptor" where
  "field_descriptor f =
     \<lparr> bd_key = f_ident f, bd_source = f_source f, bd_initial_confidence = f_confidence f, bd_ttl_ms = f_ttl_ms f,
       bd_prospect = f_prospect f, bd_threshold = f_threshold f, bd_causal_parent = f_causal_parent f,
       bd_governance = f_governance f, bd_audit = f_audit f, bd_cache_affinity = f_cache_affinity f \<rparr>"

definition derived_schema :: "string \<Rightarrow> belief_field_meta list \<Rightarrow> struct_schema" where
  "derived_schema name fs = \<lparr> schema_name = name, schema_beliefs = map field_descriptor fs \<rparr>"

section \<open>What a fresh quad holds\<close>

text \<open>The generated code names a belief by its field: names and ids determine each other.\<close>

definition named_by :: "('s, 'a, 'b, 'c, 'd) lib \<Rightarrow> ('s, 'a, 'b, 'c, 'd, 'z) quad_scheme \<Rightarrow> (string \<rightharpoonup> belief_id) \<Rightarrow> bool" where
  "named_by L q ids \<longleftrightarrow> quad_wf L q \<and> (\<forall>k b. ids k = Some b \<longleftrightarrow> (\<exists>n. quad_get L q b = Some n \<and> key n = k))"

lemma derived_node_simps [simp]:
  "key (derived_node now u c f v) = f_ident f"
  "value (derived_node now u c f v) = derived_value (f_source f) c v"
  "fast_confidence (derived_node now u c f v) = clamp01 (f_confidence f)"
  by (simp_all add: derived_node_def)

context belief_lib
begin

lemma named_by_new: "named_by L (quad_new L) Map.empty"
  using new_wf by (simp add: named_by_def quad_get_fun quad_new_def nodes.new_get)

lemma named_belief_get:
  assumes "named_by L q ids"
  shows "named_belief L q k = Option.bind (ids k) (quad_get L q)"
proof -
  note mem = iter_mem [OF conjunct1 [OF assms [unfolded named_by_def]]]
  have ids: "ids k = Some b \<longleftrightarrow> (\<exists>n. quad_get L q b = Some n \<and> key n = k)" for k b
    using assms by (simp add: named_by_def)
  show ?thesis
  proof (cases "List.find (\<lambda>(b, n). key n = k) (quad_iter L q)")
    case None
    have "ids k = None"
    proof (rule ccontr)
      assume "ids k \<noteq> None"
      then obtain b n where "quad_get L q b = Some n" "key n = k" using ids by blast
      with None mem show False by (fastforce simp: find_None_set)
    qed
    with None show ?thesis by (simp add: named_belief_def)
  next
    case (Some x)
    obtain b n where x: "x = (b, n)" by fastforce
    with find_Some_set [OF Some] mem have g: "quad_get L q b = Some n" "key n = k" by auto
    with ids have "ids k = Some b" by blast
    with g Some x show ?thesis by (simp add: named_belief_def)
  qed
qed

lemma insert_named:
  assumes "named_by L q ids" "quad_insert L q n = (b, q')" "ids (key n) = None"
  shows "named_by L q' (ids(key n \<mapsto> b))" "quad_get L q' b = Some (n\<lparr>id := b\<rparr>)"
    "quad_get L q c = Some m \<Longrightarrow> quad_get L q' c = Some m"
proof -
  have w: "quad_wf L q" and ids: "\<And>k b. ids k = Some b \<longleftrightarrow> (\<exists>n. quad_get L q b = Some n \<and> key n = k)"
    using assms(1) by (simp_all add: named_by_def)
  note g = insert_get [OF w assms(2)]
  have fresh: "quad_get L q b = None" using g(1) by (simp add: beliefs_def domIff)
  show "quad_get L q' b = Some (n\<lparr>id := b\<rparr>)" by (simp add: g(3))
  show "quad_get L q c = Some m \<Longrightarrow> quad_get L q' c = Some m" using fresh by (auto simp: g(3))
  have "(ids(key n \<mapsto> b)) k = Some c \<longleftrightarrow> (\<exists>m. quad_get L q' c = Some m \<and> key m = k)" for k c
  proof (cases "k = key n")
    case True
    have "\<not> (\<exists>m. quad_get L q c = Some m \<and> key m = k)" using ids [of k c] assms(3) True by auto
    then show ?thesis using True by (auto simp: g(3))
  next
    case False
    then show ?thesis using ids [of k c] fresh by (auto simp: g(3))
  qed
  then show "named_by L q' (ids(key n \<mapsto> b))" using insert_wf [OF w assms(2)] by (simp add: named_by_def)
qed

lemma insert_fields_spec:
  assumes "named_by L q ids" "distinct (map f_ident fs)" "\<forall>f \<in> set fs. ids (f_ident f) = None"
    and "insert_fields L now u C self fs (q, ids) = (q', ids')"
  shows "named_by L q' ids' \<and>
     (\<forall>k b m. ids k = Some b \<and> quad_get L q b = Some m \<longrightarrow> ids' k = Some b \<and> quad_get L q' b = Some m) \<and>
     dom ids' = dom ids \<union> f_ident ` set fs \<and>
     (\<forall>f \<in> set fs. \<exists>b. ids' (f_ident f) = Some b \<and>
        quad_get L q' b = Some ((derived_node (now (f_ident f)) (u (f_ident f)) (C (f_ident f)) f (self (f_ident f)))\<lparr>id := b\<rparr>))"
  using assms
proof (induction fs arbitrary: q ids)
  case (Cons f fs)
  let ?n = "derived_node (now (f_ident f)) (u (f_ident f)) (C (f_ident f)) f (self (f_ident f))"
  obtain b q1 where i: "quad_insert L q ?n = (b, q1)" by fastforce
  have fresh: "ids (key ?n) = None" using Cons.prems(3) by simp
  note st = insert_named [OF Cons.prems(1) i fresh, simplified]
  have rest: "insert_fields L now u C self fs (q1, ids(f_ident f \<mapsto> b)) = (q', ids')"
    using Cons.prems(4) i by (simp add: Let_def)
  have "\<forall>g \<in> set fs. (ids(f_ident f \<mapsto> b)) (f_ident g) = None"
    using Cons.prems(2,3) by (metis fun_upd_other image_eqI list.set_map distinct.simps(2) list.simps(9) list.set_intros(2))
  from Cons.IH [OF st(1) _ this rest] Cons.prems(2)
  have ih: "named_by L q' ids'"
    "\<And>k c m. (ids(f_ident f \<mapsto> b)) k = Some c \<Longrightarrow> quad_get L q1 c = Some m \<Longrightarrow> ids' k = Some c \<and> quad_get L q' c = Some m"
    "dom ids' = dom (ids(f_ident f \<mapsto> b)) \<union> f_ident ` set fs"
    "\<forall>f \<in> set fs. \<exists>b. ids' (f_ident f) = Some b \<and>
        quad_get L q' b = Some ((derived_node (now (f_ident f)) (u (f_ident f)) (C (f_ident f)) f (self (f_ident f)))\<lparr>id := b\<rparr>)"
    by auto
  have "ids' k = Some c \<and> quad_get L q' c = Some m" if "ids k = Some c" "quad_get L q c = Some m" for k c m
    using ih(2) [of k c m] that st(3) [of c m] fresh by (cases "k = f_ident f") auto
  moreover have "ids' (f_ident f) = Some b \<and> quad_get L q' b = Some (?n\<lparr>id := b\<rparr>)"
    using ih(2) [of "f_ident f" b] st(2) by simp
  ultimately show ?case using ih(1,3,4) by auto
qed auto

lemma add_causal_named: "named_by L q ids \<Longrightarrow> named_by L (add_causal_edge L q a b e) ids"
  using add_edge_wf(3) [of q a b e] by (simp add: named_by_def) (simp add: add_causal_edge_def frame_get)

lemma add_parents_spec:
  "named_by L q ids \<Longrightarrow> add_parents L ids fs q = Some q' \<Longrightarrow> named_by L q' ids \<and> quad_get L q' = quad_get L q"
proof (induction fs arbitrary: q)
  case (Cons f fs)
  have "quad_get L (add_causal_edge L q a b e) = quad_get L q" for a b e
    by (simp add: add_causal_edge_def frame_get)
  then show ?case
    using Cons by (auto simp: add_causal_named split: option.splits dest!: Cons.IH [rotated])
qed auto

lemma add_parents_defined:
  "\<forall>f \<in> set fs. f_ident f \<in> dom ids \<and> (\<forall>p. f_causal_parent f = Some p \<longrightarrow> p \<in> dom ids) \<Longrightarrow>
     \<exists>q'. add_parents L ids fs q = Some q'"
  by (induction fs arbitrary: q) (auto split: option.splits)

lemma to_belief_quad_spec:
  assumes "distinct (map f_ident fs)" "\<forall>f \<in> set fs. \<forall>p. f_causal_parent f = Some p \<longrightarrow> p \<in> f_ident ` set fs"
  obtains q ids where "to_belief_quad L now u C fs self = Some q" "named_by L q ids" "dom ids = f_ident ` set fs"
    "\<And>f. f \<in> set fs \<Longrightarrow> \<exists>b. named_belief L q (f_ident f) =
       Some ((derived_node (now (f_ident f)) (u (f_ident f)) (C (f_ident f)) f (self (f_ident f)))\<lparr>id := b\<rparr>)"
proof -
  obtain q1 ids where i: "insert_fields L now u C self fs (quad_new L, Map.empty) = (q1, ids)" by fastforce
  from insert_fields_spec [OF named_by_new assms(1) _ i]
  have s: "named_by L q1 ids" "dom ids = f_ident ` set fs"
    "\<And>f. f \<in> set fs \<Longrightarrow> \<exists>b. ids (f_ident f) = Some b \<and>
        quad_get L q1 b = Some ((derived_node (now (f_ident f)) (u (f_ident f)) (C (f_ident f)) f (self (f_ident f)))\<lparr>id := b\<rparr>)"
    by auto
  obtain q where p: "add_parents L ids fs q1 = Some q" using add_parents_defined [of fs ids q1] assms(2) s(2) by blast
  then have t: "to_belief_quad L now u C fs self = Some q" using i by (simp add: to_belief_quad_def)
  from add_parents_spec [OF s(1) p] have e: "named_by L q ids" "quad_get L q = quad_get L q1" by auto
  show thesis
    by (rule that [OF t e(1) s(2)]) (use s(3) in \<open>fastforce simp: named_belief_get [OF e(1)] e(2)\<close>)
qed

end

section \<open>Attributes give numbers that are not negative\<close>

text \<open>A literal has no sign: \<open>read_f32\<close> gives the nearest \<open>f32\<close> of a number that is not negative.\<close>

definition reads_literals :: "(string \<Rightarrow> f32 option) \<Rightarrow> bool" where
  "reads_literals read_f32 \<longleftrightarrow> (\<forall>s x. read_f32 s = Some x \<longrightarrow> (\<exists>y\<ge>0. x = f_lit F32 y))"

lemma finite_literal: "0 \<le> x \<Longrightarrow> x \<le> 1 \<Longrightarrow> fround t x \<noteq> Inf s"
  using fround_unit [of x t] by auto

lemma literal_half: "f_lit F32 (1 / 2) = Fin (1 / 2)"
  by code_simp

lemma sum_map_Inr [simp]: "sum_map f r = Inr y \<longleftrightarrow> (\<exists>x. r = Inr x \<and> y = f x)"
  by (cases r) auto

lemma belief_attribute_literal:
  assumes "reads_literals read_f32" "belief_attribute read_f32 k e m = Inr m'"
  shows "f_ident m' = f_ident m \<and> (f_confidence m' = f_confidence m \<or> (\<exists>y\<ge>0. f_confidence m' = f_lit F32 y))"
  using assms by (auto simp: belief_attribute_def lit_f32_def reads_literals_def split: if_splits sum.splits
      attr_value.splits option.splits)

lemma belief_pairs_literal:
  "reads_literals read_f32 \<Longrightarrow> belief_pairs read_f32 ps m = Inr m' \<Longrightarrow>
     f_ident m' = f_ident m \<and> (f_confidence m' = f_confidence m \<or> (\<exists>y\<ge>0. f_confidence m' = f_lit F32 y))"
proof (induction read_f32 ps m rule: belief_pairs.induct)
  case (3 read_f32 k e ps m)
  from 3(3) obtain m1 where m1: "belief_attribute read_f32 k e m = Inr m1" "belief_pairs read_f32 ps m1 = Inr m'"
    by (auto split: sum.splits)
  from 3(1) [OF m1(1) 3(2) m1(2)] belief_attribute_literal [OF 3(2) m1(1)] show ?case by metis
qed auto

lemma parse_fields_literal:
  "reads_literals read_f32 \<Longrightarrow> parse_fields read_f32 decl = Inr fs \<Longrightarrow>
     set (map f_ident fs) \<subseteq> set (map fst decl) \<and> (distinct (map fst decl) \<longrightarrow> distinct (map f_ident fs)) \<and>
     (\<forall>f \<in> set fs. \<exists>y\<ge>0. f_confidence f = f_lit F32 y)"
proof (induction read_f32 decl arbitrary: fs rule: parse_fields.induct)
  case (3 read_f32 ident a as decl)
  then obtain m ms where m: "parse_belief_attr read_f32 ident a = Inr m" "parse_fields read_f32 decl = Inr ms" "fs = m # ms"
    by (auto split: sum.splits)
  have "f_ident m = ident \<and> (\<exists>y\<ge>0. f_confidence m = f_lit F32 y)"
  proof -
    obtain ps where "belief_pairs read_f32 ps (default_meta ident) = Inr m"
      using m(1) by (auto simp: parse_belief_attr_def split: option.splits)
    from belief_pairs_literal [OF 3(2) this] show ?thesis
      by (auto simp: default_meta_def literal_half [symmetric] intro: exI [of _ "1 / 2"])
  qed
  with 3(1) [OF m(1) 3(2) m(2)] m(3) show ?case by auto
qed (auto 4 3)

lemma derived_fields_literal:
  assumes "reads_literals read_f32" "impl_belief_state read_f32 (NamedStruct name decl) = Inr fs"
    "distinct (map fst decl)"
  shows "distinct (map f_ident fs)"
    "f \<in> set fs \<Longrightarrow> \<exists>r\<ge>0. f_confidence f = Fin r \<and> representable F32 r"
proof -
  have p: "parse_fields read_f32 decl = Inr fs" "\<forall>f \<in> set fs. writable f"
    using assms(2) by (auto simp: impl_belief_state_def find_None_set split: sum.splits option.splits)
  note l = parse_fields_literal [OF assms(1) p(1)]
  show "distinct (map f_ident fs)" using l assms(3) by blast
  assume "f \<in> set fs"
  with l p(2) obtain y where "0 \<le> y" "f_confidence f = f_lit F32 y" "writable f" by blast
  then show "\<exists>r\<ge>0. f_confidence f = Fin r \<and> representable F32 r"
    by (auto simp: writable_def f_lit_def fround_def Let_def representable_round round_rat_nonneg split: if_splits)
qed

section \<open>The threshold of the default contract\<close>

lemma representable_half:
  assumes "representable F32 r" "2 < r"
  shows "representable F32 (r / 2)"
proof -
  obtain n e where r: "r = of_int n * pow2 e" "\<bar>n\<bar> \<le> 2 ^ nat (fprec F32)" "fmin_exp F32 \<le> e"
    using assms(1) by (auto simp: representable_def)
  have "e \<noteq> fmin_exp F32"
  proof
    assume e: "e = fmin_exp F32"
    have "n \<le> 2 ^ nat (fprec F32)" using r(2) by simp
    then have "(of_int n :: rat) \<le> 2 ^ nat (fprec F32)" by (metis of_int_le_iff of_int_numeral of_int_power)
    then have "r \<le> 2 ^ nat (fprec F32) * pow2 (fmin_exp F32)" using r(1) e by simp
    also have "\<dots> \<le> 2" by code_simp
    finally show False using assms(2) by simp
  qed
  then have "fmin_exp F32 \<le> e - 1" using r(3) by simp
  moreover have "r / 2 = of_int n * pow2 (e - 1)" by (simp add: r(1) pow2_diff pow2_of_nat)
  ultimately show ?thesis using r(2) unfolding representable_def by blast
qed

lemma half_confidence_reached:
  assumes "0 \<le> r" "representable F32 r"
  shows "fle (fmul F32 (Fin r) (Fin (1 / 2))) (clamp01 (Fin r)) \<longleftrightarrow> r \<le> 2"
proof (cases "r \<le> 1")
  case True
  have "fle (fround F32 (r / 2)) (fround F32 r)" using assms(1) by (intro fround_fle) simp
  moreover have "fround F32 r = Fin r"
    using fround_unit [OF assms(1) True, of F32] round_rat_exact [OF assms(2)] by auto
  ultimately show ?thesis using True assms(1) by simp
next
  case False
  then have c: "clamp01 (Fin r) = Fin 1" by (simp add: fclamp_def)
  show ?thesis
  proof (cases "r \<le> 2")
    case True
    have "fle (fround F32 (r / 2)) (fround F32 1)" using True by (intro fround_fle) simp
    then show ?thesis using True c by simp
  next
    case False
    then have "round_rat F32 (r / 2) = r / 2" by (intro round_rat_exact representable_half assms(2)) simp
    then show ?thesis using False c by (simp add: fround_def Let_def)
  qed
qed

section \<open>Properties\<close>

definition parents_declared :: "belief_field_meta list \<Rightarrow> bool" where
  "parents_declared fs \<longleftrightarrow> (\<forall>f \<in> set fs. \<forall>p. f_causal_parent f = Some p \<longrightarrow> p \<in> f_ident ` set fs)"

lemma derived_quad_total:
  "belief_lib L \<Longrightarrow> distinct (map f_ident fs) \<Longrightarrow> parents_declared fs \<Longrightarrow>
     \<exists>q. to_belief_quad L now u C fs self = Some q"
  unfolding parents_declared_def by (rule belief_lib.to_belief_quad_spec [of L fs now u C self]) auto

text \<open>
  C37. A struct whose parents are belief fields becomes a well-formed quad, and back from that quad
  always a struct: a field that is no belief is its default, a field whose source is not the user is
  what it was when its type survives JSON, and a field of the user is what its type reads from the
  string that is the JSON text of the value. The accessor gives the declared confidence, clamped.
\<close>

theorem derived_roundtrip:
  assumes "belief_lib L" "distinct (map f_ident fs)" "parents_declared fs"
  shows "\<exists>q s. to_belief_quad L now u C fs self = Some q \<and> quad_wf L q \<and> from_belief_quad L C fs q = Some s \<and>
    (\<forall>k. k \<notin> f_ident ` set fs \<longrightarrow> s k = default_of (C k)) \<and>
    (\<forall>f \<in> set fs. let k = f_ident f; c = C k in
       field_confidence L fs q k = Some (clamp01 (f_confidence f), None) \<and>
       (f_source f \<noteq> ''user'' \<longrightarrow> Option.bind (to_json c (self k)) (of_json c) = Some (self k) \<longrightarrow> s k = self k) \<and>
       (f_source f = ''user'' \<longrightarrow>
          s k = unwrap_or (default_of c) (of_json c (JString (unwrap_or '''' (to_json_text c (self k)))))))"
proof -
  obtain q ids where q: "to_belief_quad L now u C fs self = Some q" "named_by L q ids"
    and b: "\<And>f. f \<in> set fs \<Longrightarrow> \<exists>b. named_belief L q (f_ident f) =
       Some ((derived_node (now (f_ident f)) (u (f_ident f)) (C (f_ident f)) f (self (f_ident f)))\<lparr>id := b\<rparr>)"
    using belief_lib.to_belief_quad_spec [OF assms(1,2)] assms(3) unfolding parents_declared_def by metis
  define s where "s k = (if k \<in> f_ident ` set fs
      then unwrap_or (default_of (C k)) (Option.bind (named_belief L q k) (\<lambda>n. decode_value (C k) (value n)))
      else default_of (C k))" for k
  have fb: "from_belief_quad L C fs q = Some s" by (simp add: from_belief_quad_def s_def fun_eq_iff)
  have w: "quad_wf L q" using q(2) by (simp add: named_by_def)
  have "let k = f_ident f; c = C k in
       field_confidence L fs q k = Some (clamp01 (f_confidence f), None) \<and>
       (f_source f \<noteq> ''user'' \<longrightarrow> Option.bind (to_json c (self k)) (of_json c) = Some (self k) \<longrightarrow> s k = self k) \<and>
       (f_source f = ''user'' \<longrightarrow>
          s k = unwrap_or (default_of c) (of_json c (JString (unwrap_or '''' (to_json_text c (self k))))))"
    if f: "f \<in> set fs" for f
  proof -
    from b [OF f] obtain i where i: "named_belief L q (f_ident f) =
       Some ((derived_node (now (f_ident f)) (u (f_ident f)) (C (f_ident f)) f (self (f_ident f)))\<lparr>id := i\<rparr>)" ..
    show ?thesis using f
      by (auto simp: s_def Let_def field_confidence_def derived_value_def decode_value_def unwrap_or_def i
          bind_eq_Some_conv derived_node_def belief_node_new_def split: option.splits)
  qed
  then show ?thesis using q(1) w fb by (intro exI conjI ballI) (assumption | simp add: s_def)+
qed

text \<open>
  C38. The contract derived for a struct, on the quad made from it: every precondition holds, and no
  invariant is violated exactly when no declared confidence is above two. Confidences are clamped in
  the quad and not in the contract, so a declared percentage gives a contract that is never met.
\<close>

theorem default_contract_fresh:
  assumes "belief_lib L" "reads_literals read_f32" "distinct (map fst decl)"
    and "impl_belief_state read_f32 (NamedStruct name decl) = Inr fs" "parents_declared fs"
    and "to_belief_quad L now u C fs self = Some q"
  shows "check_preconditions (default_contract L name fs) q \<and>
    (collect_all_violations vids (default_contract L name fs) q cp = [] \<longleftrightarrow> (\<forall>f \<in> set fs. fle (f_confidence f) (Fin 2)))"
proof -
  note l = derived_fields_literal [OF assms(2,4,3)]
  have b: "\<exists>b. named_belief L q (f_ident f) =
       Some ((derived_node (now (f_ident f)) (u (f_ident f)) (C (f_ident f)) f (self (f_ident f)))\<lparr>id := b\<rparr>)"
    if "f \<in> set fs" for f
    using belief_lib.to_belief_quad_spec [OF assms(1) l(1)] assms(5,6) that unfolding parents_declared_def
    by (metis option.inject)
  have "min_confidence_holds L (f_ident f) (fmul F32 (f_confidence f) (Fin (1 / 2))) q \<longleftrightarrow> fle (f_confidence f) (Fin 2)"
    if f: "f \<in> set fs" for f
  proof -
    obtain r where r: "0 \<le> r" "f_confidence f = Fin r" "representable F32 r" using l(2) [OF f] by blast
    show ?thesis using b [OF f] half_confidence_reached [OF r(1,3)] r(2)
      by (auto simp: min_confidence_holds_def named_belief_def simp del: fmul.simps)
  qed
  moreover have "evaluate (belief_exists L (f_ident f)) q" if "f \<in> set fs" for f
    using b [OF that] by (auto simp: belief_exists_def named_belief_def list_ex_iff dest!: find_Some_set)
  ultimately show ?thesis
    by (simp add: check_preconditions_def list_all_iff collect_all_violations_def violations_empty_iff
        default_contract_def field_invariant_def min_confidence_def del: fmul.simps)
qed

section \<open>A struct\<close>

text \<open>
  Three text fields: a goal of the user, declared with a percentage as its confidence, a branch the
  model infers from it, and a note that is no belief.
\<close>

definition text_codec :: "string field_codec" where
  "text_codec = \<lparr> to_json = (\<lambda>s. Some (JString s)), to_json_text = (\<lambda>s. Some ([CHR 0x22] @ s @ [CHR 0x22])),
     of_json = (\<lambda>j. case j of JString s \<Rightarrow> Some s | _ \<Rightarrow> None), default_of = '''' \<rparr>"

definition demo_read_f32 :: "string \<Rightarrow> f32 option" where
  "demo_read_f32 s = (if s = ''85'' then Some (f_lit F32 85) else None)"

definition demo_decl :: "(string \<times> belief_attr list) list" where
  "demo_decl =
     [(''goal'', [Some [(Some ''source'', StrLit ''user''), (Some ''confidence'', IntLit ''85'')]]),
      (''branch'', [Some [(Some ''causal_parent'', StrLit ''goal''), (Some ''decays_after'', StrLit ''10m'')]]),
      (''note'', [])]"

definition demo_fields :: "belief_field_meta list" where
  "demo_fields =
     [(default_meta ''goal'')\<lparr>f_source := ''user'', f_confidence := Fin 85\<rparr>,
      (default_meta ''branch'')\<lparr>f_causal_parent := Some ''goal'', f_ttl_ms := Some 600000\<rparr>]"

lemma demo_literal: "f_lit F32 85 = Fin 85"
  by code_simp

lemma demo_duration: "parse_duration_ms ''10m'' = Some 600000"
  by (simp add: parse_duration_ms_def parse_u64_def digit_value_def saturating_mul_def)

lemma demo_fields_derived: "impl_belief_state demo_read_f32 (NamedStruct ''Task'' demo_decl) = Inr demo_fields"
  by (simp add: impl_belief_state_def demo_decl_def demo_fields_def parse_belief_attr_def belief_attribute_def
      lit_f32_def lit_str_def default_meta_def demo_read_f32_def demo_literal demo_duration writable_def
      DEFAULT_TAU_def f_lit_def finite_literal demo_literal [unfolded f_lit_def])

lemma demo_fields_facts:
  "distinct (map f_ident demo_fields)" "parents_declared demo_fields" "distinct (map fst demo_decl)"
  by (simp_all add: demo_fields_def parents_declared_def default_meta_def demo_decl_def)

lemma demo_reads_literals: "reads_literals demo_read_f32"
proof -
  have "\<exists>y\<ge>0. f_lit F32 85 = f_lit F32 y" by (rule exI [of _ 85]) simp
  then show ?thesis by (simp add: reads_literals_def demo_read_f32_def)
qed

abbreviation "demo_self \<equiv> (\<lambda>k. if k = ''goal'' then ''ship'' else if k = ''branch'' then ''main'' else ''draft'')"

text \<open>The user's goal comes back with the quotes of its JSON text.\<close>

theorem derived_roundtrip_witness:
  "\<exists>q s. to_belief_quad ref_lib (\<lambda>k. 0) (\<lambda>k. 0) (\<lambda>k. text_codec) demo_fields demo_self = Some q \<and>
     from_belief_quad ref_lib (\<lambda>k. text_codec) demo_fields q = Some s \<and>
     s ''goal'' = [CHR 0x22] @ ''ship'' @ [CHR 0x22] \<and> s ''branch'' = ''main'' \<and> s ''note'' = ''''"
proof -
  let ?to = "to_belief_quad ref_lib (\<lambda>k. 0) (\<lambda>k. 0) (\<lambda>k. text_codec) demo_fields demo_self"
  obtain q s where qs: "?to = Some q" "from_belief_quad ref_lib (\<lambda>k. text_codec) demo_fields q = Some s"
    and s: "\<forall>k. k \<notin> f_ident ` set demo_fields \<longrightarrow> s k = default_of text_codec"
    "\<forall>f \<in> set demo_fields. let k = f_ident f; c = text_codec in
       field_confidence ref_lib demo_fields q k = Some (clamp01 (f_confidence f), None) \<and>
       (f_source f \<noteq> ''user'' \<longrightarrow> Option.bind (to_json c (demo_self k)) (of_json c) = Some (demo_self k) \<longrightarrow> s k = demo_self k) \<and>
       (f_source f = ''user'' \<longrightarrow>
          s k = unwrap_or (default_of c) (of_json c (JString (unwrap_or [] (to_json_text c (demo_self k))))))"
    using derived_roundtrip [OF ref_belief_lib demo_fields_facts(1,2),
      of "\<lambda>k. 0" "\<lambda>k. 0" "\<lambda>k. text_codec" demo_self] by (elim exE conjE)
  have "s ''goal'' = [CHR 0x22] @ ''ship'' @ [CHR 0x22]" "s ''branch'' = ''main''" "s ''note'' = []"
    using s by (simp_all add: demo_fields_def default_meta_def text_codec_def unwrap_or_def Let_def)
  with qs show ?thesis by blast
qed

theorem default_contract_fresh_witness:
  "\<exists>q. to_belief_quad ref_lib (\<lambda>k. 0) (\<lambda>k. 0) (\<lambda>k. text_codec) demo_fields demo_self = Some q \<and>
     check_preconditions (default_contract ref_lib ''Task'' demo_fields) q \<and>
     collect_all_violations (\<lambda>k. 0) (default_contract ref_lib ''Task'' demo_fields) q None \<noteq> []"
proof -
  obtain q where q: "to_belief_quad ref_lib (\<lambda>k. 0) (\<lambda>k. 0) (\<lambda>k. text_codec) demo_fields demo_self = Some q"
    using derived_quad_total [OF ref_belief_lib demo_fields_facts(1,2)] by blast
  have no: "\<not> (\<forall>f \<in> set demo_fields. fle (f_confidence f) (Fin 2))" by (simp add: demo_fields_def)
  show ?thesis
    using q no default_contract_fresh [OF ref_belief_lib demo_reads_literals demo_fields_facts(3) demo_fields_derived
        demo_fields_facts(2) q, of "\<lambda>k. 0" None]
    by (intro exI [of _ q]) simp
qed

end
