(* ===== verification/Python_Quad.thy ===== *)
theory Python_Quad
  imports Runtime Decimal_Text
begin

text \<open>
  The Python class \<open>BeliefQuad\<close> (\<open>epica-python/src/belief.rs\<close>) with the values it returns
  (\<open>types.rs\<close>, \<open>query.rs\<close>, \<open>error.rs\<close>) and the class \<open>BehavioralContract\<close> (\<open>contracts.rs\<close>).
  The quad is addressed by key through an index of ids; every method runs under one lock, so a state is a
  session quad with its index. Exceptions carry their cause in the place of its text; the clock and fresh
  ids are arguments, as are the texts of UUIDs, JSON values and ids.
\<close>

section \<open>Values and exceptions\<close>

record py_belief_node =
  py_key :: string
  py_value :: string
  py_value_kind :: string
  py_provenance :: string
  py_fast_confidence :: f32
  py_slow_confidence :: "f32 option"
  py_created_at_ms :: u64
  py_effective_confidence :: f32

record value_texts =
  json_text :: "json \<Rightarrow> string"
  id_text :: "belief_id \<Rightarrow> string"

fun py_value_of :: "value_texts \<Rightarrow> belief_value \<Rightarrow> string \<times> string" where
  "py_value_of T (Asserted s) = (s, ''asserted'')"
| "py_value_of T (Inferred j) = (json_text T j, ''inferred'')"
| "py_value_of T (Deterministic j) = (json_text T j, ''deterministic'')"
| "py_value_of T (Reference b) = (''ref:'' @ id_text T b, ''reference'')"

fun py_provenance_of :: "provenance \<Rightarrow> string" where
  "py_provenance_of (UserStatement t) = ''user_statement''"
| "py_provenance_of (LlmInference model c h) = ''llm_inference:'' @ model"
| "py_provenance_of (ToolResult tool c) = ''tool_result:'' @ tool"
| "py_provenance_of (RuntimeInference ps) = ''runtime_inference''"

definition node_to_py :: "value_texts \<Rightarrow> belief_node \<Rightarrow> py_belief_node" where
  "node_to_py T n =
     \<lparr> py_key = key n, py_value = fst (py_value_of T (value n)), py_value_kind = snd (py_value_of T (value n)),
       py_provenance = py_provenance_of (provenance n), py_fast_confidence = fast_confidence n,
       py_slow_confidence = slow_confidence n, py_created_at_ms = created_at_ms n,
       py_effective_confidence = (case slow_confidence n of None \<Rightarrow> fast_confidence n | Some s \<Rightarrow> s) \<rparr>"

definition py_node_eq :: "py_belief_node \<Rightarrow> py_belief_node \<Rightarrow> bool" where
  "py_node_eq a b \<longleftrightarrow> py_key a = py_key b \<and> py_value a = py_value b"

record py_belief_diff =
  py_added :: "string list"
  py_removed :: "string list"
  py_modified :: "string list"
  py_has_contradictions :: bool
  py_trajectory_ece :: "f32 option"

definition diff_to_py :: "belief_quad_diff \<Rightarrow> py_belief_diff" where
  "diff_to_py d =
     (let a = map snap_key (added d); r = map snap_key (removed d); m = map mod_key (modified d)
      in \<lparr> py_added = a, py_removed = r, py_modified = m, py_has_contradictions = (a \<noteq> [] \<or> r \<noteq> [] \<or> m \<noteq> []),
           py_trajectory_ece = trajectory_ece d \<rparr>)"

definition py_diff_len :: "py_belief_diff \<Rightarrow> nat" where
  "py_diff_len d = length (py_added d) + length (py_removed d) + length (py_modified d)"

definition py_diff_is_empty :: "py_belief_diff \<Rightarrow> bool" where
  "py_diff_is_empty d \<longleftrightarrow> py_added d = [] \<and> py_removed d = [] \<and> py_modified d = []"

record py_counterfactual =
  removed_key :: string
  surviving :: "string list"
  excluded_count :: nat

datatype py_cause =
    KeyNotFound string
  | RevisionText revision_error
  | RollbackText rollback_error
  | InvalidCheckpointId string
  | UnknownCheckpoint string
  | UnknownEdgeType string
  | UnknownSeverity string
  | PreconditionText string
  | InvariantText string string violation_class
  | RuntimeText runtime_error

datatype py_exception =
    EpicaError py_cause
  | SovereigntyError py_cause
  | BeliefRevisionError py_cause
  | CheckpointError py_cause
  | ContractViolationError py_cause
  | PyValueError py_cause
  | PyKeyError py_cause

section \<open>The class\<close>

record ('s, 'a, 'b, 'c, 'd) quad_state =
  py_quad :: "('s, 'a, 'b, 'c, 'd) session_quad"
  key_to_id :: "string \<rightharpoonup> belief_id"

definition quad_state_new :: "('s, 'a, 'b, 'c, 'd) lib \<Rightarrow> ('s, 'a, 'b, 'c, 'd) quad_state" where
  "quad_state_new L = \<lparr> py_quad = session_new L, key_to_id = Map.empty \<rparr>"

text \<open>Of two beliefs with one key the one visited later wins.\<close>

definition rebuild_index ::
  "('s, 'a, 'b, 'c, 'd) lib \<Rightarrow> ('s, 'a, 'b, 'c, 'd) quad_state \<Rightarrow> ('s, 'a, 'b, 'c, 'd) quad_state" where
  "rebuild_index L s =
     s\<lparr>key_to_id := map_of (rev (map (\<lambda>(b, n). (key n, b)) (quad_iter L (py_quad s))))\<rparr>"

text \<open>The three optional arguments: kind, model, tool.\<close>

type_synonym py_source = "string option \<times> string option \<times> string option"

definition py_parse_provenance :: "uuid \<Rightarrow> py_source \<Rightarrow> provenance" where
  "py_parse_provenance u = (\<lambda>(kind, model, tool).
     if kind = Some ''llm'' then LlmInference (case model of None \<Rightarrow> ''unknown'' | Some m \<Rightarrow> m) u 0
     else if kind = Some ''tool'' then ToolResult (case tool of None \<Rightarrow> ''unknown'' | Some t \<Rightarrow> t) u
     else UserStatement 0)"

definition py_insert ::
  "('s, 'a, 'b, 'c, 'd) lib \<Rightarrow> uuid \<Rightarrow> u64 \<Rightarrow> string \<Rightarrow> string \<Rightarrow> f32 \<Rightarrow> py_source \<Rightarrow>
     ('s, 'a, 'b, 'c, 'd) quad_state \<Rightarrow> ('s, 'a, 'b, 'c, 'd) quad_state" where
  "py_insert L u now k v c src s =
     (let node = belief_node_new now k (Asserted v) (py_parse_provenance u src) c
      in case quad_insert L (py_quad s) node of
           (b, q) \<Rightarrow> \<lparr> py_quad = q, key_to_id = (key_to_id s)(k \<mapsto> b) \<rparr>)"

definition py_get ::
  "('s, 'a, 'b, 'c, 'd) lib \<Rightarrow> value_texts \<Rightarrow> ('s, 'a, 'b, 'c, 'd) quad_state \<Rightarrow> string \<Rightarrow> py_belief_node option" where
  "py_get L T s k =
     (case key_to_id s k of
        None \<Rightarrow> None
      | Some b \<Rightarrow> map_option (node_to_py T) (quad_get L (py_quad s) b))"

definition py_remove ::
  "('s, 'a, 'b, 'c, 'd) lib \<Rightarrow> string \<Rightarrow> ('s, 'a, 'b, 'c, 'd) quad_state \<Rightarrow> bool \<times> ('s, 'a, 'b, 'c, 'd) quad_state" where
  "py_remove L k s =
     (case key_to_id s k of
        None \<Rightarrow> (False, s)
      | Some b \<Rightarrow>
          (case quad_remove L (py_quad s) b of
             (r, q) \<Rightarrow> (r \<noteq> None, \<lparr> py_quad = q, key_to_id = (key_to_id s)(k := None) \<rparr>)))"

definition py_revise ::
  "('s, 'a, 'b, 'c, 'd) lib \<Rightarrow> uuid \<Rightarrow> uuid \<Rightarrow> u64 \<Rightarrow> string \<Rightarrow> string \<Rightarrow> f32 \<Rightarrow> py_source \<Rightarrow>
     ('s, 'a, 'b, 'c, 'd) quad_state \<Rightarrow> (py_exception + unit) \<times> ('s, 'a, 'b, 'c, 'd) quad_state" where
  "py_revise L u ru now k v c src s =
     (case key_to_id s k of
        None \<Rightarrow> (Inl (BeliefRevisionError (KeyNotFound k)), s)
      | Some b \<Rightarrow>
          (case revise L ru now (py_quad s) b (Asserted v) (py_parse_provenance u src) c of
             (r, q) \<Rightarrow>
               ((case r of Inl e \<Rightarrow> Inl (BeliefRevisionError (RevisionText e)) | Inr _ \<Rightarrow> Inr ()),
                s\<lparr>py_quad := q\<rparr>)))"

definition py_checkpoint ::
  "(uuid \<Rightarrow> string) \<Rightarrow> uuid \<Rightarrow> u64 \<Rightarrow> ('s, 'a, 'b, 'c, 'd) quad_state \<Rightarrow> string \<times> ('s, 'a, 'b, 'c, 'd) quad_state" where
  "py_checkpoint show_uuid u now s =
     (case take_checkpoint u now (py_quad s) of
        (i, q) \<Rightarrow> (checkpoint_id_display show_uuid i, s\<lparr>py_quad := q\<rparr>))"

definition parse_checkpoint_id :: "(string \<Rightarrow> uuid option) \<Rightarrow> string \<Rightarrow> py_exception + uuid" where
  "parse_checkpoint_id parse_uuid t =
     (case checkpoint_id_parse parse_uuid t of
        None \<Rightarrow> Inl (CheckpointError (InvalidCheckpointId t)) | Some u \<Rightarrow> Inr u)"

definition py_rollback_to ::
  "('s, 'a, 'b, 'c, 'd) lib \<Rightarrow> (string set \<Rightarrow> string list) \<Rightarrow> (string \<Rightarrow> uuid option) \<Rightarrow> string \<Rightarrow>
     ('s, 'a, 'b, 'c, 'd) quad_state \<Rightarrow> (py_exception + py_belief_diff) \<times> ('s, 'a, 'b, 'c, 'd) quad_state" where
  "py_rollback_to L kord parse_uuid t s =
     (case parse_checkpoint_id parse_uuid t of
        Inl e \<Rightarrow> (Inl e, s)
      | Inr u \<Rightarrow>
          (case rollback_to L kord (py_quad s) u of
             (Inl e, q) \<Rightarrow> (Inl (CheckpointError (RollbackText e)), s\<lparr>py_quad := q\<rparr>)
           | (Inr d, q) \<Rightarrow> (Inr (diff_to_py d), rebuild_index L (s\<lparr>py_quad := q\<rparr>))))"

definition list_checkpoints :: "(uuid \<Rightarrow> string) \<Rightarrow> ('s, 'a, 'b, 'c, 'd) quad_state \<Rightarrow> string list" where
  "list_checkpoints show_uuid s = map (\<lambda>c. checkpoint_id_display show_uuid (cp_id c)) (checkpoints (py_quad s))"

definition diff_with_checkpoint ::
  "('s, 'a, 'b, 'c, 'd) lib \<Rightarrow> (string set \<Rightarrow> string list) \<Rightarrow> (string \<Rightarrow> uuid option) \<Rightarrow> string \<Rightarrow>
     ('s, 'a, 'b, 'c, 'd) quad_state \<Rightarrow> py_exception + py_belief_diff" where
  "diff_with_checkpoint L kord parse_uuid t s =
     (case parse_checkpoint_id parse_uuid t of
        Inl e \<Rightarrow> Inl e
      | Inr u \<Rightarrow>
          (case checkpoint_by_id (py_quad s) u of
             None \<Rightarrow> Inl (CheckpointError (UnknownCheckpoint t))
           | Some cp \<Rightarrow> Inr (diff_to_py (quad_diff L kord (py_quad s) (cp_quad cp)))))"

definition py_counterfactual_of ::
  "('s, 'a, 'b, 'c, 'd) lib \<Rightarrow> string \<Rightarrow> ('s, 'a, 'b, 'c, 'd) quad_state \<Rightarrow> py_exception + py_counterfactual" where
  "py_counterfactual_of L k s =
     (case key_to_id s k of
        None \<Rightarrow> Inl (BeliefRevisionError (KeyNotFound k))
      | Some b \<Rightarrow>
          (let world = counterfactual_query L (py_quad s) b
           in Inr \<lparr> removed_key = k, surviving = map (\<lambda>(b, n). key n) (surviving_beliefs L world),
                    excluded_count = card (excluded world) \<rparr>))"

section \<open>Edges\<close>

text \<open>Both ends are looked up, the first one first.\<close>

definition ends :: "('s, 'a, 'b, 'c, 'd) quad_state \<Rightarrow> string \<Rightarrow> string \<Rightarrow> py_exception + belief_id \<times> belief_id" where
  "ends s k l =
     (case key_to_id s k of
        None \<Rightarrow> Inl (PyKeyError (KeyNotFound k))
      | Some a \<Rightarrow> (case key_to_id s l of None \<Rightarrow> Inl (PyKeyError (KeyNotFound l)) | Some b \<Rightarrow> Inr (a, b)))"

definition parse_semantic_edge :: "string \<Rightarrow> semantic_edge option" where
  "parse_semantic_edge t =
     (if t = ''subsumes'' then Some Subsumes else if t = ''contradicts'' then Some Contradicts
      else if t = ''synonymous'' then Some Synonymous else None)"

definition py_add_semantic_edge ::
  "('s, 'a, 'b, 'c, 'd) lib \<Rightarrow> string \<Rightarrow> string \<Rightarrow> string \<Rightarrow> ('s, 'a, 'b, 'c, 'd) quad_state \<Rightarrow>
     (py_exception + unit) \<times> ('s, 'a, 'b, 'c, 'd) quad_state" where
  "py_add_semantic_edge L k l t s =
     (case parse_semantic_edge t of
        None \<Rightarrow> (Inl (PyValueError (UnknownEdgeType t)), s)
      | Some e \<Rightarrow>
          (case ends s k l of
             Inl x \<Rightarrow> (Inl x, s)
           | Inr (a, b) \<Rightarrow> (Inr (), s\<lparr>py_quad := add_semantic_edge L (py_quad s) a b e\<rparr>)))"

definition py_add_causal_edge ::
  "('s, 'a, 'b, 'c, 'd) lib \<Rightarrow> string \<Rightarrow> string \<Rightarrow> f32 \<Rightarrow> f32 \<Rightarrow> ('s, 'a, 'b, 'c, 'd) quad_state \<Rightarrow>
     (py_exception + unit) \<times> ('s, 'a, 'b, 'c, 'd) quad_state" where
  "py_add_causal_edge L k l effect_size confidence s =
     (case ends s k l of
        Inl x \<Rightarrow> (Inl x, s)
      | Inr (a, b) \<Rightarrow> (Inr (), s\<lparr>py_quad := add_causal_edge L (py_quad s) a b (Causes effect_size confidence)\<rparr>))"

definition py_add_temporal_edge ::
  "('s, 'a, 'b, 'c, 'd) lib \<Rightarrow> string \<Rightarrow> string \<Rightarrow> ('s, 'a, 'b, 'c, 'd) quad_state \<Rightarrow>
     (py_exception + unit) \<times> ('s, 'a, 'b, 'c, 'd) quad_state" where
  "py_add_temporal_edge L k l s =
     (case ends s k l of
        Inl x \<Rightarrow> (Inl x, s)
      | Inr (a, b) \<Rightarrow> (Inr (), s\<lparr>py_quad := add_temporal_edge L (py_quad s) a b (Precedes 0)\<rparr>))"

section \<open>The container protocol\<close>

definition py_keys :: "('s, 'a, 'b, 'c, 'd) lib \<Rightarrow> ('s, 'a, 'b, 'c, 'd) quad_state \<Rightarrow> string list" where
  "py_keys L s = map (\<lambda>(b, n). key n) (quad_iter L (py_quad s))"

definition py_values :: "('s, 'a, 'b, 'c, 'd) lib \<Rightarrow> value_texts \<Rightarrow> ('s, 'a, 'b, 'c, 'd) quad_state \<Rightarrow> py_belief_node list" where
  "py_values L T s = map (\<lambda>(b, n). node_to_py T n) (quad_iter L (py_quad s))"

definition py_items ::
  "('s, 'a, 'b, 'c, 'd) lib \<Rightarrow> value_texts \<Rightarrow> ('s, 'a, 'b, 'c, 'd) quad_state \<Rightarrow> (string \<times> py_belief_node) list" where
  "py_items L T s = map (\<lambda>(b, n). (key n, node_to_py T n)) (quad_iter L (py_quad s))"

definition py_len :: "('s, 'a, 'b, 'c, 'd) lib \<Rightarrow> ('s, 'a, 'b, 'c, 'd) quad_state \<Rightarrow> nat" where
  "py_len L s = quad_len L (py_quad s)"

definition py_contains :: "('s, 'a, 'b, 'c, 'd) quad_state \<Rightarrow> string \<Rightarrow> bool" where
  "py_contains s k \<longleftrightarrow> key_to_id s k \<noteq> None"

definition py_bool :: "('s, 'a, 'b, 'c, 'd) lib \<Rightarrow> ('s, 'a, 'b, 'c, 'd) quad_state \<Rightarrow> bool" where
  "py_bool L s \<longleftrightarrow> \<not> quad_is_empty L (py_quad s)"

definition py_repr :: "('s, 'a, 'b, 'c, 'd) lib \<Rightarrow> ('s, 'a, 'b, 'c, 'd) quad_state \<Rightarrow> string" where
  "py_repr L s =
     ''BeliefQuad(beliefs='' @ nat_text (quad_len L (py_quad s)) @ '', checkpoints='' @
     nat_text (checkpoint_count (py_quad s)) @ '', version='' @ nat_text (unat (version (py_quad s))) @ '')''"

definition py_getitem ::
  "('s, 'a, 'b, 'c, 'd) lib \<Rightarrow> value_texts \<Rightarrow> ('s, 'a, 'b, 'c, 'd) quad_state \<Rightarrow> string \<Rightarrow> py_exception + py_belief_node" where
  "py_getitem L T s k = (case py_get L T s k of None \<Rightarrow> Inl (PyKeyError (KeyNotFound k)) | Some n \<Rightarrow> Inr n)"

definition py_setitem ::
  "('s, 'a, 'b, 'c, 'd) lib \<Rightarrow> uuid \<Rightarrow> u64 \<Rightarrow> string \<Rightarrow> string \<Rightarrow> ('s, 'a, 'b, 'c, 'd) quad_state \<Rightarrow>
     ('s, 'a, 'b, 'c, 'd) quad_state" where
  "py_setitem L u now k v s = py_insert L u now k v (Fin 1) (None, None, None) s"

definition py_delitem ::
  "('s, 'a, 'b, 'c, 'd) lib \<Rightarrow> string \<Rightarrow> ('s, 'a, 'b, 'c, 'd) quad_state \<Rightarrow>
     (py_exception + unit) \<times> ('s, 'a, 'b, 'c, 'd) quad_state" where
  "py_delitem L k s =
     (case py_remove L k s of (ok, s') \<Rightarrow> (if ok then Inr () else Inl (PyKeyError (KeyNotFound k)), s'))"

section \<open>Contracts\<close>

definition py_contract_new :: "string \<Rightarrow> f64 \<Rightarrow> f64 \<Rightarrow> 'q behavioral_contract" where
  "py_contract_new name a g =
     \<lparr> domain = name, preconditions = [], invariants = [], governance = governance_default,
       recovery = RollbackToLastCheckpoint, probability = f_lit F64 (99 / 100), max_violations = 1, window = 100,
       drift_rate = a, enforcement_rate = g \<rparr>"

definition add_precondition ::
  "('s, 'a, 'b, 'c, 'd) lib \<Rightarrow> string \<Rightarrow> f32 \<Rightarrow> ('s, 'a, 'b, 'c, 'd, 'z) quad_scheme behavioral_contract \<Rightarrow>
     ('s, 'a, 'b, 'c, 'd, 'z) quad_scheme behavioral_contract" where
  "add_precondition L k m c = c\<lparr>preconditions := preconditions c @ [min_confidence L k m]\<rparr>"

definition add_presence_precondition ::
  "('s, 'a, 'b, 'c, 'd) lib \<Rightarrow> string \<Rightarrow> ('s, 'a, 'b, 'c, 'd, 'z) quad_scheme behavioral_contract \<Rightarrow>
     ('s, 'a, 'b, 'c, 'd, 'z) quad_scheme behavioral_contract" where
  "add_presence_precondition L k c = c\<lparr>preconditions := preconditions c @ [belief_exists L k]\<rparr>"

definition py_severity :: "string \<Rightarrow> violation_class option" where
  "py_severity t =
     (if t = ''soft'' then Some Soft else if t = ''hard'' then Some Hard
      else if t = ''critical'' then Some Critical else None)"

definition add_invariant ::
  "('s, 'a, 'b, 'c, 'd) lib \<Rightarrow> string \<Rightarrow> f32 \<Rightarrow> string \<Rightarrow> ('s, 'a, 'b, 'c, 'd, 'z) quad_scheme behavioral_contract \<Rightarrow>
     (py_exception + unit) \<times> ('s, 'a, 'b, 'c, 'd, 'z) quad_scheme behavioral_contract" where
  "add_invariant L k m t c =
     (case py_severity t of
        None \<Rightarrow> (Inl (PyValueError (UnknownSeverity t)), c)
      | Some cl \<Rightarrow>
          (Inr (), c\<lparr>invariants := invariants c @
             [\<lparr> predicate = min_confidence L k m, class_of = cl, max_intervention_gap_steps = 5 \<rparr>]\<rparr>))"

definition set_max_tokens :: "u64 \<Rightarrow> 'q behavioral_contract \<Rightarrow> 'q behavioral_contract" where
  "set_max_tokens n c = c\<lparr>governance := governance c\<lparr>max_tokens_per_session := Some n\<rparr>\<rparr>"

definition check_preconditions_raising ::
  "('s, 'a, 'b, 'c, 'd) session_quad behavioral_contract \<Rightarrow> ('s, 'a, 'b, 'c, 'd) quad_state \<Rightarrow> py_exception + unit" where
  "check_preconditions_raising c s =
     (if check_preconditions c (py_quad s) then Inr () else Inl (ContractViolationError (PreconditionText (domain c))))"

definition check_invariants_raising ::
  "(nat \<Rightarrow> uuid) \<Rightarrow> ('s, 'a, 'b, 'c, 'd) session_quad behavioral_contract \<Rightarrow> ('s, 'a, 'b, 'c, 'd) quad_state \<Rightarrow>
     py_exception + unit" where
  "check_invariants_raising ids c s =
     (case check_invariants ids c (py_quad s) None of
        None \<Rightarrow> Inr ()
      | Some v \<Rightarrow> Inl (ContractViolationError (InvariantText (domain c) (invariant_description v) (violated_class v))))"

definition py_check_invariants ::
  "(nat \<Rightarrow> uuid) \<Rightarrow> ('s, 'a, 'b, 'c, 'd) session_quad behavioral_contract \<Rightarrow> ('s, 'a, 'b, 'c, 'd) quad_state \<Rightarrow> bool" where
  "py_check_invariants ids c s \<longleftrightarrow> check_invariants ids c (py_quad s) None = None"

definition py_drift_bound :: "'q behavioral_contract \<Rightarrow> f64" where
  "py_drift_bound c = expected_drift (contract_drift_bound c)"

section \<open>Reachable states\<close>

inductive py_step ::
  "('s, 'a, 'b, 'c, 'd) lib \<Rightarrow> (string set \<Rightarrow> string list) \<Rightarrow> (uuid \<Rightarrow> string) \<Rightarrow> (string \<Rightarrow> uuid option) \<Rightarrow>
     ('s, 'a, 'b, 'c, 'd) quad_state \<Rightarrow> ('s, 'a, 'b, 'c, 'd) quad_state \<Rightarrow> bool" for L kord show_uuid parse_uuid where
  insert: "py_step L kord show_uuid parse_uuid s (py_insert L u now k v c src s)"
| remove: "py_step L kord show_uuid parse_uuid s (snd (py_remove L k s))"
| revise: "py_step L kord show_uuid parse_uuid s (snd (py_revise L u ru now k v c src s))"
| checkpoint: "py_step L kord show_uuid parse_uuid s (snd (py_checkpoint show_uuid u now s))"
| rollback: "py_step L kord show_uuid parse_uuid s (snd (py_rollback_to L kord parse_uuid t s))"
| semantic: "py_step L kord show_uuid parse_uuid s (snd (py_add_semantic_edge L k l t s))"
| causal: "py_step L kord show_uuid parse_uuid s (snd (py_add_causal_edge L k l e c s))"
| temporal: "py_step L kord show_uuid parse_uuid s (snd (py_add_temporal_edge L k l s))"

inductive_cases py_stepE: "py_step L kord show_uuid parse_uuid s s'"

inductive py_reachable ::
  "('s, 'a, 'b, 'c, 'd) lib \<Rightarrow> (string set \<Rightarrow> string list) \<Rightarrow> (uuid \<Rightarrow> string) \<Rightarrow> (string \<Rightarrow> uuid option) \<Rightarrow>
     ('s, 'a, 'b, 'c, 'd) quad_state \<Rightarrow> bool" for L kord show_uuid parse_uuid where
  start: "py_reachable L kord show_uuid parse_uuid (quad_state_new L)"
| step: "py_reachable L kord show_uuid parse_uuid s \<Longrightarrow> py_step L kord show_uuid parse_uuid s s' \<Longrightarrow>
    py_reachable L kord show_uuid parse_uuid s'"

text \<open>A quad without an embedding provider and without inferences.\<close>

definition plain :: "('s, 'a, 'b, 'c, 'd) lib \<Rightarrow> ('s, 'a, 'b, 'c, 'd, 'z) quad_scheme \<Rightarrow> bool" where
  "plain L q \<longleftrightarrow> embedding_provider q = None \<and> (\<forall>a b ps. (a, b, InferredFrom ps) \<notin> set (cau_edges L q))"

definition index_exact ::
  "('s, 'a, 'b, 'c, 'd) lib \<Rightarrow> ('s, 'a, 'b, 'c, 'd, 'z) quad_scheme \<Rightarrow> (string \<rightharpoonup> belief_id) \<Rightarrow> bool" where
  "index_exact L q ids \<longleftrightarrow> (\<forall>k b. ids k = Some b \<longrightarrow> (\<exists>n. quad_get L q b = Some n \<and> key n = k))"

definition py_inv ::
  "('s, 'a, 'b, 'c, 'd) lib \<Rightarrow> (string set \<Rightarrow> string list) \<Rightarrow> ('s, 'a, 'b, 'c, 'd) quad_state \<Rightarrow> bool" where
  "py_inv L kord s \<longleftrightarrow> reachable L kord (py_quad s) \<and> plain L (py_quad s) \<and>
     (\<forall>cp \<in> set (checkpoints (py_quad s)). plain L (cp_quad cp)) \<and> index_exact L (py_quad s) (key_to_id s)"

lemma plain_cong: "embedding_provider q = embedding_provider r \<Longrightarrow> causal q = causal r \<Longrightarrow> plain L q = plain L r"
  by (simp add: plain_def)

lemma index_exact_cong: "nodes q = nodes r \<Longrightarrow> index_exact L q ids = index_exact L r ids"
  by (simp add: index_exact_def quad_get_fun)

lemma revise_frame:
  "embedding_provider (snd (revise L u now q b v p c)) = embedding_provider q"
  "causal (snd (revise L u now q b v p c)) = causal q \<or>
   causal (snd (revise L u now q b v p c)) = causal (apply_contraction L q (minimal_contraction_set L q b))"
proof -
  have m: "causal (quad_modify L r b f) = causal r" "embedding_provider (quad_modify L r b f) = embedding_provider r"
    for r :: "('a, 'b, 'c, 'd, 'e, 'f) quad_scheme" and f by (simp_all add: quad_modify_def split: option.split)
  show "embedding_provider (snd (revise L u now q b v p c)) = embedding_provider q"
    using fold_remove_frame [of L _ q]
    by (auto simp: revise_def expand_only_def contract_expand_def apply_contraction_def Let_def m split: prod.split option.split)
  show "causal (snd (revise L u now q b v p c)) = causal q \<or>
    causal (snd (revise L u now q b v p c)) = causal (apply_contraction L q (minimal_contraction_set L q b))"
    by (auto simp: revise_def expand_only_def contract_expand_def Let_def m split: prod.split option.split)
qed

context belief_lib
begin

lemma plain_no_contraction:
  assumes "quad_wf L q" "plain L q"
  shows "minimal_contraction_set L q b = {}" "apply_contraction L q {} = q"
proof -
  have "inferred_from_premises (l_cau L) (causal q) b = []"
    using premises_set [OF assms(1), of _ b] assms(2) by (simp add: plain_def) (metis list.set_intros(1) neq_Nil_conv)
  then show "minimal_contraction_set L q b = {}" by (simp add: minimal_contraction_set_def)
  have "l_ord L {} = []" using ord [of "{}"] by simp
  then show "apply_contraction L q {} = q" by (simp add: apply_contraction_def)
qed

lemma plain_extensional: "plain L q \<Longrightarrow> fst (check_extensionality L q b v con)"
  by (simp add: plain_def check_extensionality_def)

text \<open>Revising a plain quad always succeeds and changes the one belief.\<close>

lemma revise_plain:
  assumes "quad_wf L q" "plain L q" "quad_get L q b = Some n"
  obtains r q' where "revise L u now q b v p c = (Inr r, q')" "contracted r = {}"
    "quad_get L q' = (quad_get L q)(b \<mapsto> n\<lparr>value := v, provenance := p, fast_confidence := clamp01 c,
        slow_confidence := (if check_contradiction L q b v then None else slow_confidence n)\<rparr>)"
proof -
  note no = plain_no_contraction [OF assms(1,2)]
  obtain r q' where r: "revise L u now q b v p c = (Inr r, q')"
  proof (rule revise_cases [OF assms(1), of b u now v p c])
    fix m audit assume "revise L u now q b v p c = expand_only L u now q b v p c audit"
    then show thesis using that expand_only_spec [OF assms(1,3), of u now v p c audit] by metis
  next
    fix m audit assume "revise L u now q b v p c = contract_expand L u now q b v p c audit"
    moreover have "b \<notin> minimal_contraction_set L q b" by (simp add: no)
    ultimately show thesis using that contract_expand_spec [OF assms(1,3), of u now v p c audit] by metis
  qed (use assms in \<open>simp_all add: plain_extensional\<close>)
  have "contracted r = {}"
    "quad_get L q' = ((quad_get L q) |` (- contracted r))(b \<mapsto> n\<lparr>value := v, provenance := p, fast_confidence := clamp01 c,
        slow_confidence := (if check_contradiction L q b v then None else slow_confidence n)\<rparr>)"
    by (rule revise_success_obtain [OF assms(1) r], use assms(3) no in simp)+
  then show thesis using that [OF r] by (simp add: restrict_map_def)
qed

lemma plain_revise:
  assumes "quad_wf L q" "plain L q"
  shows "plain L (snd (revise L u now q b v p c))"
  using revise_frame [of L u now q b v p c] plain_no_contraction [OF assms] assms(2)
    plain_cong [of "snd (revise L u now q b v p c)" q L] by simp

lemma plain_insert: "quad_wf L q \<Longrightarrow> plain L q \<Longrightarrow> plain L (snd (quad_insert L q n))"
  using insert_edges(3) [OF _ prod.collapse [symmetric], of q n]
  by (auto simp: plain_def quad_insert_def split: prod.splits dest!: arg_cong [of _ _ set_mset])

lemma plain_remove: "quad_wf L q \<Longrightarrow> plain L q \<Longrightarrow> plain L (snd (quad_remove L q b))"
  using arg_cong [OF remove_edges(3) [of q b], of set_mset] fold_remove_frame [of L "[b]" q]
  by (auto simp: plain_def)

lemma plain_causes: "quad_wf L q \<Longrightarrow> plain L q \<Longrightarrow> plain L (add_causal_edge L q a b (Causes e c))"
  using arg_cong [OF add_causal_edge_edges [of q a b "Causes e c"], of set_mset]
  by (auto simp: plain_def add_causal_edge_def split: if_splits)

lemma index_exact_insert:
  assumes "quad_wf L q" "index_exact L q ids" "quad_insert L q n = (b, q')"
  shows "index_exact L q' (ids(key n \<mapsto> b))"
  using insert_get [OF assms(1,3)] assms(2) by (auto simp: index_exact_def beliefs_def)

lemma index_exact_remove:
  assumes "quad_wf L q" "index_exact L q ids" "ids k = Some b"
  shows "index_exact L (snd (quad_remove L q b)) (ids(k := None))"
  unfolding index_exact_def
proof (intro allI impI)
  fix l c assume l: "(ids(k := None)) l = Some c"
  then obtain n where n: "quad_get L q c = Some n" "key n = l" "l \<noteq> k"
    using assms(2) by (auto simp: index_exact_def split: if_splits)
  moreover have "c \<noteq> b"
  proof
    assume "c = b"
    then obtain m where "quad_get L q c = Some m" "key m = k" using assms(2,3) by (auto simp: index_exact_def)
    with n show False by simp
  qed
  ultimately show "\<exists>n. quad_get L (snd (quad_remove L q b)) c = Some n \<and> key n = l"
    by (simp add: remove_get [OF assms(1)])
qed

lemma index_exact_rebuild:
  assumes "quad_wf L q"
  shows "index_exact L q (map_of (rev (map (\<lambda>(b, n). (key n, b)) (quad_iter L q))))"
  unfolding index_exact_def using iter_mem [OF assms] by (auto dest!: map_of_SomeD)

lemma py_inv_wf: "py_inv L kord s \<Longrightarrow> quad_wf L (py_quad s)"
  using reachable_session_wf [of kord "py_quad s"] by (simp add: py_inv_def session_wf_def)

lemma py_inv_insert:
  assumes "py_inv L kord s" shows "py_inv L kord (py_insert L u now k v c src s)"
proof -
  let ?n = "belief_node_new now k (Asserted v) (py_parse_provenance u src) c"
  obtain b q where i: "quad_insert L (py_quad s) ?n = (b, q)" by fastforce
  note w = py_inv_wf [OF assms]
  have "index_exact L q ((key_to_id s)(key ?n \<mapsto> b))"
    using assms by (intro index_exact_insert [OF w _ i]) (simp add: py_inv_def)
  then show ?thesis
    using assms i reachable.step [OF _ session_step.insert, of L kord "py_quad s" ?n]
      plain_insert [OF w, of ?n] insert_checkpoints [of L "py_quad s" ?n]
    by (simp add: py_inv_def py_insert_def Let_def)
qed

lemma py_inv_remove:
  assumes "py_inv L kord s" shows "py_inv L kord (snd (py_remove L k s))"
proof (cases "key_to_id s k")
  case (Some b)
  obtain r q where i: "quad_remove L (py_quad s) b = (r, q)" by fastforce
  note w = py_inv_wf [OF assms]
  show ?thesis
    using assms Some i reachable.step [OF _ session_step.remove, of L kord "py_quad s" b]
      plain_remove [OF w, of b] remove_checkpoints [of L "py_quad s" b] index_exact_remove [OF w, of "key_to_id s" k b]
    by (simp add: py_inv_def py_remove_def)
qed (use assms in \<open>simp add: py_remove_def\<close>)

lemma py_inv_frame:
  assumes "py_inv L kord s" "session_step L kord (py_quad s) q" "plain L q" "checkpoints q = checkpoints (py_quad s)"
    "index_exact L q (key_to_id s)"
  shows "py_inv L kord (s\<lparr>py_quad := q\<rparr>)"
  using assms reachable.step by (auto simp: py_inv_def)

lemma py_inv_revise:
  assumes "py_inv L kord s" shows "py_inv L kord (snd (py_revise L u ru now k v c src s))"
proof (cases "key_to_id s k")
  case (Some b)
  note w = py_inv_wf [OF assms]
  obtain n where n: "quad_get L (py_quad s) b = Some n"
    using assms Some unfolding py_inv_def index_exact_def by blast
  have p: "plain L (py_quad s)" using assms by (simp add: py_inv_def)
  have x: "\<exists>m. quad_get L (py_quad s) c = Some m \<and> key m = l" if "key_to_id s l = Some c" for l c
    using assms that by (simp add: py_inv_def index_exact_def)
  have k: "key n = l" if "key_to_id s l = Some b" for l using x [OF that] n by simp
  let ?r = "revise L ru now (py_quad s) b (Asserted v) (py_parse_provenance u src) c"
  have "index_exact L (snd ?r) (key_to_id s)"
    by (rule revise_plain [OF w p n, of ru now "Asserted v" "py_parse_provenance u src" c])
      (use x k in \<open>auto simp: index_exact_def\<close>)
  then have "py_inv L kord (s\<lparr>py_quad := snd ?r\<rparr>)"
    by (rule py_inv_frame [OF assms session_step.revise plain_revise [OF w p] revise_checkpoints])
  then show ?thesis using Some by (cases ?r) (simp add: py_revise_def)
qed (use assms in \<open>simp add: py_revise_def\<close>)

lemma py_inv_checkpoint:
  assumes "py_inv L kord s" shows "py_inv L kord (snd (py_checkpoint show_uuid u now s))"
proof -
  let ?q = "snd (take_checkpoint u now (py_quad s))"
  have f: "embedding_provider ?q = embedding_provider (py_quad s)" "causal ?q = causal (py_quad s)" "nodes ?q = nodes (py_quad s)"
    by (simp_all add: take_checkpoint_def Let_def)
  have t: "plain L (quad.truncate (py_quad s)) = plain L (py_quad s)"
    by (rule plain_cong) (simp_all add: quad.truncate_def)
  have "reachable L kord ?q" using assms reachable.step [OF _ session_step.checkpoint, of L kord "py_quad s"] by (simp add: py_inv_def)
  then show ?thesis
    using assms plain_cong [OF f(1,2), of L] index_exact_cong [OF f(3), of L] t
    by (auto simp: py_inv_def py_checkpoint_def take_checkpoint_def Let_def capture_def)
qed

lemma py_inv_rollback:
  assumes "py_inv L kord s" shows "py_inv L kord (snd (py_rollback_to L kord parse_uuid t s))"
proof (cases "parse_checkpoint_id parse_uuid t")
  case (Inr u)
  have r: "reachable L kord (snd (rollback_to L kord (py_quad s) u))"
    using assms reachable.step [OF _ session_step.rollback, of L kord "py_quad s"] by (simp add: py_inv_def)
  show ?thesis
  proof (cases "List.find (\<lambda>c. cp_id c = u) (checkpoints (py_quad s))")
    case None
    then show ?thesis using Inr assms by (simp add: py_rollback_to_def rollback_to_def)
  next
    case (Some cp)
    then have cp: "cp \<in> set (checkpoints (py_quad s))" by (simp add: find_Some_set)
    let ?q = "with_checkpoints (cp_quad cp) []"
    show ?thesis
    proof (cases "has_contradictions (quad_diff L kord (py_quad s) (cp_quad cp))")
      case True
      have "embedding_provider ?q = embedding_provider (cp_quad cp)"
        by (simp add: with_checkpoints_def quad.extend_def)
      then have "plain L ?q" using plain_cong [of ?q "cp_quad cp" L] assms cp by (simp add: py_inv_def)
      moreover have "reachable L kord ?q" using r Some True by (simp add: rollback_to_def Let_def)
      moreover from this have "quad_wf L ?q" using reachable_session_wf by (auto simp: session_wf_def)
      ultimately show ?thesis using Inr Some True index_exact_rebuild
        by (simp add: py_rollback_to_def rollback_to_def rebuild_index_def Let_def py_inv_def)
    next
      case False
      then show ?thesis using Inr Some assms by (simp add: py_rollback_to_def rollback_to_def Let_def)
    qed
  qed
qed (use assms in \<open>simp add: py_rollback_to_def\<close>)

lemma py_inv_edges:
  assumes "py_inv L kord s"
  shows "py_inv L kord (snd (py_add_semantic_edge L k l t s))" "py_inv L kord (snd (py_add_causal_edge L k l e c s))"
    "py_inv L kord (snd (py_add_temporal_edge L k l s))"
proof -
  note w = py_inv_wf [OF assms]
  have p: "plain L (py_quad s)" "index_exact L (py_quad s) (key_to_id s)" using assms by (simp_all add: py_inv_def)
  have "py_inv L kord (s\<lparr>py_quad := add_semantic_edge L (py_quad s) a b x\<rparr>)" for a b x
    by (rule py_inv_frame [OF assms session_step.semantic])
      (use p in \<open>simp_all add: add_semantic_edge_def plain_def index_exact_def frame_get\<close>)
  then show "py_inv L kord (snd (py_add_semantic_edge L k l t s))"
    using assms by (simp add: py_add_semantic_edge_def split: option.split sum.split)
  have "py_inv L kord (s\<lparr>py_quad := add_causal_edge L (py_quad s) a b (Causes e c)\<rparr>)" for a b
    by (rule py_inv_frame [OF assms session_step.causal plain_causes [OF w p(1)]])
      (use p in \<open>simp_all add: add_causal_edge_def index_exact_def frame_get\<close>)
  then show "py_inv L kord (snd (py_add_causal_edge L k l e c s))"
    using assms by (simp add: py_add_causal_edge_def split: option.split sum.split)
  have "py_inv L kord (s\<lparr>py_quad := add_temporal_edge L (py_quad s) a b (Precedes 0)\<rparr>)" for a b
    by (rule py_inv_frame [OF assms session_step.temporal])
      (use p in \<open>simp_all add: add_temporal_edge_def plain_def index_exact_def frame_get\<close>)
  then show "py_inv L kord (snd (py_add_temporal_edge L k l s))"
    using assms by (simp add: py_add_temporal_edge_def split: option.split sum.split)
qed

lemma py_reachable_inv: "py_reachable L kord show_uuid parse_uuid s \<Longrightarrow> py_inv L kord s"
proof (induction rule: py_reachable.induct)
  case start
  have "cau_edges L (session_new L) = []" using cau.proj_new_wf by (simp add: session_new_def quad_new_def graph_ops_defs)
  moreover have "embedding_provider (session_new L) = None" "checkpoints (session_new L) = []"
    by (simp_all add: session_new_def with_checkpoints_def quad.extend_def quad_new_def)
  ultimately show ?case by (simp add: py_inv_def quad_state_new_def reachable.start plain_def index_exact_def)
next
  case (step s s')
  from step(2) show ?case
    by (cases rule: py_step.cases)
      (simp_all add: step.IH py_inv_insert py_inv_remove py_inv_revise py_inv_checkpoint py_inv_rollback py_inv_edges)
qed

end

section \<open>Properties\<close>

text \<open>
  C39. In every state the class \<open>BeliefQuad\<close> can reach, an indexed key names a live belief with that key,
  and \<open>revise\<close> on it always succeeds and changes no other belief: Python can make no inference edges, so
  the documented contraction never happens. On a key that is not indexed \<open>revise\<close> raises and changes
  nothing.
\<close>

theorem python_revise:
  assumes "belief_lib L" "py_reachable L kord show_uuid parse_uuid s"
  shows "quad_wf L (py_quad s) \<and>
    (case key_to_id s k of
       None \<Rightarrow> py_revise L u ru now k v c src s = (Inl (BeliefRevisionError (KeyNotFound k)), s) \<and> py_get L T s k = None
     | Some b \<Rightarrow>
         \<exists>n q. quad_get L (py_quad s) b = Some n \<and> key n = k \<and> py_get L T s k = Some (node_to_py T n) \<and>
           py_revise L u ru now k v c src s = (Inr (), s\<lparr>py_quad := q\<rparr>) \<and>
           quad_get L q = (quad_get L (py_quad s))(b \<mapsto>
             n\<lparr>value := Asserted v, provenance := py_parse_provenance u src, fast_confidence := clamp01 c,
               slow_confidence := (if check_contradiction L (py_quad s) b (Asserted v) then None else slow_confidence n)\<rparr>))"
proof -
  have i: "py_inv L kord s" by (rule belief_lib.py_reachable_inv [OF assms])
  note w = belief_lib.py_inv_wf [OF assms(1) i]
  have p: "plain L (py_quad s)" using i by (simp add: py_inv_def)
  show ?thesis
  proof (cases "key_to_id s k")
    case None
    then show ?thesis using w by (simp add: py_revise_def py_get_def)
  next
    case (Some b)
    then obtain n where n: "quad_get L (py_quad s) b = Some n" "key n = k"
      using i unfolding py_inv_def index_exact_def by blast
    show ?thesis
    proof (rule belief_lib.revise_plain [OF assms(1) w p n(1), of ru now "Asserted v" "py_parse_provenance u src" c])
      fix r q
      assume "revise L ru now (py_quad s) b (Asserted v) (py_parse_provenance u src) c = (Inr r, q)"
        "quad_get L q = (quad_get L (py_quad s))(b \<mapsto>
             n\<lparr>value := Asserted v, provenance := py_parse_provenance u src, fast_confidence := clamp01 c,
               slow_confidence := (if check_contradiction L (py_quad s) b (Asserted v) then None else slow_confidence n)\<rparr>)"
      then show ?thesis using w Some n
        by (auto simp: py_revise_def py_get_def intro!: exI [of _ q])
    qed
  qed
qed

text \<open>
  Assigning to a key twice does not replace the first belief: both stay, deleting the key removes the
  second, and the key is then listed but neither contained nor found.
\<close>

theorem python_assign_twice:
  assumes "belief_lib L" "py_reachable L kord show_uuid parse_uuid s"
    and "py_delitem L k (py_setitem L u' now' k v' (py_setitem L u now k v s)) = (r, s')"
  shows "r = Inr () \<and> \<not> py_contains s' k \<and> py_get L T s' k = None \<and> k \<in> set (py_keys L s') \<and> py_len L s' = Suc (py_len L s)"
proof -
  let ?n = "\<lambda>u now v. belief_node_new now k (Asserted v) (py_parse_provenance u (None, None, None)) (Fin 1)"
  obtain a q where a: "quad_insert L (py_quad s) (?n u now v) = (a, q)" by fastforce
  obtain b q' where b: "quad_insert L q (?n u' now' v') = (b, q')" by fastforce
  have w: "quad_wf L (py_quad s)"
    by (rule belief_lib.py_inv_wf [OF assms(1) belief_lib.py_reachable_inv [OF assms(1,2)]])
  note w1 = belief_lib.insert_wf [OF assms(1) w a]
  note w2 = belief_lib.insert_wf [OF assms(1) w1 b]
  note g1 = belief_lib.insert_get [OF assms(1) w a]
  note g2 = belief_lib.insert_get [OF assms(1) w1 b]
  define q'' where "q'' = snd (quad_remove L q' b)"
  have w3: "quad_wf L q''" unfolding q''_def by (rule belief_lib.remove_wf [OF assms(1) w2])
  have g3: "quad_get L q'' = (quad_get L q')(b := None)"
    unfolding q''_def by (rule belief_lib.remove_get [OF assms(1) w2])
  have ab: "a \<noteq> b" using g1(4) g2(1) by auto
  obtain m where m: "fst (quad_remove L q' b) = Some m"
    using belief_lib.remove_present [OF assms(1) w2, of b] g2(4) by (metis fst_conv insertI1)
  have s': "r = Inr ()" "s' = \<lparr>py_quad = q'', key_to_id = (key_to_id s)(k := None)\<rparr>"
    using assms(3) a b m
    by (auto simp: py_delitem_def py_setitem_def py_insert_def py_remove_def q''_def Let_def split: prod.splits)
  have "quad_get L q'' a = Some ((?n u now v)\<lparr>id := a\<rparr>)" using ab by (simp add: g3 g2(3) g1(3))
  then have "(a, (?n u now v)\<lparr>id := a\<rparr>) \<in> set (quad_iter L q'')" using belief_lib.iter_mem [OF assms(1) w3] by simp
  then have "k \<in> set (py_keys L s')" by (force simp: py_keys_def s' image_iff)
  moreover have "beliefs L q'' = insert a (beliefs L (py_quad s))"
    using ab g2(1) g1(4) g2(4) belief_lib.remove_beliefs [OF assms(1) w2, of b] by (auto simp: q''_def)
  then have "py_len L s' = Suc (py_len L s)"
    using g1(1) belief_lib.finite_beliefs [OF assms(1) w] belief_lib.len_card [OF assms(1) w3]
      belief_lib.len_card [OF assms(1) w] by (simp add: py_len_def s')
  ultimately show ?thesis by (simp add: s' py_contains_def py_get_def)
qed

section \<open>A session\<close>

abbreviation "demo_texts \<equiv> \<lparr>json_text = (\<lambda>j. ''json''), id_text = (\<lambda>b. ''id'')\<rparr>"
abbreviation "demo_py \<equiv> py_setitem ref_lib 1 0 ''intent'' ''staging'' (quad_state_new ref_lib)"

lemma demo_py_reachable: "py_reachable ref_lib sorted_list_of_set canonical_show canonical_parse demo_py"
  unfolding py_setitem_def by (rule py_reachable.step [OF py_reachable.start py_step.insert])

theorem python_revise_witness:
  "\<exists>q. py_revise ref_lib 2 3 0 ''intent'' ''production'' (Fin (1 / 2)) (None, None, None) demo_py =
     (Inr (), demo_py\<lparr>py_quad := q\<rparr>)"
proof -
  have "key_to_id demo_py ''intent'' \<noteq> None" by (simp add: py_setitem_def py_insert_def Let_def split: prod.split)
  then obtain b where b: "key_to_id demo_py ''intent'' = Some b" by auto
  show ?thesis
    using python_revise [OF ref_belief_lib demo_py_reachable,
        where k = "''intent''" and u = 2 and ru = 3 and now = 0 and v = "''production''" and c = "Fin (1 / 2)"
          and src = "(None, None, None)" and T = demo_texts]
    unfolding b option.case by blast
qed

theorem python_assign_twice_witness:
  "\<exists>s. py_delitem ref_lib ''intent'' (py_setitem ref_lib 2 0 ''intent'' ''production'' demo_py) = (Inr (), s) \<and>
     ''intent'' \<in> set (py_keys ref_lib s) \<and> \<not> py_contains s ''intent''"
proof -
  obtain r s where d: "py_delitem ref_lib ''intent'' (py_setitem ref_lib 2 0 ''intent'' ''production'' demo_py) = (r, s)"
    by fastforce
  show ?thesis
    using python_assign_twice [OF ref_belief_lib
        py_reachable.start [of ref_lib sorted_list_of_set canonical_show canonical_parse] d, of demo_texts] d
    by (intro exI [of _ s]) simp
qed

end
