(* ===== verification/Python_Runtime.thy ===== *)
theory Python_Runtime
  imports Python_Quad Runtime_Ungoverned
begin

text \<open>
  The Python class \<open>BeliefRuntime\<close> (\<open>epica-python/src/runtime.rs\<close>) over the runtime, with the session
  report (\<open>session.rs\<close>) and the mock client (\<open>llm_client.rs\<close>). Every method locks the one mutex for its
  whole run, so a state is a runtime.
\<close>

section \<open>Errors and reports\<close>

definition map_runtime_err :: "runtime_error \<Rightarrow> py_exception" where
  "map_runtime_err e =
     (case e of
        RuntimeContractViolation s \<Rightarrow> ContractViolationError (RuntimeText e)
      | PreconditionFailed d s \<Rightarrow> ContractViolationError (RuntimeText e)
      | ContractHalt d i n \<Rightarrow> ContractViolationError (RuntimeText e)
      | RuntimeSovereignty s \<Rightarrow> SovereigntyError (RuntimeText e)
      | GovernanceLimitExceeded w m n \<Rightarrow> ContractViolationError (RuntimeText e)
      | _ \<Rightarrow> EpicaError (RuntimeText e))"

record py_session_report =
  py_tece :: "f32 option"
  py_total_revisions :: nat
  py_contradictions_detected :: nat
  py_system2_activations :: u64
  py_system2_throttled :: u64
  py_calibration_target_met :: bool
  py_soft_violations :: nat
  py_hard_violations :: nat
  py_critical_violations :: nat
  py_recovery_actions_taken :: nat
  py_governance_tokens_used :: u64

definition report_to_py :: "session_report \<Rightarrow> py_session_report" where
  "report_to_py r =
     \<lparr> py_tece = rep_tece r, py_total_revisions = total_revisions r,
       py_contradictions_detected = contradictions_detected r, py_system2_activations = rep_activations r,
       py_system2_throttled = rep_throttled r, py_calibration_target_met = calibration_target_met r,
       py_soft_violations = session_report.soft_violations r, py_hard_violations = session_report.hard_violations r,
       py_critical_violations = session_report.critical_violations r,
       py_recovery_actions_taken = recovery_actions r, py_governance_tokens_used = governance_tokens_used r \<rparr>"

text \<open>The mock answers every reflection alike; its counter is read by nothing but its getter.\<close>

definition mock_reflect :: "f32 \<Rightarrow> string \<Rightarrow> llm" where
  "mock_reflect c r d = Inr \<lparr> revised_confidence = c, reasoning = r \<rparr>"

section \<open>The class\<close>

definition py_runtime_new ::
  "('s, 'a, 'b, 'c, 'd) environment \<Rightarrow> audit_store \<Rightarrow> f32 \<Rightarrow> u32 \<Rightarrow> f32 \<Rightarrow> ('s, 'a, 'b, 'c, 'd) runtime" where
  "py_runtime_new E w threshold budget rate = runtime_new E w (session_new (the_lib E)) threshold budget rate"

definition py_insert_belief ::
  "('s, 'a, 'b, 'c, 'd) environment \<Rightarrow> uuid \<Rightarrow> u64 \<Rightarrow> string \<Rightarrow> string \<Rightarrow> f32 \<Rightarrow> py_source \<Rightarrow>
     ('s, 'a, 'b, 'c, 'd) runtime \<Rightarrow> string \<times> ('s, 'a, 'b, 'c, 'd) runtime" where
  "py_insert_belief E u now k v c src rt =
     (k, snd (insert_belief E (belief_node_new now k (Asserted v) (py_parse_provenance u src) c) rt))"

definition py_get_by_key :: "value_texts \<Rightarrow> ('s, 'a, 'b, 'c, 'd) runtime \<Rightarrow> string \<Rightarrow> string option" where
  "py_get_by_key T rt k = map_option (id_text T) (get_by_key rt k)"

definition py_get_belief ::
  "('s, 'a, 'b, 'c, 'd) environment \<Rightarrow> value_texts \<Rightarrow> ('s, 'a, 'b, 'c, 'd) runtime \<Rightarrow> string \<Rightarrow> py_belief_node option" where
  "py_get_belief E T rt k =
     (case get_by_key rt k of
        None \<Rightarrow> None
      | Some b \<Rightarrow> map_option (node_to_py T) (quad_get (the_lib E) (rt_quad rt) b))"

text \<open>The dictionary of an update: its status, and a task id that is always \<open>None\<close>.\<close>

fun py_update_dict :: "update_result \<Rightarrow> string \<times> string option" where
  "py_update_dict System1Only = (''system1_only'', None)"
| "py_update_dict (System2Activated d r) = (''system2_activated'', None)"
| "py_update_dict (System2Pending d) = (''system2_pending'', None)"
| "py_update_dict System2Throttled = (''system2_throttled'', None)"

definition py_update_belief ::
  "('s, 'a, 'b, 'c, 'd) environment \<Rightarrow> readings \<Rightarrow> uuid \<Rightarrow> string \<Rightarrow> string \<Rightarrow> f32 \<Rightarrow> py_source \<Rightarrow>
     ('s, 'a, 'b, 'c, 'd) runtime \<Rightarrow> (py_exception + string \<times> string option) \<times> ('s, 'a, 'b, 'c, 'd) runtime" where
  "py_update_belief E rd u k v c src rt =
     (case get_by_key rt k of
        None \<Rightarrow> (Inl (PyKeyError (KeyNotFound k)), rt)
      | Some b \<Rightarrow>
          (case update_belief E rd b (Asserted v) (py_parse_provenance u src) c rt of
             (Inl e, rt') \<Rightarrow> (Inl (map_runtime_err e), rt')
           | (Inr r, rt') \<Rightarrow> (Inr (py_update_dict r), rt')))"

definition py_retrieve_for_query ::
  "('s, 'a, 'b, 'c, 'd) environment \<Rightarrow> nat list \<Rightarrow> u64 \<Rightarrow> string \<Rightarrow> nat \<Rightarrow> ('s, 'a, 'b, 'c, 'd) runtime \<Rightarrow>
     (string \<times> f32) list" where
  "py_retrieve_for_query E vs now query budget rt =
     map (\<lambda>s. (snap_key s, snap_fast_confidence s)) (retrieve_for_query E vs now query budget rt)"

definition attach_llm_client :: "llm \<Rightarrow> ('s, 'a, 'b, 'c, 'd) runtime \<Rightarrow> ('s, 'a, 'b, 'c, 'd) runtime" where
  "attach_llm_client h rt = set_llm_client h rt"

definition detach_llm_client :: "('s, 'a, 'b, 'c, 'd) runtime \<Rightarrow> ('s, 'a, 'b, 'c, 'd) runtime" where
  "detach_llm_client rt = clear_llm_client rt"

definition py_runtime_checkpoint ::
  "(uuid \<Rightarrow> string) \<Rightarrow> uuid \<Rightarrow> u64 \<Rightarrow> ('s, 'a, 'b, 'c, 'd) runtime \<Rightarrow> string \<times> ('s, 'a, 'b, 'c, 'd) runtime" where
  "py_runtime_checkpoint show_uuid u now rt =
     (case runtime_checkpoint u now rt of (i, rt') \<Rightarrow> (checkpoint_id_display show_uuid i, rt'))"

definition py_runtime_rollback ::
  "('s, 'a, 'b, 'c, 'd) environment \<Rightarrow> (string \<Rightarrow> uuid option) \<Rightarrow> string \<Rightarrow> ('s, 'a, 'b, 'c, 'd) runtime \<Rightarrow>
     (py_exception + py_belief_diff) \<times> ('s, 'a, 'b, 'c, 'd) runtime" where
  "py_runtime_rollback E parse_uuid t rt =
     (case parse_checkpoint_id parse_uuid t of
        Inl e \<Rightarrow> (Inl e, rt)
      | Inr u \<Rightarrow>
          (case runtime_rollback_to E u rt of
             (Inl e, rt') \<Rightarrow> (Inl (CheckpointError (RollbackText e)), rt')
           | (Inr d, rt') \<Rightarrow> (Inr (diff_to_py d), rt')))"

definition py_finalize_session :: "('s, 'a, 'b, 'c, 'd) runtime \<Rightarrow> py_session_report \<times> ('s, 'a, 'b, 'c, 'd) runtime" where
  "py_finalize_session rt =
     (let rt' = finalize_session rt in (report_to_py (session_report_of rt'), rt'))"

definition py_session_report_of :: "('s, 'a, 'b, 'c, 'd) runtime \<Rightarrow> py_session_report" where
  "py_session_report_of rt = report_to_py (session_report_of rt)"

text \<open>Leaving the \<open>with\<close> block finalizes the session and lets exceptions pass.\<close>

definition py_exit :: "('s, 'a, 'b, 'c, 'd) runtime \<Rightarrow> bool \<times> ('s, 'a, 'b, 'c, 'd) runtime" where
  "py_exit rt = (False, finalize_session rt)"

definition py_runtime_repr :: "('s, 'a, 'b, 'c, 'd) environment \<Rightarrow> ('s, 'a, 'b, 'c, 'd) runtime \<Rightarrow> string" where
  "py_runtime_repr E rt =
     ''BeliefRuntime(beliefs='' @ nat_text (quad_len (the_lib E) (rt_quad rt)) @ '', system2_activations='' @
     nat_text (unat (system2_activations rt)) @ '')''"

section \<open>Reachable states\<close>

inductive py_runtime_step ::
  "('s, 'a, 'b, 'c, 'd) environment \<Rightarrow> (string \<Rightarrow> uuid option) \<Rightarrow> ('s, 'a, 'b, 'c, 'd) runtime \<Rightarrow>
     ('s, 'a, 'b, 'c, 'd) runtime \<Rightarrow> bool" for E parse_uuid where
  insert: "py_runtime_step E parse_uuid rt (snd (py_insert_belief E u now k v c src rt))"
| update: "fair rd \<Longrightarrow> py_runtime_step E parse_uuid rt (snd (py_update_belief E rd u k v c src rt))"
| attach: "py_runtime_step E parse_uuid rt (attach_llm_client h rt)"
| detach: "py_runtime_step E parse_uuid rt (detach_llm_client rt)"
| checkpoint: "py_runtime_step E parse_uuid rt (snd (py_runtime_checkpoint show_uuid u now rt))"
| rollback: "py_runtime_step E parse_uuid rt (snd (py_runtime_rollback E parse_uuid t rt))"
| finalize: "py_runtime_step E parse_uuid rt (snd (py_finalize_session rt))"

inductive py_runtime_reachable ::
  "('s, 'a, 'b, 'c, 'd) environment \<Rightarrow> (string \<Rightarrow> uuid option) \<Rightarrow> f32 \<Rightarrow> ('s, 'a, 'b, 'c, 'd) runtime \<Rightarrow> bool"
  for E parse_uuid threshold where
  start: "py_runtime_reachable E parse_uuid threshold (py_runtime_new E w threshold budget rate)"
| step: "py_runtime_reachable E parse_uuid threshold rt \<Longrightarrow> py_runtime_step E parse_uuid rt rt' \<Longrightarrow>
    py_runtime_reachable E parse_uuid threshold rt'"

text \<open>A quad without inferences, all of whose beliefs have the default threshold.\<close>

definition calm :: "('s, 'a, 'b, 'c, 'd) lib \<Rightarrow> ('s, 'a, 'b, 'c, 'd, 'z) quad_scheme \<Rightarrow> bool" where
  "calm L q \<longleftrightarrow> plain L q \<and> (\<forall>b n. quad_get L q b = Some n \<longrightarrow> reflection_threshold n = DEFAULT_REFLECTION_THRESHOLD)"

definition py_runtime_inv :: "('s, 'a, 'b, 'c, 'd) environment \<Rightarrow> f32 \<Rightarrow> ('s, 'a, 'b, 'c, 'd) runtime \<Rightarrow> bool" where
  "py_runtime_inv E threshold rt \<longleftrightarrow> quad_wf (the_lib E) (rt_quad rt) \<and> calm (the_lib E) (rt_quad rt) \<and>
     (\<forall>cp \<in> set (checkpoints (rt_quad rt)). quad_wf (the_lib E) (cp_quad cp) \<and> calm (the_lib E) (cp_quad cp)) \<and>
     ungoverned rt \<and> reliability_baseline rt = threshold"

lemma calm_cong: "embedding_provider q = embedding_provider r \<Longrightarrow> causal q = causal r \<Longrightarrow> nodes q = nodes r \<Longrightarrow> calm L q = calm L r"
  using plain_cong [of q r L] by (simp add: calm_def quad_get_fun)

lemma truncate_calm: "quad_wf L (quad.truncate q) = quad_wf L q" "calm L (quad.truncate q) = calm L q"
  by (rule quad_wf_cong; simp) (rule calm_cong; simp add: quad.truncate_def)

lemma saved_quad:
  "quad_wf L (snd (take_checkpoint u now q)) = quad_wf L q" "calm L (snd (take_checkpoint u now q)) = calm L q"
  "checkpoints (snd (take_checkpoint u now q)) = checkpoints q @ [capture u now q]"
  "quad_get L (snd (take_checkpoint u now q)) = quad_get L q"
proof -
  show "quad_wf L (snd (take_checkpoint u now q)) = quad_wf L q"
    by (rule quad_wf_cong) (simp_all add: take_checkpoint_def Let_def)
  show "calm L (snd (take_checkpoint u now q)) = calm L q"
    by (rule calm_cong) (simp_all add: take_checkpoint_def Let_def)
qed (simp_all add: take_checkpoint_def Let_def quad_get_fun)

text \<open>System 1 changes nothing where nothing is inferred.\<close>

lemma propagate_nothing:
  "\<forall>b. inferred_from_premises (l_cau L) (causal q) b = [] \<Longrightarrow> propagate_inner L ord now n q V b = Some (q', V') \<Longrightarrow> q' = q"
  "\<forall>b. inferred_from_premises (l_cau L) (causal q) b = [] \<Longrightarrow> propagate_list L ord now n q V bs = Some (q', V') \<Longrightarrow> q' = q"
proof (induction L ord now n q V b and L ord now n q V bs arbitrary: q' V' and q' V'
    rule: propagate_inner_propagate_list.induct)
  case (2 L ord now n q V b)
  then show ?case by (auto simp: system1_update_def Let_def split: if_splits)
next
  case (4 L ord now n q V d ds)
  from 4(4) obtain q1 V1 where 1: "propagate_inner L ord now n q V d = Some (q1, V1)"
    "propagate_list L ord now n q1 V1 ds = Some (q', V')" by (auto split: option.splits)
  from 4(1) [OF 4(3) 1(1)] have "q1 = q" .
  with 4(2) [OF 1(1) refl _ 1(2)] 4(3) show ?case by simp
qed auto

context belief_lib
begin

lemma propagate_plain:
  assumes "quad_wf L q" "plain L q"
  shows "propagate_system1 L ord now q b = None \<or> propagate_system1 L ord now q b = Some q"
proof -
  have "inferred_from_premises (l_cau L) (causal q) b = []" for b
    using premises_set [OF assms(1), of _ b] assms(2) by (simp add: plain_def) (metis list.set_intros(1) neq_Nil_conv)
  then show ?thesis
    using propagate_nothing(1) [of L q ord now "quad_len L q + 2" "{}" b]
    by (cases "propagate_inner L ord now (quad_len L q + 2) q {} b") (auto simp: propagate_system1_def)
qed

lemma calm_insert:
  assumes "quad_wf L q" "calm L q" "reflection_threshold n = DEFAULT_REFLECTION_THRESHOLD"
  shows "calm L (snd (quad_insert L q n))"
  using insert_get(3) [OF assms(1) prod.collapse [symmetric], of n] plain_insert [OF assms(1), of n] assms(2,3)
  by (auto simp: calm_def)

end

section \<open>An update\<close>

lemma revise_phase_calm:
  assumes "belief_lib (the_lib E)" "quad_wf (the_lib E) (rt_quad rt)" "calm (the_lib E) (rt_quad rt)"
  shows "if quad_get (the_lib E) (rt_quad rt) b = None
    then revise_phase E rd b v p c rt = (Inl (Core (RevisionFailed BeliefNotFound)), rt)
    else \<exists>q. revise_phase E rd b v p c rt = (Inr (clamp01 c, False), rt\<lparr>rt_quad := q\<rparr>) \<and> quad_wf (the_lib E) q \<and>
      calm (the_lib E) q \<and> checkpoints q = checkpoints (rt_quad rt) \<and> quad_get (the_lib E) q b \<noteq> None"
proof (cases "quad_get (the_lib E) (rt_quad rt) b")
  case None
  then show ?thesis by (simp add: revise_phase_def revise_def)
next
  case (Some n)
  let ?L = "the_lib E"
  have p: "plain ?L (rt_quad rt)" using assms(3) by (simp add: calm_def)
  obtain r q where r: "revise ?L (rev_uuid rd) (rev_time rd) (rt_quad rt) b v p c = (Inr r, q)" "contracted r = {}"
    "quad_get ?L q = (quad_get ?L (rt_quad rt))(b \<mapsto> n\<lparr>value := v, provenance := p, fast_confidence := clamp01 c,
        slow_confidence := (if check_contradiction ?L (rt_quad rt) b v then None else slow_confidence n)\<rparr>)"
    by (rule belief_lib.revise_plain [OF assms(1,2) p Some])
  have w: "quad_wf ?L q" "plain ?L q" "checkpoints q = checkpoints (rt_quad rt)"
    using belief_lib.revise_wf [OF assms(1,2), of "rev_uuid rd" "rev_time rd" b v p c]
      belief_lib.plain_revise [OF assms(1,2) p, of "rev_uuid rd" "rev_time rd" b v p c]
      revise_checkpoints [of ?L "rev_uuid rd" "rev_time rd" "rt_quad rt" b v p c] r(1) by simp_all
  have "calm ?L q" using w(2) assms(3) Some by (auto simp: calm_def r(3))
  moreover have "(case propagate_system1 ?L (prop_order rd) (prop_clock rd) q b of None \<Rightarrow> q | Some q' \<Rightarrow> q') = q"
    using belief_lib.propagate_plain [OF assms(1) w(1,2), of "prop_order rd" "prop_clock rd" b] by auto
  ultimately show ?thesis using Some w r(2)
    by (auto simp: revise_phase_def r(1) Let_def r(3) intro!: exI [of _ q])
qed

lemma update_calm:
  assumes "belief_lib (the_lib E)" "py_runtime_inv E threshold rt" "update_belief E rd b v p c rt = (r, rt')"
  shows "py_runtime_inv E threshold rt' \<and>
    (if quad_get (the_lib E) (rt_quad rt) b = None then r = Inl (Core (RevisionFailed BeliefNotFound))
     else if llm_client rt \<noteq> None \<and> flt DEFAULT_REFLECTION_THRESHOLD (fabs (fsub F32 (clamp01 c) threshold))
     then \<exists>d. r = Inr (System2Pending d) else r = Inr System1Only)"
proof -
  let ?L = "the_lib E" and ?s = "revised_from rd rt"
  have i: "quad_wf ?L (rt_quad ?s)" "calm ?L (rt_quad ?s)" "quad_get ?L (rt_quad ?s) = quad_get ?L (rt_quad rt)"
    "checkpoints (rt_quad ?s) = checkpoints (rt_quad rt) @ [capture (cp_uuid rd) (cp_time rd) (rt_quad rt)]"
    using assms(2) by (simp_all add: py_runtime_inv_def revised_from_def saved_quad)
  have cps: "\<forall>cp \<in> set (checkpoints (rt_quad ?s)). quad_wf ?L (cp_quad cp) \<and> calm ?L (cp_quad cp)"
    using assms(2) by (auto simp: py_runtime_inv_def i(4) capture_def truncate_calm)
  have g: "ungoverned rt" "reliability_baseline rt = threshold" using assms(2) by (simp_all add: py_runtime_inv_def)
  have base: "reliability_baseline ?s = threshold" "llm_client ?s = llm_client rt" using g(2) by (simp_all add: revised_from_def)
  note ph = revise_phase_calm [OF assms(1) i(1,2), of b rd v p c]
  from g(1) show ?thesis
  proof (cases rule: update_ungoverned_shape [of rt E rd b v p c])
    case (fails e x)
    then have none: "quad_get ?L (rt_quad rt) b = None" using ph by (auto simp: i(3) split: if_splits)
    then have "x = ?s" "e = BeliefNotFound" using ph fails(1) by (simp_all add: i(3))
    then show ?thesis using fails(2,3) assms(3) none i cps base by (auto simp: py_runtime_inv_def)
  next
    case (finished fast con x g y z)
    then have some: "quad_get ?L (rt_quad rt) b \<noteq> None" using ph by (auto simp: i(3) split: if_splits)
    then obtain q where q: "x = ?s\<lparr>rt_quad := q\<rparr>" "fast = clamp01 c" "con = False" "quad_wf ?L q" "calm ?L q"
      "checkpoints q = checkpoints (rt_quad ?s)" "quad_get ?L q b \<noteq> None"
      using ph finished(1) by (auto simp: i(3))
    have tau: "(case quad_get ?L q b of None \<Rightarrow> d | Some n \<Rightarrow> reflection_threshold n) = DEFAULT_REFLECTION_THRESHOLD" for d
      using q(5,7) by (auto simp: calm_def)
    note fin = finished(4) [unfolded finish_phase_def Let_def q(1-3)]
    have "rt_quad z = q" "reliability_baseline z = threshold"
      using fin base by (auto split: if_splits)
    then have "py_runtime_inv E threshold z" using q cps finished(6) by (simp add: py_runtime_inv_def)
    moreover have "if llm_client rt \<noteq> None \<and> flt DEFAULT_REFLECTION_THRESHOLD (fabs (fsub F32 (clamp01 c) threshold))
       then \<exists>d. y = System2Pending d else y = System1Only"
      using fin base by (auto simp: tau should_activate_system2_def split: if_splits option.splits)
    ultimately show ?thesis using assms(3) finished(5) some by auto
  qed
qed


section \<open>Properties\<close>

lemma py_insert_inv:
  assumes "belief_lib (the_lib E)" "py_runtime_inv E threshold rt"
  shows "py_runtime_inv E threshold (snd (py_insert_belief E u now k v c src rt))"
proof -
  let ?n = "belief_node_new now k (Asserted v) (py_parse_provenance u src) c"
  obtain b q where i: "quad_insert (the_lib E) (rt_quad rt) ?n = (b, q)" by fastforce
  have n: "\<not> prospect ?n" "reflection_threshold ?n = DEFAULT_REFLECTION_THRESHOLD" by (simp_all add: belief_node_new_def)
  let ?m = "rt\<lparr>rt_quad := q, key_index := (key_index rt)(k \<mapsto> b)\<rparr>"
  have r: "snd (py_insert_belief E u now k v c src rt) = observe_active_inference E b ?m"
    using n(1) by (simp add: py_insert_belief_def insert_belief_def i Let_def)
  have o: "reliability_baseline (observe_active_inference E b x) = reliability_baseline x"
    "ungoverned (observe_active_inference E b x) = ungoverned x" for x
    by (simp_all add: observe_active_inference_def ungoverned_frame split: option.split)
  have "quad_wf (the_lib E) q" "calm (the_lib E) q" "checkpoints q = checkpoints (rt_quad rt)"
    using assms belief_lib.insert_wf [OF assms(1) _ i] belief_lib.calm_insert [OF assms(1) _ _ n(2), of "rt_quad rt"]
      insert_checkpoints [of "the_lib E" "rt_quad rt" ?n] by (simp_all add: py_runtime_inv_def i)
  then show ?thesis using assms(2) by (simp add: r o py_runtime_inv_def ungoverned_frame)
qed

lemma py_update_inv:
  assumes "belief_lib (the_lib E)" "py_runtime_inv E threshold rt"
  shows "py_runtime_inv E threshold (snd (py_update_belief E rd u k v c src rt))"
proof (cases "get_by_key rt k")
  case (Some b)
  obtain r rt' where r: "update_belief E rd b (Asserted v) (py_parse_provenance u src) c rt = (r, rt')" by fastforce
  then show ?thesis using update_calm [OF assms r] Some by (simp add: py_update_belief_def split: sum.split)
qed (use assms in \<open>simp add: py_update_belief_def\<close>)

lemma py_runtime_reachable_inv:
  assumes "belief_lib (the_lib E)" "py_runtime_reachable E parse_uuid threshold rt"
  shows "py_runtime_inv E threshold rt"
  using assms(2)
proof (induction rule: py_runtime_reachable.induct)
  case (start w budget rate)
  note i = belief_lib.py_reachable_inv [OF assms(1) py_reachable.start, of "key_order E"]
  have "quad_wf (the_lib E) (session_new (the_lib E))" "plain (the_lib E) (session_new (the_lib E))"
    using belief_lib.py_inv_wf [OF assms(1) i] i by (simp_all add: py_inv_def quad_state_new_def)
  moreover have "quad_get (the_lib E) (session_new (the_lib E)) b = None" for b
    using slot_map.new_get [of "l_nodes (the_lib E)"] assms(1)
    by (simp add: belief_lib_def session_new_def quad_new_def quad_get_fun)
  ultimately show ?case
    by (simp add: py_runtime_inv_def py_runtime_new_def runtime_new_def ungoverned_def contract_engine_new_def calm_def
        session_new_def)
next
  case (step rt rt')
  note w = step.IH [unfolded py_runtime_inv_def]
  from step(2) show ?case
  proof (cases rule: py_runtime_step.cases)
    case (insert u now k v c src)
    then show ?thesis using py_insert_inv [OF assms(1) step.IH] by simp
  next
    case (update rd u k v c src)
    then show ?thesis using py_update_inv [OF assms(1) step.IH] by simp
  next
    case (attach h)
    then show ?thesis using w by (simp add: attach_llm_client_def set_llm_client_def py_runtime_inv_def ungoverned_frame)
  next
    case detach
    then show ?thesis using w by (simp add: detach_llm_client_def clear_llm_client_def py_runtime_inv_def ungoverned_frame)
  next
    case (checkpoint show_uuid u now)
    then have "rt' = rt\<lparr>rt_quad := snd (take_checkpoint u now (rt_quad rt))\<rparr>"
      by (simp add: py_runtime_checkpoint_def runtime_checkpoint_def split: prod.split)
    then show ?thesis using w by (auto simp: py_runtime_inv_def saved_quad capture_def truncate_calm ungoverned_frame)
  next
    case (rollback t)
    have "py_runtime_inv E threshold (snd (runtime_rollback_to E u rt))" for u
    proof (cases "List.find (\<lambda>c. cp_id c = u) (checkpoints (rt_quad rt))")
      case None
      then show ?thesis using step.IH by (simp add: runtime_rollback_to_def rollback_to_def)
    next
      case (Some cp)
      then have cp: "cp \<in> set (checkpoints (rt_quad rt))" by (simp add: find_Some_set)
      have "quad_wf (the_lib E) (with_checkpoints (cp_quad cp) []) = quad_wf (the_lib E) (cp_quad cp)"
        by (rule quad_wf_cong) simp_all
      moreover have "calm (the_lib E) (with_checkpoints (cp_quad cp) []) = calm (the_lib E) (cp_quad cp)"
        by (rule calm_cong) (simp_all add: with_checkpoints_def quad.extend_def)
      ultimately show ?thesis using w cp Some
        by (simp add: runtime_rollback_to_def rollback_to_def Let_def py_runtime_inv_def ungoverned_frame)
    qed
    then show ?thesis using rollback step.IH
      by (simp add: py_runtime_rollback_def split: sum.split prod.split) (metis snd_conv)
  next
    case finalize
    then show ?thesis using w
      by (simp add: py_finalize_session_def finalize_session_def Let_def py_runtime_inv_def ungoverned_frame)
  qed
qed

text \<open>
  C40. The outcome of every update of a Python runtime. A key that is not indexed raises \<open>KeyError\<close>, an
  indexed belief that a rollback removed raises \<open>EpicaError\<close>, and nothing else raises: no contract can be
  attached. Otherwise System 2 is asked for exactly when a client is attached and the clamped confidence
  is further than the default threshold from the argument called \<open>reflection_threshold\<close>, which is
  used as the reliability baseline.
\<close>

theorem python_update:
  assumes "belief_lib (the_lib E)" "py_runtime_reachable E parse_uuid threshold rt"
  shows "fst (py_update_belief E rd u k v c src rt) =
    (case get_by_key rt k of
       None \<Rightarrow> Inl (PyKeyError (KeyNotFound k))
     | Some b \<Rightarrow>
         if quad_get (the_lib E) (rt_quad rt) b = None
         then Inl (EpicaError (RuntimeText (Core (RevisionFailed BeliefNotFound))))
         else if llm_client rt \<noteq> None \<and> flt DEFAULT_REFLECTION_THRESHOLD (fabs (fsub F32 (clamp01 c) threshold))
         then Inr (''system2_pending'', None)
         else Inr (''system1_only'', None))"
proof (cases "get_by_key rt k")
  case (Some b)
  obtain r rt' where r: "update_belief E rd b (Asserted v) (py_parse_provenance u src) c rt = (r, rt')" by fastforce
  from update_calm [OF assms(1) py_runtime_reachable_inv [OF assms] r] show ?thesis
    using Some r by (auto simp: py_update_belief_def map_runtime_err_def split: if_splits)
qed (simp add: py_update_belief_def)

text \<open>
  With the documented default of 0.15 a certain belief always asks for reflection, a doubtful one never.
\<close>

abbreviation "demo_rt \<equiv> attach_llm_client (mock_reflect (Fin (1 / 2)) ''mock'')
  (snd (py_insert_belief demo_env 1 0 ''goal'' ''ship'' (Fin 1) (None, None, None)
     (py_runtime_new demo_env empty_store (f_lit F32 (15 / 100)) 50 (Fin 1))))"

theorem python_update_witness:
  "fst (py_update_belief demo_env demo_readings 2 ''goal'' ''shipped'' (Fin 1) (None, None, None) demo_rt) =
     Inr (''system2_pending'', None)"
proof -
  have r: "py_runtime_reachable demo_env canonical_parse (f_lit F32 (15 / 100)) demo_rt"
    by (rule py_runtime_reachable.step [OF py_runtime_reachable.step [OF py_runtime_reachable.start]],
        rule py_runtime_step.insert, rule py_runtime_step.attach)
  have l: "belief_lib (the_lib demo_env)" using ref_belief_lib by (simp add: demo_env_lib)
  let ?n = "belief_node_new 0 ''goal'' (Asserted ''ship'') (py_parse_provenance 1 (None, None, None)) (Fin 1)"
  obtain b q where i: "quad_insert ref_lib (session_new ref_lib) ?n = (b, q)" by fastforce
  note w = ref.py_inv_wf [OF ref.py_reachable_inv [OF py_reachable.start], unfolded quad_state_new_def quad_state.simps]
  have "quad_get ref_lib q b \<noteq> None" using ref.insert_get(3) [OF w i] by simp
  moreover have "\<not> prospect ?n" by (simp add: belief_node_new_def)
  ultimately have b: "get_by_key demo_rt ''goal'' = Some b" "quad_get (the_lib demo_env) (rt_quad demo_rt) b \<noteq> None"
    using i by (simp_all add: attach_llm_client_def set_llm_client_def py_insert_belief_def insert_belief_def py_runtime_new_def
        runtime_new_def observe_active_inference_def get_by_key_def Let_def)
  have "flt DEFAULT_REFLECTION_THRESHOLD (fabs (fsub F32 (clamp01 (Fin 1)) (f_lit F32 (15 / 100))))" by code_simp
  then show ?thesis
    using python_update [OF l r, of demo_readings 2 "''goal''" "''shipped''" "Fin 1" "(None, None, None)"] b
    by (simp add: attach_llm_client_def set_llm_client_def)
qed

end
