(* ===== verification/Spec2Isabelle.thy ===== *)
theory Spec2Isabelle
  imports Revision System1 Quad_Diff Quad_Session Merkle_Proofs Evidence_Cli Sovereignty Active_Inference Contract_Engine
    Runtime_Budget Runtime_Retrieval Runtime_Concurrency Mcp_Beliefs Llm_Clients Long_Term_Memory Bench_Reports Graph_Text
    Hash_Embedder Derived_State Python_Runtime
begin

text \<open>
  \<^bold>\<open>Epica: a verified model of its belief runtime.\<close>

  Epica is a store of beliefs for agents driven by language models. A belief (a key, a value, its provenance,
  a fast and a reflected confidence) lives in a slot map and, under the same id, in four graphs
  (semantic, temporal, causal, entity). A new value for a belief goes through AGM revision; a change of
  confidence is propagated along the causal graph (System 1) and, when it is large, a language model is asked to
  reflect (System 2). Contracts are checked around every update and can roll the store back to a checkpoint;
  policies of mnemonic sovereignty say who may write and forget, and audit entries can be sealed into a hash chain
  from which signed receipts are cut. A server, a derive macro, clients of model providers, long-term
  memory and a benchmark are built on the runtime.

  \<^bold>\<open>Theories and sources\<close>, in the order they build on each other (crate directories are under
  \<open>src/crates\<close>):

  \<^item> \<open>Prelude\<close>: machine integers, lists, maps. \<open>Binary_Float\<close>: \<open>f32\<close> and \<open>f64\<close>, exact.
    \<open>Hex_Text\<close>, \<open>Decimal_Text\<close>: numbers as text.
  \<^item> \<open>Slot_Map\<close>, \<open>Stable_Graph\<close>: the laws of the crates \<open>slotmap\<close> and \<open>petgraph\<close> as
    locales, each with an executable instance.
  \<^item> \<open>Belief\<close>, \<open>Embedding\<close>, \<open>Prospective_Index\<close>, \<open>Projection\<close>,
    \<open>Quad_Graphs\<close>, \<open>Belief_Quad\<close>, \<open>Graph_Text\<close>: \<open>epica-core/src/belief\<close>,
    \<open>embedding\<close>, \<open>prospective\<close>, \<open>quad\<close>.
  \<^item> \<open>Revision\<close>, \<open>System1\<close>, \<open>Quad_Diff\<close>, \<open>Quad_Session\<close>:
    \<open>epica-core/src/revision\<close>, \<open>system1\<close>, \<open>diff\<close> and \<open>counterfactual\<close>,
    \<open>checkpoint\<close>.
  \<^item> \<open>Audit_Ledger\<close>, \<open>Merkle_Proofs\<close>, \<open>Sovereignty\<close>, \<open>Contracts\<close>:
    \<open>epica-contracts/src\<close>.
  \<^item> \<open>Evidence\<close>, \<open>Evidence_Cli\<close>: \<open>epica-zk-evidence/src\<close> and its tool
    \<open>epica-verify\<close>.
  \<^item> \<open>Active_Inference\<close>: \<open>epica-active-inference/src\<close>.
  \<^item> \<open>Runtime_State\<close>, \<open>Contract_Engine\<close>, \<open>Runtime\<close>: \<open>epica-runtime/src\<close>. Its
    properties are in \<open>Runtime_Properties\<close>, \<open>Runtime_Keys\<close>, \<open>Runtime_Budget\<close>,
    \<open>Runtime_Retrieval\<close>, \<open>Runtime_Concurrency\<close> and \<open>Runtime_Ungoverned\<close>;
    \<open>Hash_Embedder\<close> is its offline embedder.
  \<^item> \<open>Mcp_Tasks\<close>, \<open>Mcp_Http\<close>, \<open>Mcp_Beliefs\<close>: \<open>epica-mcp/src\<close>, the task
    stores and the event stream, the HTTP layers, the handlers and the start of the server.
  \<^item> \<open>Llm_Clients\<close>: \<open>epica-openai/src\<close> and \<open>epica-anthropic/src\<close>.
    \<open>Long_Term_Memory\<close>: \<open>epica-memory/src\<close>. \<open>Derived_State\<close>:
    \<open>epica-macros/src/lib.rs\<close>. \<open>Python_Quad\<close>, \<open>Python_Runtime\<close>: \<open>epica-python/src\<close>.
  \<^item> \<open>Bench_Traces\<close>, \<open>Bench_Metrics\<close>, \<open>Bench_Harness\<close>, \<open>Bench_Reports\<close>:
    \<open>epica-benchmarks/src\<close>.

  \<^bold>\<open>State and operations.\<close> A struct is a record and an enum a datatype with the names of the source; a
  method with \<open>&mut self\<close> is a function that returns the new state, an error is a value of a sum type.
  The quad is the record \<open>quad\<close> over the types of the libraries, and \<open>quad_wf\<close> says that the slot map
  and the graphs know the same ids. \<open>session_step\<close> and \<open>runtime_step\<close> are the step relations of
  the core and of the runtime; \<open>runtime_step\<close> has one step for each stretch of an operation that holds
  the lock of the quad, so its paths are the interleavings of concurrent calls.

  \<^bold>\<open>What the lemmas show.\<close>

  \<^item> Synchronisation: every operation of the core keeps \<open>quad_wf\<close> (\<open>Belief_Quad\<close>), hence every
    reachable session does (\<open>Quad_Session\<close>) and every reachable runtime (\<open>Runtime_Properties\<close>).
  \<^item> Revision: its result, errors, contraction and postulates on every branch (\<open>Revision\<close>); propagation
    ends on every graph (\<open>System1\<close>); diffs and counterfactuals against the causal relation
    (\<open>Quad_Diff\<close>).
  \<^item> Rollback: what a checkpoint restores, and what survives that should not: erased beliefs
    (\<open>Sovereignty\<close>), stale keys (\<open>Runtime_Keys\<close>), other calls' checkpoints
    (\<open>Runtime_Concurrency\<close>).
  \<^item> Contracts: enforcement is clean exactly when nothing severe is violated (\<open>Contract_Engine\<close>), a
    violating update is undone (\<open>Runtime_Properties\<close>).
  \<^item> Audit: the verifier accepts exactly the well-formed chains, a forged entry or proof is a collision of the
    hash, receipts pin their window, and the tools round-trip (\<open>Audit_Ledger\<close>, \<open>Merkle_Proofs\<close>,
    \<open>Evidence\<close>, \<open>Evidence_Cli\<close>).
  \<^item> Front ends: a Python session keeps its key index exact and never contracts a belief, and the outcome of each
    of its updates is given (\<open>Python_Quad\<close>, \<open>Python_Runtime\<close>); the server never enforces the contract it is
    started with (\<open>Mcp_Beliefs\<close>).
  \<^item> Edges of the system: the store over \<open>sled\<close> refines the one in memory, the HTTP layers guard the
    handlers, memory and derived structs round-trip, the embedding cache loses nothing, the statistics of the
    benchmark are the exact ones.

  \<^bold>\<open>Numbers, bounds and fuel.\<close> Floats are rationals rounded to nearest, ties to even, at 24 and 53 bits,
  with subnormals, infinities and one NaN; signed zeros are one zero. Integers keep their width; \<open>usize\<close> is
  64 bits. Propagation gets the number of beliefs plus two as fuel, which is proved to be enough; the retry loops
  make three attempts and the event stream at most 301 events; the monitor's window holds between 16 and 16384
  readings; the percentiles of the benchmark are exact below \<open>2 ^ 40\<close> samples, the product of the rank
  being exact in \<open>f64\<close> there. Text is a list of bytes, so a character count of the source is a byte count.

  \<^bold>\<open>Parameters.\<close> What is not under \<open>src\<close> is an argument: the slot map and the graphs, hashing and
  signatures, JSON, UUID and JWT codecs, the databases Redis, Neo4j and \<open>sled\<close>, HTTP replies, the natural
  logarithm and the exponential, the order in which a hash set is iterated, clocks, random bits and fresh ids.
  Their laws are the locales \<open>slot_map\<close>, \<open>stable_digraph\<close>, \<open>belief_lib\<close>, \<open>digest_hash\<close>,
  \<open>signing_laws\<close>, \<open>uuid_text\<close>, \<open>natural_log\<close>, \<open>embedding_cache\<close>, \<open>redis_server\<close> and
  \<open>sled_library\<close>, each interpreted by functions that compute; no law says more than the
  documentation of the library. The hash is never assumed to be free of collisions: where that matters the
  conclusion names the collision.

  \<^bold>\<open>Not modelled.\<close> Logging, metrics export and tracing spans; wall-clock waiting and scheduling below the
  level of lock-holding phases; the texts of prompts, schemas and the server card, which are constants; argument
  parsing of the tools; conversions to Python dictionaries; the optional adapters of the
  benchmark to external environments and the zero-knowledge prover, both of which are stubs in the source.
\<close>

end
